(* ===== verification/Prelude.thy ===== *)
theory Prelude
  imports Main "HOL-Library.Sublist" "HOL-Library.Multiset"
begin

text \<open>
  Shared vocabulary of the development: the JavaScript library operations the sources use on
  strings, arrays and environment variables, written once, with the lemmas the component
  theories rest on, and the collections of rewrite rules they extend.

  A JavaScript string is a list of code units.  Names, keys and protocol constants are
  modelled by \<^typ>\<open>string\<close>; text that comes out of a byte stream is a list over a type of
  its own (theory DockerFrames).  The array and string operations are therefore polymorphic.
\<close>

named_theorems effect_simps \<open>definitions of the effect-emitting helpers of a component\<close>
named_theorems inv_lemmas \<open>preservation of a component's invariant by one operation\<close>

section \<open>Option and environment helpers\<close>

text \<open>An environment variable is absent or a string; \<open>!v\<close> holds for both absent and empty.\<close>

type_synonym env = "string \<Rightarrow> string option"

definition truthy :: "string option \<Rightarrow> bool" where
  "truthy v = (case v of None \<Rightarrow> False | Some s \<Rightarrow> s \<noteq> [])"

definition nullish :: "'a option \<Rightarrow> 'a \<Rightarrow> 'a" where
  "nullish v d = (case v of None \<Rightarrow> d | Some x \<Rightarrow> x)"

lemma truthy_simps [simp]:
  "\<not> truthy None" "truthy (Some s) = (s \<noteq> [])"
  by (simp_all add: truthy_def)

lemma truthy_iff: "truthy v \<longleftrightarrow> (\<exists>s. v = Some s \<and> s \<noteq> [])"
  by (cases v) auto

lemma nullish_simps [simp]:
  "nullish None d = d" "nullish (Some x) d = x"
  by (simp_all add: nullish_def)

section \<open>String operations\<close>

text \<open>\<open>s.split(c)\<close> for a separator of one code unit: never empty, \<open>""\<close> gives \<open>[""]\<close>.\<close>

fun cons_first :: "'c \<Rightarrow> 'c list list \<Rightarrow> 'c list list" where
  "cons_first x [] = [[x]]"
| "cons_first x (p # ps) = (x # p) # ps"

fun js_split :: "'c \<Rightarrow> 'c list \<Rightarrow> 'c list list" where
  "js_split c [] = [[]]"
| "js_split c (x # xs) =
     (if x = c then [] # js_split c xs else cons_first x (js_split c xs))"

fun js_join :: "'c list \<Rightarrow> 'c list list \<Rightarrow> 'c list" where
  "js_join sep [] = []"
| "js_join sep [s] = s"
| "js_join sep (s # t # ss) = s @ sep @ js_join sep (t # ss)"

definition starts_with :: "'c list \<Rightarrow> 'c list \<Rightarrow> bool" where
  "starts_with s p = (take (length p) s = p)"

text \<open>White space and line terminators of ECMAScript below code unit 256.\<close>

definition js_space :: "char \<Rightarrow> bool" where
  "js_space c = (c \<in> {CHR 0x09, CHR 0x0A, CHR 0x0B, CHR 0x0C, CHR 0x0D, CHR 0x20, CHR 0xA0})"

definition js_trim :: "string \<Rightarrow> string" where
  "js_trim s = rev (dropWhile js_space (rev (dropWhile js_space s)))"

lemma cons_first_not_Nil [simp]: "cons_first x ps \<noteq> []"
  by (cases ps) auto

lemma js_split_not_Nil [simp]: "js_split c xs \<noteq> []"
  by (cases xs) auto

lemma length_cons_first [simp]: "ps \<noteq> [] \<Longrightarrow> length (cons_first x ps) = length ps"
  by (cases ps) auto

lemma length_js_split: "length (js_split c xs) = Suc (count_list xs c)"
  by (induction xs) auto

lemma js_split_no_sep: "c \<notin> set xs \<Longrightarrow> js_split c xs = [xs]"
  by (induction xs) auto

lemma js_split_pieces: "s \<in> set (js_split c xs) \<Longrightarrow> c \<notin> set s"
proof (induction xs arbitrary: s)
  case (Cons x xs)
  show ?case
  proof (cases "js_split c xs")
    case (Cons p ps)
    with Cons.IH Cons.prems show ?thesis by (auto split: if_splits)
  qed simp
qed simp

lemma js_join_split: "js_join [c] (js_split c xs) = xs"
proof (induction xs)
  case (Cons x xs)
  show ?case
  proof (cases "js_split c xs")
    case (Cons p ps)
    with Cons.IH show ?thesis by (cases ps) auto
  qed simp
qed simp

text \<open>
  Splitting a concatenation: the last piece of the first part is continued by the second
  part.  This is what every "keep the unfinished line" buffer of the sources relies on.
\<close>

lemma js_split_append:
  "js_split c (xs @ ys) = butlast (js_split c xs) @ js_split c (last (js_split c xs) @ ys)"
proof (induction xs)
  case (Cons x xs)
  show ?case
  proof (cases "js_split c xs")
    case (Cons p ps)
    with Cons.IH show ?thesis by (cases ps) auto
  qed simp
qed simp

lemma js_split_last_no_sep: "c \<notin> set (last (js_split c xs))"
  by (rule js_split_pieces [OF last_in_set]) simp

lemma js_split_snoc_sep:
  assumes "c \<notin> set l"
  shows "js_split c (l @ c # ys) = l # js_split c ys"
  using assms by (induction l) auto

lemma starts_with_append [simp]: "starts_with (p @ s) p"
  by (simp add: starts_with_def)

lemma starts_withE:
  assumes "starts_with s p"
  obtains r where "s = p @ r"
  using assms that by (metis append_take_drop_id starts_with_def)

lemma starts_with_iff: "starts_with s p \<longleftrightarrow> (\<exists>r. s = p @ r)"
  by (auto elim: starts_withE)

text \<open>
  \<open>/^[a-z0-9][a-z0-9_.-]{0,n}$/i\<close>, the pattern of container names (n = 127) and service
  names (n = 63).
\<close>

definition ascii_alnum :: "char \<Rightarrow> bool" where
  "ascii_alnum c = (let n = (of_char c :: nat)
     in (48 \<le> n \<and> n \<le> 57) \<or> (65 \<le> n \<and> n \<le> 90) \<or> (97 \<le> n \<and> n \<le> 122))"

definition name_char :: "char \<Rightarrow> bool" where
  "name_char c = (ascii_alnum c \<or> c \<in> {CHR ''_'', CHR ''.'', CHR ''-''})"

fun matches_name :: "nat \<Rightarrow> string \<Rightarrow> bool" where
  "matches_name n [] = False"
| "matches_name n (c # cs) = (ascii_alnum c \<and> list_all name_char cs \<and> length cs \<le> n)"

lemma matches_name_chars: "matches_name n s \<Longrightarrow> c \<in> set s \<Longrightarrow> name_char c"
  by (cases s) (auto simp: name_char_def list_all_iff)

lemma matches_name_no_bar: "matches_name n s \<Longrightarrow> CHR ''|'' \<notin> set s"
  using matches_name_chars [of n s "CHR ''|''"] by (auto simp: name_char_def ascii_alnum_def)

lemma matches_name_length: "matches_name n s \<Longrightarrow> 1 \<le> length s \<and> length s \<le> Suc n"
  by (cases s) auto

lemma matches_name_mono: "matches_name m s \<Longrightarrow> m \<le> n \<Longrightarrow> matches_name n s"
  by (cases s) auto

section \<open>Array operations\<close>

text \<open>\<open>[...new Set(xs)]\<close>: duplicates dropped, first occurrences kept in order.\<close>

fun js_uniq :: "'a list \<Rightarrow> 'a list" where
  "js_uniq [] = []"
| "js_uniq (x # xs) = x # filter (\<lambda>y. y \<noteq> x) (js_uniq xs)"

lemma set_js_uniq [simp]: "set (js_uniq xs) = set xs"
  by (induction xs) auto

lemma distinct_js_uniq [simp]: "distinct (js_uniq xs)"
  by (induction xs) auto

lemma js_uniq_distinct: "distinct xs \<Longrightarrow> js_uniq xs = xs"
  by (induction xs) (auto simp: filter_id_conv)

text \<open>
  \<open>Array.prototype.sort(cmp)\<close> is stable; for a consistent comparator the result is the
  stable sorted permutation, computed here by insertion.  \<open>le a b\<close> stands for
  \<open>cmp(a, b) <= 0\<close>.
\<close>

fun js_insert :: "('a \<Rightarrow> 'a \<Rightarrow> bool) \<Rightarrow> 'a \<Rightarrow> 'a list \<Rightarrow> 'a list" where
  "js_insert le x [] = [x]"
| "js_insert le x (y # ys) = (if le x y then x # y # ys else y # js_insert le x ys)"

fun js_sort :: "('a \<Rightarrow> 'a \<Rightarrow> bool) \<Rightarrow> 'a list \<Rightarrow> 'a list" where
  "js_sort le [] = []"
| "js_sort le (x # xs) = js_insert le x (js_sort le xs)"

definition total_preorder :: "('a \<Rightarrow> 'a \<Rightarrow> bool) \<Rightarrow> bool" where
  "total_preorder le \<longleftrightarrow> (\<forall>a b. le a b \<or> le b a) \<and> (\<forall>a b c. le a b \<longrightarrow> le b c \<longrightarrow> le a c)"

lemma mset_js_insert [simp]: "mset (js_insert le x xs) = add_mset x (mset xs)"
  by (induction xs) auto

lemma mset_js_sort [simp]: "mset (js_sort le xs) = mset xs"
  by (induction xs) auto

lemma set_js_sort [simp]: "set (js_sort le xs) = set xs"
  by (metis mset_js_sort set_mset_mset)

lemma length_js_sort [simp]: "length (js_sort le xs) = length xs"
  by (metis mset_js_sort size_mset)

lemma set_js_insert [simp]: "set (js_insert le x xs) = insert x (set xs)"
  by (metis mset_js_insert set_mset_add_mset_insert set_mset_mset)

lemma sorted_wrt_js_insert:
  assumes "total_preorder le" and "sorted_wrt le xs"
  shows "sorted_wrt le (js_insert le x xs)"
  using assms(2)
proof (induction xs)
  case (Cons y ys)
  then show ?case
    using assms(1) unfolding total_preorder_def by auto
qed simp

lemma sorted_wrt_js_sort: "total_preorder le \<Longrightarrow> sorted_wrt le (js_sort le xs)"
  by (induction xs) (auto intro: sorted_wrt_js_insert)

lemma js_insert_sorted:
  "\<forall>y\<in>set xs. le x y \<Longrightarrow> js_insert le x xs = x # xs"
  by (cases xs) auto

lemma js_sort_id: "sorted_wrt le xs \<Longrightarrow> js_sort le xs = xs"
  by (induction xs) (auto simp: js_insert_sorted)

lemma js_sort_idem: "total_preorder le \<Longrightarrow> js_sort le (js_sort le xs) = js_sort le xs"
  by (simp add: js_sort_id sorted_wrt_js_sort)

lemma distinct_map_js_sort [simp]: "distinct (map f (js_sort le xs)) = distinct (map f xs)"
proof -
  have "mset (map f (js_sort le xs)) = mset (map f xs)" by simp
  then show ?thesis using mset_eq_imp_distinct_iff by blast
qed

text \<open>One element taken out of a list of waiting continuations.\<close>

fun remove_nth :: "nat \<Rightarrow> 'a list \<Rightarrow> 'a list" where
  "remove_nth i xs = take i xs @ drop (Suc i) xs"

declare remove_nth.simps [simp del]

lemma remove_nth_subset: "set (remove_nth i xs) \<subseteq> set xs"
  using set_take_subset [of i xs] set_drop_subset [of "Suc i" xs] by (auto simp: remove_nth.simps)

section \<open>Error results\<close>

text \<open>
  Exceptions of the Nest handlers are values: \<open>Inl\<close> the exception, \<open>Inr\<close> the result.
  \<open>ebind\<close> is the propagation of a throw through a sequence of statements.
\<close>

fun ebind :: "'e + 'a \<Rightarrow> ('a \<Rightarrow> 'e + 'b) \<Rightarrow> 'e + 'b" where
  "ebind (Inl e) f = Inl e"
| "ebind (Inr x) f = f x"

lemma ebind_Inr_iff: "ebind m f = Inr y \<longleftrightarrow> (\<exists>x. m = Inr x \<and> f x = Inr y)"
  by (cases m) auto

lemma ebind_Inl_iff: "ebind m f = Inl e \<longleftrightarrow> m = Inl e \<or> (\<exists>x. m = Inr x \<and> f x = Inl e)"
  by (cases m) auto

section \<open>Projections of lists\<close>

lemma map_filter_append [simp]: "List.map_filter f (xs @ ys) = List.map_filter f xs @ List.map_filter f ys"
  by (simp add: List.map_filter_def)

lemma map_filter_some: "(\<And>x. x \<in> set xs \<Longrightarrow> f (g x) = Some (h x)) \<Longrightarrow> List.map_filter f (map g xs) = map h xs"
  by (induction xs) (simp_all add: List.map_filter_simps)

lemma map_filter_none: "(\<And>x. x \<in> set xs \<Longrightarrow> f (g x) = None) \<Longrightarrow> List.map_filter f (map g xs) = []"
  by (induction xs) (simp_all add: List.map_filter_simps)

lemma mem_map_filter: "f x = Some y \<Longrightarrow> x \<in> set xs \<Longrightarrow> y \<in> set (List.map_filter f xs)"
  by (force simp: List.map_filter_def)

section \<open>Runs of a step function with outputs\<close>

fun step_run :: "('s \<Rightarrow> 'e \<Rightarrow> 's \<times> 'f list) \<Rightarrow> 's \<Rightarrow> 'e list \<Rightarrow> 's \<times> 'f list" where
  "step_run step s [] = (s, [])"
| "step_run step s (e # es) =
     (let (s1, out1) = step s e; (s2, out2) = step_run step s1 es in (s2, out1 @ out2))"

lemma step_run_append:
  "step_run step s (es @ fs) =
     (fst (step_run step (fst (step_run step s es)) fs),
      snd (step_run step s es) @ snd (step_run step (fst (step_run step s es)) fs))"
  by (induction es arbitrary: s) (auto simp: split_beta Let_def)

lemma step_run_invariant:
  assumes "I s" and "\<And>t e. I t \<Longrightarrow> I (fst (step t e))"
  shows "I (fst (step_run step s es))"
  using assms(1) by (induction es arbitrary: s) (auto simp: split_beta Let_def assms(2))

end
