(* ===== verification/Http.thy ===== *)
theory Http
  imports Complex_Main Prelude
begin

text \<open>
  What the sources use of JSON and of HTTP.  A JSON value as \<open>JSON.parse\<close> returns it
  (numbers exact), property access on it, and the outcome of an awaited \<open>fetch\<close>: the network
  failed, or a response came with a status and a body that may not be JSON.  Exceptions of the
  Nest handlers are the datatype \<open>http_error\<close>; texts of messages are constructors.
\<close>

section \<open>JSON\<close>

datatype json =
  JNull
| JBool bool
| JNum rat
| JStr string
| JArr "json list"
| JObj "(string \<times> json) list"

text \<open>Property access on an object: \<open>undefined\<close> is \<open>None\<close>; a later duplicate key wins in
  \<open>JSON.parse\<close>.\<close>

fun jfield :: "string \<Rightarrow> json \<Rightarrow> json option" where
  "jfield k (JObj kvs) = map_of (rev kvs) k"
| "jfield k _ = None"

fun jstring :: "json option \<Rightarrow> string option" where
  "jstring (Some (JStr s)) = Some s"
| "jstring _ = None"

lemma jstring_Some [simp]: "jstring v = Some s \<longleftrightarrow> v = Some (JStr s)"
  by (cases v rule: jstring.cases) auto

text \<open>\<open>typeof x === "object" && x !== null\<close>\<close>

fun jis_object :: "json \<Rightarrow> bool" where
  "jis_object (JObj kvs) = True"
| "jis_object (JArr xs) = True"
| "jis_object _ = False"

text \<open>\<open>Number.isInteger\<close>\<close>

definition is_integer :: "rat \<Rightarrow> bool" where
  "is_integer q = (snd (quotient_of q) = 1)"

lemma is_integer_of_int [simp]: "is_integer (rat_of_int i)"
  by (simp add: is_integer_def)

lemma is_integer_iff: "is_integer q \<longleftrightarrow> q = rat_of_int \<lfloor>q\<rfloor>"
proof
  assume "is_integer q"
  then have "quotient_of q = (fst (quotient_of q), 1)" by (simp add: is_integer_def prod_eq_iff)
  then have "q = rat_of_int (fst (quotient_of q))" by (auto dest: quotient_of_div)
  then show "q = rat_of_int \<lfloor>q\<rfloor>" by (metis floor_of_int)
next
  assume "q = rat_of_int \<lfloor>q\<rfloor>"
  then show "is_integer q" by (metis is_integer_of_int)
qed

section \<open>Responses\<close>

datatype http_outcome = NetFail | Resp nat "json option"

definition resp_ok :: "nat \<Rightarrow> bool" where
  "resp_ok status = (200 \<le> status \<and> status \<le> 299)"

text \<open>\<open>await response.json().catch(() => ({}))\<close>\<close>

definition json_or_empty :: "json option \<Rightarrow> json" where
  "json_or_empty b = nullish b (JObj [])"

lemma json_or_empty_simps [simp]:
  "json_or_empty None = JObj []" "json_or_empty (Some j) = j"
  by (simp_all add: json_or_empty_def)

section \<open>Exceptions\<close>

datatype bad_request =
  MissingFields "string list"
| InvalidParam string
| OutOfRange string nat
| InvalidContainer
| InvalidMetric
| UnknownAlertKey string
| NothingToUpdate

datatype unavailable =
  NotConfigured string
| Unreachable string
| UpstreamSaid json
| UpstreamStatus nat

datatype http_error =
  BadRequest bad_request
| Unauthorized
| Forbidden
| NotFound string
| ServiceUnavailable unavailable
| UpstreamError json nat
| UncheckedError

fun error_status :: "http_error \<Rightarrow> nat" where
  "error_status (BadRequest _) = 400"
| "error_status Unauthorized = 401"
| "error_status Forbidden = 403"
| "error_status (NotFound _) = 404"
| "error_status (ServiceUnavailable _) = 503"
| "error_status (UpstreamError _ s) = s"
| "error_status UncheckedError = 500"

end
