(* ===== verification/Shared.thy ===== *)
theory Shared
  imports Prelude
begin

text \<open>
  packages/shared/src: the contracts both applications share.  Roles and their order
  (auth.ts), the observable state of a service and its update events, room names and the
  log-stream messages (events.ts), the alert types (alerts.ts).
\<close>

section \<open>Roles (auth.ts)\<close>

datatype role = Viewer | Operator | Admin

text \<open>The strings of \<open>ROLES\<close>.\<close>

fun role_name :: "role \<Rightarrow> string" where
  "role_name Viewer = ''viewer''"
| "role_name Operator = ''operator''"
| "role_name Admin = ''admin''"

text \<open>\<open>ROLES.indexOf\<close>\<close>

fun role_index :: "role \<Rightarrow> nat" where
  "role_index Viewer = 0"
| "role_index Operator = 1"
| "role_index Admin = 2"

lemma role_index_inject [simp]: "role_index a = role_index b \<longleftrightarrow> a = b"
  by (cases a; cases b) auto

instantiation role :: linorder
begin

definition less_eq_role :: "role \<Rightarrow> role \<Rightarrow> bool" where
  "less_eq_role a b \<longleftrightarrow> role_index a \<le> role_index b"

definition less_role :: "role \<Rightarrow> role \<Rightarrow> bool" where
  "less_role a b \<longleftrightarrow> role_index a < role_index b"

instance
  by standard (auto simp: less_eq_role_def less_role_def)

end

lemma role_index_le: "role_index r \<le> 2"
  by (cases r) auto

lemma role_le_simps [simp]:
  "Viewer \<le> r" "r \<le> Admin" "Operator \<le> Viewer \<longleftrightarrow> False" "Admin \<le> Operator \<longleftrightarrow> False"
  "Admin \<le> Viewer \<longleftrightarrow> False"
  by (simp_all add: less_eq_role_def role_index_le)

record auth_user =
  sub :: "string option"
  email :: "string option"
  user_role :: role

definition ANONYMOUS :: auth_user where
  "ANONYMOUS = \<lparr>sub = None, email = None, user_role = Viewer\<rparr>"

definition roleFromClaims :: "string list \<Rightarrow> role" where
  "roleFromClaims claims =
     (if ''ADMIN'' \<in> set claims then Admin
      else if ''OPERATOR'' \<in> set claims then Operator
      else Viewer)"

definition hasRole :: "auth_user \<Rightarrow> role \<Rightarrow> bool" where
  "hasRole user min_role = (role_index (user_role user) \<ge> role_index min_role)"

lemma hasRole_iff: "hasRole user min_role \<longleftrightarrow> min_role \<le> user_role user"
  by (simp add: hasRole_def less_eq_role_def)

lemma ANONYMOUS_simps [simp]:
  "sub ANONYMOUS = None" "email ANONYMOUS = None" "user_role ANONYMOUS = Viewer"
  by (simp_all add: ANONYMOUS_def)

lemma hasRole_ANONYMOUS [simp]: "hasRole ANONYMOUS r \<longleftrightarrow> r = Viewer"
  by (cases r) (auto simp: hasRole_def)

text \<open>The highest recognised claim wins: the role is the maximum over the claims.\<close>

definition claim_role :: "string \<Rightarrow> role" where
  "claim_role c = (if c = ''ADMIN'' then Admin else if c = ''OPERATOR'' then Operator else Viewer)"

lemma roleFromClaims_upper:
  assumes "c \<in> set claims"
  shows "claim_role c \<le> roleFromClaims claims"
proof -
  consider "c = ''ADMIN''" | "c = ''OPERATOR''" | "claim_role c = Viewer"
    unfolding claim_role_def by meson
  then show ?thesis
  proof cases
    case 1
    with assms have "roleFromClaims claims = Admin" by (simp only: roleFromClaims_def if_True)
    then show ?thesis by simp
  next
    case 2
    with assms have "roleFromClaims claims = Admin \<or> roleFromClaims claims = Operator"
      by (simp only: roleFromClaims_def split: if_split) blast
    with 2 show ?thesis by (auto simp: claim_role_def)
  qed simp
qed

lemma claim_role_simps [simp]:
  "claim_role ''ADMIN'' = Admin" "claim_role ''OPERATOR'' = Operator"
  by (simp_all add: claim_role_def)

lemma roleFromClaims_cases:
  obtains "''ADMIN'' \<in> set claims" "roleFromClaims claims = Admin"
  | "''OPERATOR'' \<in> set claims" "roleFromClaims claims = Operator"
  | "roleFromClaims claims = Viewer"
  unfolding roleFromClaims_def by meson

lemma roleFromClaims_attained:
  assumes "roleFromClaims claims \<noteq> Viewer"
  shows "\<exists>c\<in>set claims. claim_role c = roleFromClaims claims"
  using assms by (cases claims rule: roleFromClaims_cases) (metis claim_role_simps)+

section \<open>Service state and updates (events.ts)\<close>

datatype container_status = Created | Running | Paused | Restarting | Exited | Dead

datatype container_health = Healthy | Unhealthy | Starting | NoHealth

text \<open>
  Times are epoch milliseconds; ISO strings that the program only forwards or parses stay
  strings.
\<close>

record service_state =
  sid :: string
  sname :: string
  service :: string
  project :: string
  img :: string
  status :: container_status
  health :: container_health
  startedAt :: "string option"
  uptimeSec :: "int option"

record state_snapshot =
  services :: "service_state list"
  generatedAt :: int

datatype lifecycle_action = AStart | ADie | AStop | AKill | ARestart | APause | AUnpause | AHealthStatus

record service_update =
  upd_service :: string
  upd_state :: service_state
  occurredAt :: int
  upd_action :: lifecycle_action
  exitCode :: "int option"

definition serviceKey :: "string \<Rightarrow> string \<Rightarrow> string" where
  "serviceKey p s = p @ ''.'' @ s"

definition serviceRoom :: "string \<Rightarrow> string" where
  "serviceRoom key = ''service:'' @ key"

lemma serviceRoom_inject [simp]: "serviceRoom a = serviceRoom b \<longleftrightarrow> a = b"
  by (simp add: serviceRoom_def)

lemma serviceKey_inject:
  assumes "CHR ''.'' \<notin> set p" and "CHR ''.'' \<notin> set q"
  shows "serviceKey p s = serviceKey q t \<longleftrightarrow> p = q \<and> s = t"
proof
  assume eq: "serviceKey p s = serviceKey q t"
  have "takeWhile (\<lambda>c. c \<noteq> CHR ''.'') (serviceKey p s) = p"
    "takeWhile (\<lambda>c. c \<noteq> CHR ''.'') (serviceKey q t) = q"
    using assms by (auto simp: serviceKey_def takeWhile_append2 takeWhile_tail)
  with eq have "p = q" by simp
  with eq show "p = q \<and> s = t" by (simp add: serviceKey_def)
qed simp

section \<open>Log-stream messages (events.ts)\<close>

datatype log_source = Stdout | Stderr

text \<open>Text that comes out of a byte stream: UTF-16 code units.\<close>

type_synonym utext = "nat list"

record log_line =
  line_ts :: utext
  line_source :: log_source
  ltext :: utext

record logs_batch =
  batch_container :: string
  batch_lines :: "log_line list"
  batch_dropped :: nat

section \<open>Alert types (alerts.ts)\<close>

datatype alert_type = Deploy | ResourceAlert | ContainerDown | ContainerRestarted | JobDlq

definition ALERT_TYPES :: "alert_type list" where
  "ALERT_TYPES = [Deploy, ResourceAlert, ContainerDown, ContainerRestarted, JobDlq]"

lemma ALERT_TYPES_complete: "set ALERT_TYPES = UNIV"
  by (auto simp: ALERT_TYPES_def) (metis alert_type.exhaust)

end
