(* ===== verification/LogSession.thy ===== *)
theory LogSession
  imports Prelude Shared
begin

text \<open>
  apps/api/src/logs/log-session.ts: the backpressure of one log session as a state machine.
  An operation returns the new state and the effects it had on its collaborators (the source,
  the batch emitter, the owner's \<open>onClose\<close>), in order.  \<open>flush\<close> is asynchronous: it runs up
  to its \<open>await\<close> and goes on when the client's ack arrives or its timeout expires, so those
  two are events of the machine, possible exactly while a batch is in flight.
\<close>

section \<open>State, options, effects\<close>

record session_options =
  container :: string
  batchSize :: nat
  maxQueue :: nat
  highWater :: nat
  lowWater :: nat
  ackTimeoutMs :: nat

definition DEFAULT_SESSION_OPTIONS :: "string \<Rightarrow> session_options" where
  "DEFAULT_SESSION_OPTIONS c = \<lparr>container = c, batchSize = 100, maxQueue = 2000, highWater = 1000,
     lowWater = 200, ackTimeoutMs = 10000\<rparr>"

definition options_ok :: "session_options \<Rightarrow> bool" where
  "options_ok opt \<longleftrightarrow> 0 < batchSize opt \<and> lowWater opt < highWater opt \<and> highWater opt \<le> maxQueue opt"

lemma DEFAULT_options_ok [simp]: "options_ok (DEFAULT_SESSION_OPTIONS c)"
  by (simp add: options_ok_def DEFAULT_SESSION_OPTIONS_def)

record log_session =
  queue :: "log_line list"
  dropped :: nat
  paused :: bool
  sending :: bool
  closed :: bool
  ending :: bool
  has_source :: bool

definition new_session :: log_session where
  "new_session = \<lparr>queue = [], dropped = 0, paused = False, sending = False, closed = False,
     ending = False, has_source = False\<rparr>"

datatype effect = PauseSource | ResumeSource | DestroySource | EmitBatch logs_batch | NotifyClose

text \<open>\<open>this.source?.m()\<close>\<close>

definition on_source :: "log_session \<Rightarrow> effect \<Rightarrow> effect list" where
  "on_source s e = (if has_source s then [e] else [])"

section \<open>Operations\<close>

definition session_close :: "log_session \<Rightarrow> log_session \<times> effect list" where
  "session_close s =
     (if closed s then (s, [])
      else (s\<lparr>closed := True, queue := []\<rparr>, on_source s DestroySource @ [NotifyClose]))"

definition maybeFinishEnding :: "log_session \<Rightarrow> log_session \<times> effect list" where
  "maybeFinishEnding s =
     (if ending s \<and> \<not> sending s \<and> queue s = [] \<and> \<not> closed s then session_close s else (s, []))"

text \<open>The \<open>finally\<close> block of \<open>flush\<close>.\<close>

definition flush_finally :: "log_session \<Rightarrow> log_session \<times> effect list" where
  "flush_finally s = maybeFinishEnding (s\<lparr>sending := False\<rparr>)"

text \<open>One test of the loop condition: the body up to the \<open>await\<close>, or the end of \<open>flush\<close>.\<close>

definition flush_loop :: "session_options \<Rightarrow> log_session \<Rightarrow> log_session \<times> effect list" where
  "flush_loop opt s =
     (if queue s \<noteq> [] \<and> \<not> closed s then
        (let batch = \<lparr>batch_container = container opt, batch_lines = take (batchSize opt) (queue s),
                      batch_dropped = dropped s\<rparr>;
             s1 = s\<lparr>queue := drop (batchSize opt) (queue s), dropped := 0\<rparr>;
             resume = paused s1 \<and> length (queue s1) \<le> lowWater opt
         in (if resume then s1\<lparr>paused := False\<rparr> else s1,
             (if resume then on_source s1 ResumeSource else []) @ [EmitBatch batch]))
      else flush_finally s)"

definition flush :: "session_options \<Rightarrow> log_session \<Rightarrow> log_session \<times> effect list" where
  "flush opt s = (if sending s \<or> closed s then (s, []) else flush_loop opt (s\<lparr>sending := True\<rparr>))"

definition attachSource :: "log_session \<Rightarrow> log_session \<times> effect list" where
  "attachSource s = (if closed s then (s, [DestroySource]) else (s\<lparr>has_source := True\<rparr>, []))"

text \<open>\<open>push\<close> up to the call of \<open>flush\<close>: drop the oldest line of a full queue, append, pause the
  source at the high-water mark.\<close>

definition push_enqueue :: "session_options \<Rightarrow> log_session \<Rightarrow> log_line \<Rightarrow> log_session \<times> effect list" where
  "push_enqueue opt s line =
     (let s1 = (if length (queue s) \<ge> maxQueue opt
                then s\<lparr>queue := tl (queue s), dropped := dropped s + 1\<rparr> else s);
          s2 = s1\<lparr>queue := queue s1 @ [line]\<rparr>
      in if \<not> paused s2 \<and> length (queue s2) \<ge> highWater opt
         then (s2\<lparr>paused := True\<rparr>, on_source s2 PauseSource) else (s2, []))"

definition session_push :: "session_options \<Rightarrow> log_session \<Rightarrow> log_line \<Rightarrow> log_session \<times> effect list" where
  "session_push opt s line =
     (if closed s then (s, [])
      else (let (s1, out1) = push_enqueue opt s line; (s2, out2) = flush opt s1 in (s2, out1 @ out2)))"

definition session_end :: "log_session \<Rightarrow> log_session \<times> effect list" where
  "session_end s =
     (if closed s \<or> ending s then (s, [])
      else maybeFinishEnding (s\<lparr>ending := True, has_source := False\<rparr>))"

text \<open>The ack of the batch in flight: back to the loop condition.\<close>

definition on_ack :: "session_options \<Rightarrow> log_session \<Rightarrow> log_session \<times> effect list" where
  "on_ack opt s = flush_loop opt s"

text \<open>The rejected \<open>await\<close>: \<open>catch\<close>, then \<open>finally\<close>.\<close>

definition on_timeout :: "log_session \<Rightarrow> log_session \<times> effect list" where
  "on_timeout s = (let (s1, out1) = session_close s; (s2, out2) = flush_finally s1 in (s2, out1 @ out2))"

section \<open>The machine\<close>

datatype session_event = Push log_line | Attach | End | Close | Ack | Timeout

fun session_step :: "session_options \<Rightarrow> log_session \<Rightarrow> session_event \<Rightarrow> log_session \<times> effect list" where
  "session_step opt s (Push l) = session_push opt s l"
| "session_step opt s Attach = attachSource s"
| "session_step opt s End = session_end s"
| "session_step opt s Close = session_close s"
| "session_step opt s Ack = on_ack opt s"
| "session_step opt s Timeout = on_timeout s"

definition event_enabled :: "log_session \<Rightarrow> session_event \<Rightarrow> bool" where
  "event_enabled s e = (e \<in> {Ack, Timeout} \<longrightarrow> sending s)"

text \<open>\<open>session_trace opt es s out\<close>: the events \<open>es\<close> lead from a new session to \<open>s\<close> with effects \<open>out\<close>.\<close>

inductive session_trace :: "session_options \<Rightarrow> session_event list \<Rightarrow> log_session \<Rightarrow> effect list \<Rightarrow> bool"
  for opt where
  trace_new: "session_trace opt [] new_session []"
| trace_step: "\<lbrakk>session_trace opt es s out; event_enabled s e; session_step opt s e = (t, out')\<rbrakk>
    \<Longrightarrow> session_trace opt (es @ [e]) t (out @ out')"

text \<open>The same runs as an evaluator: \<open>None\<close> when an ack or timeout comes with no batch in flight.\<close>

fun session_run :: "session_options \<Rightarrow> log_session \<Rightarrow> session_event list \<Rightarrow> (log_session \<times> effect list) option" where
  "session_run opt s [] = Some (s, [])"
| "session_run opt s (e # es) =
     (if event_enabled s e
      then (case session_run opt (fst (session_step opt s e)) es of
              None \<Rightarrow> None
            | Some (t, out) \<Rightarrow> Some (t, snd (session_step opt s e) @ out))
      else None)"

lemma session_run_extends:
  "session_trace opt es s out \<Longrightarrow> session_run opt s fs = Some (t, out')
    \<Longrightarrow> session_trace opt (es @ fs) t (out @ out')"
proof (induction fs arbitrary: es s out out')
  case (Cons e fs)
  let ?r = "session_step opt s e"
  from Cons.prems(2) obtain out2 where e: "event_enabled s e"
    and run: "session_run opt (fst ?r) fs = Some (t, out2)" and out': "out' = snd ?r @ out2"
    by (auto split: if_splits option.splits)
  have "session_trace opt (es @ [e]) (fst ?r) (out @ snd ?r)"
    using Cons.prems(1) e by (rule trace_step) simp
  from Cons.IH [OF this run] show ?case by (simp add: out')
qed simp

lemma session_run_trace:
  "session_run opt new_session es = Some (s, out) \<Longrightarrow> session_trace opt es s out"
  using session_run_extends [OF trace_new, of opt es s out] by simp

inductive_cases session_trace_snocE: "session_trace opt (es @ [e]) t out"

lemmas session_ops = session_end_def session_close_def on_ack_def on_timeout_def
  attachSource_def flush_def flush_loop_def flush_finally_def maybeFinishEnding_def on_source_def

section \<open>Invariant\<close>

definition session_inv :: "session_options \<Rightarrow> log_session \<Rightarrow> bool" where
  "session_inv opt s \<longleftrightarrow>
     length (queue s) \<le> maxQueue opt
     \<and> (closed s \<longrightarrow> queue s = [])
     \<and> (\<not> closed s \<longrightarrow>
          (queue s \<noteq> [] \<longrightarrow> sending s)
          \<and> (ending s \<longrightarrow> sending s)
          \<and> (paused s \<longrightarrow> lowWater opt < length (queue s))
          \<and> (highWater opt \<le> length (queue s) \<longrightarrow> paused s))"

lemma session_inv_new: "options_ok opt \<Longrightarrow> session_inv opt new_session"
  by (simp add: session_inv_def new_session_def options_ok_def)

text \<open>After \<open>push_enqueue\<close> only "a waiting line means a batch in flight" may fail, until \<open>flush\<close>.\<close>

definition queued_inv :: "session_options \<Rightarrow> log_session \<Rightarrow> bool" where
  "queued_inv opt s \<longleftrightarrow>
     length (queue s) \<le> maxQueue opt \<and> \<not> closed s \<and> queue s \<noteq> []
     \<and> (paused s \<longrightarrow> lowWater opt < length (queue s))
     \<and> (highWater opt \<le> length (queue s) \<longrightarrow> paused s)"

lemma push_enqueue_inv:
  assumes "options_ok opt" and "session_inv opt s" and "\<not> closed s"
  shows "queued_inv opt (fst (push_enqueue opt s l))"
  using assms
  by (auto simp: push_enqueue_def queued_inv_def session_inv_def options_ok_def Let_def)

lemma push_enqueue_frame [simp]:
  "closed (fst (push_enqueue opt s l)) = closed s"
  "sending (fst (push_enqueue opt s l)) = sending s"
  "ending (fst (push_enqueue opt s l)) = ending s"
  "has_source (fst (push_enqueue opt s l)) = has_source s"
  by (simp_all add: push_enqueue_def Let_def)

lemma flush_finally_inv:
  assumes "session_inv opt s" and "queue s = []" and "lowWater opt < highWater opt"
  shows "session_inv opt (fst (flush_finally s))"
proof (cases "closed s \<or> ending s")
  case True
  with assms(2) show ?thesis
    by (auto simp: flush_finally_def maybeFinishEnding_def session_close_def session_inv_def)
next
  case False
  with assms show ?thesis
    by (simp add: flush_finally_def maybeFinishEnding_def session_inv_def)
qed

lemma flush_loop_inv:
  assumes "options_ok opt" and "session_inv opt s" and "sending s"
  shows "session_inv opt (fst (flush_loop opt s))"
proof (cases "queue s \<noteq> [] \<and> \<not> closed s")
  case True
  let ?n = "length (queue s) - batchSize opt"
  have "?n \<le> maxQueue opt" "highWater opt \<le> ?n \<longrightarrow> paused s \<and> lowWater opt < ?n"
    using assms(1,2) True unfolding session_inv_def options_ok_def by linarith+
  with True assms(2,3) show ?thesis
    by (cases "paused s"; cases "?n \<le> lowWater opt") (simp_all add: flush_loop_def Let_def session_inv_def)
next
  case False
  with assms have "queue s = []" by (auto simp: session_inv_def)
  with False assms(1,2) show ?thesis
    by (simp add: flush_loop_def flush_finally_inv options_ok_def)
qed

lemma flush_inv:
  assumes "options_ok opt" and "queued_inv opt s"
  shows "session_inv opt (fst (flush opt s))"
proof (cases "sending s")
  case True
  with assms show ?thesis by (auto simp: flush_def queued_inv_def session_inv_def)
next
  case False
  have "session_inv opt (s\<lparr>sending := True\<rparr>)"
    using assms by (auto simp: queued_inv_def session_inv_def)
  from flush_loop_inv [OF assms(1) this] False assms(2) show ?thesis
    by (simp add: flush_def queued_inv_def)
qed

lemma session_inv_push [inv_lemmas]:
  assumes "options_ok opt" and "session_inv opt s"
  shows "session_inv opt (fst (session_push opt s l))"
  using assms flush_inv [OF assms(1) push_enqueue_inv]
  by (auto simp: session_push_def split_beta Let_def)

lemma session_inv_ack [inv_lemmas]:
  "options_ok opt \<Longrightarrow> session_inv opt s \<Longrightarrow> sending s \<Longrightarrow> session_inv opt (fst (on_ack opt s))"
  by (simp add: on_ack_def flush_loop_inv)

lemma session_inv_closed: "closed s \<Longrightarrow> queue s = [] \<Longrightarrow> session_inv opt s"
  by (simp add: session_inv_def)

lemma session_inv_close [inv_lemmas]: "session_inv opt s \<Longrightarrow> session_inv opt (fst (session_close s))"
  by (simp add: session_close_def session_inv_closed)

lemma session_inv_finish:
  "session_inv opt s \<Longrightarrow> session_inv opt (fst (maybeFinishEnding s))"
  by (simp add: maybeFinishEnding_def session_inv_close)

lemma session_inv_end [inv_lemmas]:
  assumes "session_inv opt s"
  shows "session_inv opt (fst (session_end s))"
proof (cases "closed s \<or> ending s")
  case True
  with assms show ?thesis by (simp add: session_end_def)
next
  case False
  let ?t = "s\<lparr>ending := True, has_source := False\<rparr>"
  show ?thesis
  proof (cases "sending s")
    case True
    with assms False have "session_inv opt ?t" by (simp add: session_inv_def)
    with False show ?thesis by (simp add: session_end_def session_inv_finish)
  next
    case idle: False
    with assms False have "queue s = []" by (simp add: session_inv_def)
    with False idle show ?thesis
      by (simp add: session_end_def maybeFinishEnding_def session_close_def session_inv_closed)
  qed
qed

lemma session_inv_attach [inv_lemmas]:
  "session_inv opt s \<Longrightarrow> session_inv opt (fst (attachSource s))"
  by (simp add: attachSource_def session_inv_def)

lemma session_inv_timeout [inv_lemmas]:
  assumes "session_inv opt s"
  shows "session_inv opt (fst (on_timeout s))"
proof -
  have c: "closed (fst (session_close s))" "queue (fst (session_close s)) = []"
    using assms by (simp_all add: session_close_def session_inv_def)
  then have "session_inv opt (fst (flush_finally (fst (session_close s))))"
    by (simp add: flush_finally_def maybeFinishEnding_def session_inv_closed)
  then show ?thesis by (simp add: on_timeout_def split_beta Let_def)
qed

lemma session_inv_step:
  assumes "options_ok opt" and "session_inv opt s" and "event_enabled s e"
  shows "session_inv opt (fst (session_step opt s e))"
  using assms by (cases e) (simp_all add: event_enabled_def inv_lemmas)

lemma session_trace_inv:
  assumes "session_trace opt es s out" and "options_ok opt"
  shows "session_inv opt s"
  using assms
proof (induction rule: session_trace.induct)
  case (trace_step es s out e t out')
  then show ?case by (metis fst_conv session_inv_step)
qed (rule session_inv_new)

end
