(* ===== verification/LogFlow.thy ===== *)
theory LogFlow
  imports LogSession
begin

text \<open>
  What a log session owes its client and its source, proved over all event sequences of the
  machine of theory LogSession: no silent loss, ack-driven flow control, bounded queue with
  hysteresis, a single close notification, and draining after the end of the source.
\<close>

section \<open>Observations\<close>

fun batches :: "effect list \<Rightarrow> logs_batch list" where
  "batches [] = []"
| "batches (EmitBatch b # out) = b # batches out"
| "batches (_ # out) = batches out"

fun pushes :: "session_event list \<Rightarrow> log_line list" where
  "pushes [] = []"
| "pushes (Push l # es) = l # pushes es"
| "pushes (_ # es) = pushes es"

definition delivered :: "effect list \<Rightarrow> log_line list" where
  "delivered out = concat (map batch_lines (batches out))"

lemma batches_append [simp]: "batches (xs @ ys) = batches xs @ batches ys"
  by (induction xs rule: batches.induct) auto

lemma pushes_append [simp]: "pushes (xs @ ys) = pushes xs @ pushes ys"
  by (induction xs rule: pushes.induct) auto

lemma delivered_append [simp]: "delivered (xs @ ys) = delivered xs @ delivered ys"
  by (simp add: delivered_def)

lemma batches_on_source [simp]:
  "batches (on_source s PauseSource) = []" "batches (on_source s ResumeSource) = []"
  "batches (on_source s DestroySource) = []"
  by (simp_all add: on_source_def)

lemma batches_push_enqueue [simp]: "batches (snd (push_enqueue opt s l)) = []"
  by (simp add: push_enqueue_def Let_def)

lemma batches_close [simp]: "batches (snd (session_close s)) = []"
  by (simp add: session_close_def)

lemma batches_finish [simp]: "batches (snd (maybeFinishEnding s)) = []"
  by (simp add: maybeFinishEnding_def)

lemma batches_finally [simp]: "batches (snd (flush_finally s)) = []"
  by (simp add: flush_finally_def)

lemma batches_end [simp]: "batches (snd (session_end s)) = []"
  by (simp add: session_end_def)

section \<open>No silent loss\<close>

text \<open>
  Specification of the batches as a stream with announced gaps: \<open>consume\<close> replays them
  against the pushed lines.  Each batch first skips the number of lines it reports as dropped
  and then must continue with exactly its lines; the result is what remains after it.
\<close>

fun consume :: "logs_batch list \<Rightarrow> log_line list \<Rightarrow> log_line list option" where
  "consume [] ps = Some ps"
| "consume (b # bs) ps =
     (if length ps < batch_dropped b then None
      else let rest = drop (batch_dropped b) ps
           in if take (length (batch_lines b)) rest = batch_lines b
              then consume bs (drop (length (batch_lines b)) rest) else None)"

lemma consume_append:
  "consume (bs @ cs) ps = (case consume bs ps of None \<Rightarrow> None | Some r \<Rightarrow> consume cs r)"
  by (induction bs ps rule: consume.induct) (auto simp: Let_def)

lemma consume_more:
  "consume bs ps = Some r \<Longrightarrow> consume bs (ps @ qs) = Some (r @ qs)"
proof (induction bs arbitrary: ps)
  case (Cons b bs)
  from Cons.prems have d: "batch_dropped b \<le> length ps"
    and t: "take (length (batch_lines b)) (drop (batch_dropped b) ps) = batch_lines b"
    and c: "consume bs (drop (length (batch_lines b)) (drop (batch_dropped b) ps)) = Some r"
    by (auto simp: Let_def split: if_splits)
  have l: "length (batch_lines b) \<le> length ps - batch_dropped b"
    by (subst t [symmetric]) simp
  then show ?case
    using Cons.IH [OF c] d t by (simp add: Let_def)
qed simp

text \<open>The session's bookkeeping: unreported losses come right before the queue.\<close>

definition accounted :: "log_session \<Rightarrow> logs_batch list \<Rightarrow> log_line list \<Rightarrow> bool" where
  "accounted s bs ps \<longleftrightarrow>
     (\<exists>lost. length lost = dropped s \<and> (if closed s then \<exists>r. consume bs ps = Some r
                                       else consume bs ps = Some (lost @ queue s)))"

lemma accounted_open:
  "\<not> closed s \<Longrightarrow> accounted s bs ps \<longleftrightarrow>
     (\<exists>lost. length lost = dropped s \<and> consume bs ps = Some (lost @ queue s))"
  by (simp add: accounted_def)

lemma accounted_closed: "closed s \<Longrightarrow> accounted s bs ps \<longleftrightarrow> (\<exists>r. consume bs ps = Some r)"
  by (auto simp: accounted_def intro: exI [of _ "replicate (dropped s) undefined"])

lemma accounted_consumes: "accounted s bs ps \<Longrightarrow> \<exists>r. consume bs ps = Some r"
  by (auto simp: accounted_def split: if_splits)

lemma accounted_cong:
  "accounted s bs ps \<Longrightarrow> closed t = closed s \<Longrightarrow> queue t = queue s \<Longrightarrow> dropped t = dropped s
    \<Longrightarrow> accounted t bs ps"
  by (simp only: accounted_def)

lemma accounted_close: "accounted s bs ps \<Longrightarrow> accounted (fst (session_close s)) bs ps"
  by (cases "closed s") (auto simp: session_close_def accounted_closed dest: accounted_consumes)

lemma accounted_finish: "accounted s bs ps \<Longrightarrow> accounted (fst (maybeFinishEnding s)) bs ps"
  by (simp add: maybeFinishEnding_def accounted_close)

lemma accounted_finally: "accounted s bs ps \<Longrightarrow> accounted (fst (flush_finally s)) bs ps"
  unfolding flush_finally_def by (rule accounted_finish) (erule accounted_cong; simp)

lemma accounted_end: "accounted s bs ps \<Longrightarrow> accounted (fst (session_end s)) bs ps"
  unfolding session_end_def by (auto intro!: accounted_finish elim: accounted_cong)

lemma accounted_attach: "accounted s bs ps \<Longrightarrow> accounted (fst (attachSource s)) bs ps"
  unfolding attachSource_def by (auto elim: accounted_cong)

lemma accounted_enqueue:
  assumes "options_ok opt" and "\<not> closed s" and "accounted s bs ps"
  shows "accounted (fst (push_enqueue opt s l)) bs (ps @ [l])"
proof -
  from assms(2,3) obtain lost where
    lost: "length lost = dropped s" "consume bs ps = Some (lost @ queue s)"
    by (auto simp: accounted_open)
  let ?t = "fst (push_enqueue opt s l)"
  from lost(2) have c: "consume bs (ps @ [l]) = Some ((lost @ queue s) @ [l])"
    by (rule consume_more)
  show ?thesis
  proof (cases "maxQueue opt \<le> length (queue s)")
    case True
    with assms(1) have "queue s \<noteq> []" by (auto simp: options_ok_def)
    then have "queue s = hd (queue s) # tl (queue s)" by simp
    with c have "consume bs (ps @ [l]) = Some ((lost @ [hd (queue s)]) @ tl (queue s) @ [l])"
      by (metis append.assoc append_Cons append_Nil)
    with True lost(1) assms(2) show ?thesis
      by (intro accounted_open [THEN iffD2] exI [of _ "lost @ [hd (queue s)]"])
        (auto simp: push_enqueue_def Let_def)
  next
    case False
    with lost(1) c assms(2) show ?thesis
      by (intro accounted_open [THEN iffD2] exI [of _ lost]) (auto simp: push_enqueue_def Let_def)
  qed
qed

lemma accounted_flush_loop:
  assumes "accounted s bs ps"
  shows "accounted (fst (flush_loop opt s)) (bs @ batches (snd (flush_loop opt s))) ps"
proof (cases "queue s \<noteq> [] \<and> \<not> closed s")
  case True
  with assms obtain lost where "length lost = dropped s" "consume bs ps = Some (lost @ queue s)"
    by (auto simp: accounted_open)
  with True show ?thesis
    by (auto simp: flush_loop_def Let_def accounted_open consume_append min_def)
next
  case False
  with assms show ?thesis by (auto simp: flush_loop_def accounted_finally)
qed

lemma accounted_flush:
  assumes "accounted s bs ps"
  shows "accounted (fst (flush opt s)) (bs @ batches (snd (flush opt s))) ps"
proof -
  have "accounted (s\<lparr>sending := True\<rparr>) bs ps"
    using assms by (rule accounted_cong) simp_all
  then show ?thesis using assms by (auto simp: flush_def accounted_flush_loop)
qed

lemma accounted_push:
  assumes "options_ok opt" and "accounted s bs ps"
  shows "accounted (fst (session_push opt s l)) (bs @ batches (snd (session_push opt s l))) (ps @ [l])"
proof (cases "closed s")
  case True
  with assms(2) show ?thesis
    by (auto simp: session_push_def accounted_closed dest: consume_more)
next
  case False
  from accounted_flush [OF accounted_enqueue [OF assms(1) False assms(2), of l], of opt] False
  show ?thesis by (simp add: session_push_def split_beta Let_def)
qed

lemma accounted_timeout: "accounted s bs ps \<Longrightarrow> accounted (fst (on_timeout s)) bs ps"
  by (simp add: on_timeout_def split_beta Let_def accounted_finally accounted_close)

lemma batches_timeout [simp]: "batches (snd (on_timeout s)) = []"
  by (simp add: on_timeout_def split_beta Let_def)

lemma batches_attach [simp]: "batches (snd (attachSource s)) = []"
  by (simp add: attachSource_def)

lemma accounted_step:
  assumes "options_ok opt" and "accounted s bs ps"
  shows "accounted (fst (session_step opt s e)) (bs @ batches (snd (session_step opt s e)))
    (ps @ pushes [e])"
  using assms
  by (cases e) (simp_all add: accounted_push accounted_attach accounted_end accounted_close
      accounted_timeout accounted_flush_loop on_ack_def)

lemma session_trace_accounted:
  assumes "session_trace opt es s out" and "options_ok opt"
  shows "accounted s (batches out) (pushes es)"
  using assms
proof (induction rule: session_trace.induct)
  case trace_new
  show ?case by (simp add: accounted_def new_session_def)
next
  case (trace_step es s out e t out')
  then show ?case using accounted_step [of opt s "batches out" "pushes es" e] by simp
qed

text \<open>
  C17: no silent loss and no reordering.  Along any run, replaying the emitted batches against
  the pushed lines succeeds: every line pushed so far was delivered in order, or lies in a gap
  whose exact length the next batch announced, or (session still open) is one of the \<open>dropped\<close>
  lines the next batch will announce, or is still queued.
\<close>

theorem session_no_silent_loss:
  assumes "session_trace opt es s out" and "options_ok opt"
  shows "\<exists>rest. consume (batches out) (pushes es) = Some rest
    \<and> (\<not> closed s \<longrightarrow> (\<exists>lost. rest = lost @ queue s \<and> length lost = dropped s))"
  using session_trace_accounted [OF assms]
  by (cases "closed s") (auto simp: accounted_open accounted_closed)

text \<open>A small session that has to drop: one line in flight, two queued, a fourth arrives, then an ack.\<close>

definition small_options :: session_options where
  "small_options = \<lparr>container = ''c'', batchSize = 1, maxQueue = 2, highWater = 2, lowWater = 1,
     ackTimeoutMs = 10\<rparr>"

definition line_at :: "nat \<Rightarrow> log_line" where
  "line_at n = \<lparr>line_ts = [n], line_source = Stdout, ltext = []\<rparr>"

definition small_run :: "session_event list" where
  "small_run = Attach # map (\<lambda>n. Push (line_at n)) [1, 2, 3, 4] @ [Ack]"

lemma small_run_result:
  "session_run small_options new_session small_run = Some
     (\<lparr>queue = [line_at 4], dropped = 0, paused = False, sending = True, closed = False,
       ending = False, has_source = True\<rparr>,
      [EmitBatch \<lparr>batch_container = ''c'', batch_lines = [line_at 1], batch_dropped = 0\<rparr>,
       PauseSource, ResumeSource,
       EmitBatch \<lparr>batch_container = ''c'', batch_lines = [line_at 3], batch_dropped = 1\<rparr>])"
  by (simp add: small_run_def small_options_def new_session_def session_ops session_push_def
      push_enqueue_def event_enabled_def)

lemma small_options_ok [simp]: "options_ok small_options"
  by (simp add: options_ok_def small_options_def)

lemmas small_trace = session_run_trace [OF small_run_result]

theorem session_no_silent_loss_witness:
  "\<exists>rest. consume
      [\<lparr>batch_container = ''c'', batch_lines = [line_at 1], batch_dropped = 0\<rparr>,
       \<lparr>batch_container = ''c'', batch_lines = [line_at 3], batch_dropped = 1\<rparr>]
      [line_at 1, line_at 2, line_at 3, line_at 4] = Some rest \<and> rest = [line_at 4]"
  using session_no_silent_loss [OF small_trace small_options_ok] by (simp add: small_run_def)

section \<open>Flow control\<close>

definition acks_and_timeouts :: "session_event list \<Rightarrow> nat" where
  "acks_and_timeouts es = length (filter (\<lambda>e. e \<in> {Ack, Timeout}) es)"

lemma acks_and_timeouts_snoc [simp]:
  "acks_and_timeouts (es @ [e]) = acks_and_timeouts es + (if e \<in> {Ack, Timeout} then 1 else 0)"
  by (simp add: acks_and_timeouts_def)

lemma finally_sending [simp]: "\<not> sending (fst (flush_finally s))"
  by (simp add: flush_finally_def maybeFinishEnding_def session_close_def)

lemma flush_loop_flow:
  "sending s \<Longrightarrow>
    length (batches (snd (flush_loop opt s))) = (if sending (fst (flush_loop opt s)) then 1 else 0)"
  by (simp add: flush_loop_def Let_def)

lemma session_step_flow:
  assumes "event_enabled s e"
  shows "length (batches (snd (session_step opt s e))) + (if sending s then 1 else 0)
    = (if e \<in> {Ack, Timeout} then 1 else 0) + (if sending (fst (session_step opt s e)) then 1 else 0)"
proof (cases e)
  case (Push l)
  then show ?thesis
    using flush_loop_flow [of "fst (push_enqueue opt s l)\<lparr>sending := True\<rparr>" opt]
    by (auto simp: session_push_def flush_def split_beta Let_def split: if_splits)
next
  case Ack
  with assms show ?thesis
    using flush_loop_flow [of s opt] by (simp add: on_ack_def event_enabled_def)
next
  case Timeout
  with assms show ?thesis by (simp add: on_timeout_def event_enabled_def split_beta Let_def)
qed (simp_all add: attachSource_def session_end_def session_close_def maybeFinishEnding_def)

text \<open>
  Ack-driven flow control.  In every reachable state the number of batches emitted is the
  number of acks and timeouts received, plus one exactly while a batch is in flight: a new
  batch never leaves before the previous one was answered.
\<close>

theorem session_one_batch_in_flight:
  assumes "session_trace opt es s out"
  shows "length (batches out) = acks_and_timeouts es + (if sending s then 1 else 0)"
  using assms
proof (induction rule: session_trace.induct)
  case trace_new
  show ?case by (simp add: acks_and_timeouts_def new_session_def)
next
  case (trace_step es s out e t out')
  with session_step_flow [OF trace_step.hyps(2), of opt] show ?case by simp
qed

theorem session_one_batch_in_flight_witness:
  "acks_and_timeouts small_run = 1 \<and> (2::nat) = acks_and_timeouts small_run + 1"
  using session_one_batch_in_flight [OF small_trace] by simp



section \<open>Closing\<close>

definition notifies :: "effect list \<Rightarrow> nat" where
  "notifies out = count_list out NotifyClose"

lemma notifies_append [simp]: "notifies (xs @ ys) = notifies xs + notifies ys"
  by (simp add: notifies_def)

lemma notifies_simps [simp]:
  "notifies [] = 0" "notifies (NotifyClose # out) = Suc (notifies out)"
  "e \<noteq> NotifyClose \<Longrightarrow> notifies (e # out) = notifies out"
  by (simp_all add: notifies_def)

lemma notifies_on_source [simp]: "e \<noteq> NotifyClose \<Longrightarrow> notifies (on_source s e) = 0"
  by (simp add: on_source_def)

lemma notifies_push_enqueue [simp]: "notifies (snd (push_enqueue opt s l)) = 0"
  by (simp add: push_enqueue_def Let_def)

definition closes :: "log_session \<Rightarrow> log_session \<times> effect list \<Rightarrow> bool" where
  "closes s r \<longleftrightarrow> (closed s \<longrightarrow> closed (fst r))
     \<and> notifies (snd r) = (if closed (fst r) \<and> \<not> closed s then 1 else 0)"

lemma closes_close: "closes s (session_close s)"
  by (simp add: closes_def session_close_def)

lemma closes_finish: "closed t = closed s \<Longrightarrow> closes s (maybeFinishEnding t)"
  by (simp add: closes_def maybeFinishEnding_def session_close_def)

lemma closes_finally: "closed t = closed s \<Longrightarrow> closes s (flush_finally t)"
  by (simp add: flush_finally_def closes_finish)

lemma closes_flush_loop: "closed t = closed s \<Longrightarrow> closes s (flush_loop opt t)"
  using closes_finally [of t s] by (auto simp: flush_loop_def Let_def closes_def)

lemma closes_seq:
  assumes "closes s r" and "closes (fst r) q"
  shows "closes s (fst q, snd r @ snd q)"
  using assms unfolding closes_def
  by (cases "closed s"; cases "closed (fst r)"; cases "closed (fst q)") simp_all

lemma closes_refl: "closed t = closed s \<Longrightarrow> notifies out = 0 \<Longrightarrow> closes s (t, out)"
  by (simp add: closes_def)

lemma closes_push: "closes s (session_push opt s l)"
proof (cases "closed s")
  case True
  then show ?thesis by (simp add: session_push_def closes_refl)
next
  case False
  let ?r = "push_enqueue opt s l"
  have "closes s ?r" by (simp add: closes_def)
  moreover have "closes (fst ?r) (flush opt (fst ?r))"
    by (simp add: flush_def closes_refl closes_flush_loop)
  ultimately have "closes s (fst (flush opt (fst ?r)), snd ?r @ snd (flush opt (fst ?r)))"
    by (rule closes_seq)
  with False show ?thesis by (simp add: session_push_def split_beta Let_def)
qed

lemma closes_timeout: "closes s (on_timeout s)"
proof -
  have "closes s (fst (flush_finally (fst (session_close s))),
      snd (session_close s) @ snd (flush_finally (fst (session_close s))))"
    by (rule closes_seq [OF closes_close]) (rule closes_finally, rule refl)
  then show ?thesis by (simp add: on_timeout_def split_beta Let_def)
qed

lemma closes_attach: "closes s (attachSource s)"
  by (simp add: attachSource_def closes_def)

lemma closes_end: "closes s (session_end s)"
  by (simp add: session_end_def closes_refl closes_finish)

lemma closes_step: "closes s (session_step opt s e)"
  by (cases e)
    (simp_all add: closes_push closes_attach closes_end closes_close closes_timeout on_ack_def
      closes_flush_loop)

text \<open>
  The contract a session's owner relies on (LogsService keeps a session in its map exactly
  until \<open>onClose\<close>): closing is permanent and announced exactly when it happens.
\<close>

locale notifying_session =
  fixes step :: "'s \<Rightarrow> 'e \<Rightarrow> 's \<times> 'f list"
    and is_closed :: "'s \<Rightarrow> bool"
    and announced :: "'f list \<Rightarrow> nat"
    and close_event :: 'e
  assumes closed_stable: "is_closed s \<Longrightarrow> is_closed (fst (step s e))"
    and announced_step:
      "announced (snd (step s e)) = (if is_closed (fst (step s e)) \<and> \<not> is_closed s then 1 else 0)"
    and announced_append: "announced (xs @ ys) = announced xs + announced ys"
    and announced_Nil: "announced [] = 0"
    and close_closes: "is_closed (fst (step s close_event))"
begin

lemma announced_run:
  "announced (snd (step_run step s es))
     = (if is_closed (fst (step_run step s es)) \<and> \<not> is_closed s then 1 else 0)
   \<and> (is_closed s \<longrightarrow> is_closed (fst (step_run step s es)))"
proof (induction es arbitrary: s)
  case Nil
  then show ?case by (simp add: announced_Nil)
next
  case (Cons e es)
  obtain s1 out1 where 1: "step s e = (s1, out1)" by fastforce
  obtain s2 out2 where 2: "step_run step s1 es = (s2, out2)" by fastforce
  have r: "step_run step s (e # es) = (s2, out1 @ out2)" by (simp add: 1 2)
  show ?case
    unfolding r using Cons.IH [of s1] announced_step [of s e] closed_stable [of s e]
    unfolding 1 2 fst_conv snd_conv announced_append
    by (cases "is_closed s"; cases "is_closed s1"; cases "is_closed s2") simp_all
qed

lemma announced_at_most_once: "announced (snd (step_run step s es)) \<le> 1"
  using announced_run [of s es] by simp

lemma closed_after_close: "is_closed (fst (step_run step s (es @ close_event # fs)))"
  using announced_run [of "fst (step (fst (step_run step s es)) close_event)" fs]
  by (simp add: step_run_append split_beta Let_def close_closes)

lemma step_announces_iff:
  "0 < announced (snd (step s e)) \<longleftrightarrow> is_closed (fst (step s e)) \<and> \<not> is_closed s"
  by (simp add: announced_step)

end

interpretation session: notifying_session "session_step opt" closed notifies Close for opt
proof unfold_locales
  fix s e
  from closes_step [of s opt e]
  show "closed s \<Longrightarrow> closed (fst (session_step opt s e))"
    and "notifies (snd (session_step opt s e)) =
      (if closed (fst (session_step opt s e)) \<and> \<not> closed s then 1 else 0)"
    by (simp_all add: closes_def)
  show "closed (fst (session_step opt s Close))" by (simp add: session_close_def)
qed simp_all

lemma session_run_step_run:
  "session_run opt s es = Some (t, out) \<Longrightarrow> step_run (session_step opt) s es = (t, out)"
  by (induction es arbitrary: s t out) (fastforce split: if_splits option.splits simp: split_beta Let_def)+

lemma session_trace_step_run:
  "session_trace opt es s out \<Longrightarrow> step_run (session_step opt) new_session es = (s, out)"
  by (induction rule: session_trace.induct) (simp_all add: step_run_append)

text \<open>
  \<open>onClose\<close> is called exactly once, at the moment the session closes, and never while it
  is open, whatever events follow (late acks, timeouts, a second close, a late source).
\<close>

theorem session_notifies_close_once:
  assumes "session_trace opt es s out"
  shows "notifies out = (if closed s then 1 else 0)"
  using session.announced_run [of opt new_session es] session_trace_step_run [OF assms]
  by (simp add: new_session_def)

theorem session_notifies_close_once_witness:
  "\<exists>s out. session_run small_options new_session (small_run @ [Close, Ack, Close]) = Some (s, out)
    \<and> closed s \<and> notifies out = 1"
proof -
  obtain s out where run: "session_run small_options new_session (small_run @ [Close, Ack, Close]) = Some (s, out)"
    and "closed s"
    by (simp add: small_run_def small_options_def new_session_def session_ops session_push_def
      push_enqueue_def event_enabled_def)
  with session_notifies_close_once [OF session_run_trace [OF run]] show ?thesis by simp
qed

section \<open>Draining after the end of the source\<close>

lemma drain_step:
  assumes "0 < batchSize opt" and "\<not> closed s" and "sending s" and "queue s \<noteq> []"
  shows "queue (fst (on_ack opt s)) = drop (batchSize opt) (queue s)"
    and "delivered (snd (on_ack opt s)) = take (batchSize opt) (queue s)"
    and "sending (fst (on_ack opt s))" and "\<not> closed (fst (on_ack opt s))"
    and "ending (fst (on_ack opt s)) = ending s"
  using assms by (simp_all add: on_ack_def flush_loop_def Let_def delivered_def)

lemma drain_last:
  assumes "\<not> closed s" and "ending s" and "queue s = []"
  shows "closed (fst (on_ack opt s))" and "delivered (snd (on_ack opt s)) = []"
  using assms
  by (simp_all add: on_ack_def flush_loop_def flush_finally_def maybeFinishEnding_def
      session_close_def delivered_def)

lemma drain:
  assumes "0 < batchSize opt" and "\<not> closed s" and "sending s" and "ending s"
    and "length (queue s) \<le> k * batchSize opt" and "k * batchSize opt < length (queue s) + batchSize opt"
  shows "\<exists>t out. session_run opt s (replicate (Suc k) Ack) = Some (t, out)
    \<and> closed t \<and> delivered out = queue s"
  using assms(2-)
proof (induction k arbitrary: s)
  case 0
  then show ?case using drain_last [of s opt]
    by (cases "on_ack opt s") (auto simp: event_enabled_def)
next
  case (Suc k)
  let ?t = "fst (on_ack opt s)"
  from Suc.prems have ne: "queue s \<noteq> []" by auto
  note st = drain_step [OF assms(1) Suc.prems(1,2) ne]
  have "length (queue ?t) \<le> k * batchSize opt"
    and "k * batchSize opt < length (queue ?t) + batchSize opt"
    using Suc.prems(4,5) by (auto simp: st)
  from Suc.IH [of ?t, OF st(4,3) _ this] Suc.prems(3) obtain u out where
    "session_run opt ?t (replicate (Suc k) Ack) = Some (u, out)" "closed u" "delivered out = queue ?t"
    by (auto simp: st)
  with Suc.prems(2) show ?case
    by (auto simp: event_enabled_def st split: option.splits)
qed

lemma ceil_div_bounds:
  assumes "0 < (b::nat)"
  shows "n \<le> (n + b - 1) div b * b" and "(n + b - 1) div b * b < n + b"
proof -
  have "(n + b - 1) div b * b + (n + b - 1) mod b = n + b - 1" by simp
  moreover have "(n + b - 1) mod b < b" using assms by simp
  ultimately show "n \<le> (n + b - 1) div b * b" "(n + b - 1) div b * b < n + b"
    using assms by linarith+
qed

text \<open>
  C19: nothing is lost at the end of the source.  Once the source has ended, a client that keeps
  acking receives the whole remaining queue, in order, and the session closes by itself after
  exactly \<open>ceil(queue / batchSize) + 1\<close> acks.
\<close>

theorem session_drains_after_end:
  assumes "session_trace opt es s out" and "options_ok opt" and "ending s" and "\<not> closed s"
  shows "\<exists>t out'. session_run opt s
      (replicate (Suc ((length (queue s) + batchSize opt - 1) div batchSize opt)) Ack) = Some (t, out')
    \<and> closed t \<and> delivered out' = queue s"
proof -
  from session_trace_inv [OF assms(1,2)] assms(3,4) have "sending s"
    by (simp add: session_inv_def)
  moreover from assms(2) have b: "0 < batchSize opt" by (simp add: options_ok_def)
  ultimately show ?thesis
    using drain [OF b assms(4) _ assms(3) ceil_div_bounds [OF b]] by blast
qed

lemma small_end_result:
  "\<exists>out. session_run small_options new_session (small_run @ [Push (line_at 5), End]) = Some
     (\<lparr>queue = [line_at 4, line_at 5], dropped = 0, paused = True, sending = True, closed = False,
       ending = True, has_source = False\<rparr>, out)"
  by (simp add: small_run_def small_options_def new_session_def session_ops session_push_def
      push_enqueue_def event_enabled_def)

theorem session_drains_after_end_witness:
  "\<exists>t out'. session_run small_options
     \<lparr>queue = [line_at 4, line_at 5], dropped = 0, paused = True, sending = True, closed = False,
       ending = True, has_source = False\<rparr> [Ack, Ack, Ack] = Some (t, out')
    \<and> closed t \<and> delivered out' = [line_at 4, line_at 5]"
proof -
  obtain out where "session_run small_options new_session (small_run @ [Push (line_at 5), End]) = Some
     (\<lparr>queue = [line_at 4, line_at 5], dropped = 0, paused = True, sending = True, closed = False,
       ending = True, has_source = False\<rparr>, out)"
    using small_end_result by blast
  from session_drains_after_end [OF session_run_trace [OF this] small_options_ok]
  show ?thesis by (simp add: small_options_def numeral_3_eq_3 numeral_2_eq_2)
qed

end
