(* ===== verification/Incremental.thy ===== *)
theory Incremental
  imports Prelude
begin

text \<open>
  The contract of a push-driven consumer.  Three parts of the program receive a byte or text
  stream in chunks of arbitrary size and must behave as if it had come in one piece: the
  Docker frame parser and the line splitter of apps/api/src/logs/docker-frames.ts, and the
  event-line buffer of apps/api/src/containers/containers.service.ts.  The locale states what
  they owe their callers; the theories of the components interpret it.
\<close>

section \<open>Chunked runs\<close>

fun run_chunks :: "('s \<Rightarrow> 'i list \<Rightarrow> 's \<times> 'o list) \<Rightarrow> 's \<Rightarrow> 'i list list \<Rightarrow> 's \<times> 'o list" where
  "run_chunks push s [] = (s, [])"
| "run_chunks push s (c # cs) =
     (let (s1, out1) = push s c; (s2, out2) = run_chunks push s1 cs in (s2, out1 @ out2))"

lemma run_chunks_append:
  "run_chunks push s (cs @ ds) =
     (let (s1, out1) = run_chunks push s cs; (s2, out2) = run_chunks push s1 ds
      in (s2, out1 @ out2))"
  by (induction cs arbitrary: s) (auto simp: Let_def split: prod.splits)

section \<open>The contract\<close>

text \<open>
  \<open>settled\<close> holds of the states the consumer can be in between two calls: nothing that
  could already be delivered is still held back.
\<close>

locale incremental =
  fixes push :: "'s \<Rightarrow> 'i list \<Rightarrow> 's \<times> 'o list"
    and settled :: "'s \<Rightarrow> bool"
  assumes settled_push: "settled s \<Longrightarrow> settled (fst (push s xs))"
    and push_Nil: "settled s \<Longrightarrow> push s [] = (s, [])"
    and push_append: "settled s \<Longrightarrow> push s (xs @ ys) =
          (fst (push (fst (push s xs)) ys), snd (push s xs) @ snd (push (fst (push s xs)) ys))"
begin

lemma run_chunks_concat: "settled s \<Longrightarrow> run_chunks push s cs = push s (concat cs)"
proof (induction cs arbitrary: s)
  case Nil
  then show ?case by (simp add: push_Nil)
next
  case (Cons c cs)
  from Cons.IH [OF settled_push [OF Cons.prems, of c]]
  show ?case by (simp add: push_append [OF Cons.prems] split_beta)
qed

lemma rechunk:
  assumes "settled s" and "concat cs = concat ds"
  shows "run_chunks push s cs = run_chunks push s ds"
  using assms by (simp add: run_chunks_concat)

lemma settled_run: "settled s \<Longrightarrow> settled (fst (run_chunks push s cs))"
  by (simp add: run_chunks_concat settled_push)

lemma output_grows:
  assumes "settled s"
  shows "prefix (snd (push s xs)) (snd (push s (xs @ ys)))"
  using push_append [OF assms, of xs ys] by simp

end

section \<open>Line buffers\<close>

text \<open>
  The common shape "append to the buffer, split at the separator, keep the last piece":
  \<open>g\<close> says what is delivered for a complete line (possibly nothing).
\<close>

definition line_push :: "'c \<Rightarrow> ('c list \<Rightarrow> 'o list) \<Rightarrow> 'c list \<Rightarrow> 'c list \<Rightarrow> 'c list \<times> 'o list" where
  "line_push nl g buf xs =
     (let pieces = js_split nl (buf @ xs) in (last pieces, concat (map g (butlast pieces))))"

definition line_settled :: "'c \<Rightarrow> 'c list \<Rightarrow> bool" where
  "line_settled nl buf = (nl \<notin> set buf)"

lemma line_settled_Nil [simp]: "line_settled nl []"
  by (simp add: line_settled_def)

interpretation line: incremental "line_push nl g" "line_settled nl" for nl g
proof unfold_locales
  fix s xs ys :: "'a list"
  assume s: "line_settled nl s"
  show "line_settled nl (fst (line_push nl g s xs))"
    by (simp add: line_push_def line_settled_def js_split_last_no_sep Let_def)
  show "line_push nl g s [] = (s, [])"
    using s by (simp add: line_push_def line_settled_def js_split_no_sep)
  show "line_push nl g s (xs @ ys) =
      (fst (line_push nl g (fst (line_push nl g s xs)) ys),
       snd (line_push nl g s xs) @ snd (line_push nl g (fst (line_push nl g s xs)) ys))"
    using js_split_append [of nl "s @ xs" ys]
    by (simp add: line_push_def Let_def butlast_append)
qed

text \<open>What a line buffer delivers from an empty start: every complete line, in order.\<close>

lemma line_push_complete:
  assumes "\<forall>l\<in>set ls. nl \<notin> set l" and "nl \<notin> set r"
  shows "line_push nl g [] (concat (map (\<lambda>l. l @ [nl]) ls) @ r) = (r, concat (map g ls))"
proof -
  have "js_split nl (concat (map (\<lambda>l. l @ [nl]) ls) @ r) = ls @ [r]"
    using assms by (induction ls) (auto simp: js_split_no_sep js_split_snoc_sep)
  then show ?thesis by (simp add: line_push_def)
qed

end
