(* ===== verification/DockerFrames.thy ===== *)
theory DockerFrames
  imports Incremental Shared "HOL-Library.Word"
begin

text \<open>
  apps/api/src/logs/docker-frames.ts: the incremental parser of Docker's multiplexed stream
  (\<open>DockerFrameParser\<close>), the line splitter per source (\<open>LogLineSplitter\<close>) and
  \<open>parseDockerLine\<close>.  \<open>Buffer.toString("utf8")\<close> is modelled as the WHATWG decoder with
  maximal-subpart replacement; \<open>Date.parse\<close> on arbitrary text is implementation-defined
  and enters as the argument \<open>is_date\<close>, the clock as the argument \<open>now\<close>.
\<close>

type_synonym byte = "8 word"

section \<open>DockerFrameParser\<close>

text \<open>\<open>buffer.readUInt32BE(4)\<close>: a number below \<open>2 ^ 32\<close>, never wrapped.\<close>

definition frame_size :: "byte list \<Rightarrow> nat" where
  "frame_size buf =
     unat (buf ! 4) * 2 ^ 24 + unat (buf ! 5) * 2 ^ 16 + unat (buf ! 6) * 2 ^ 8 + unat (buf ! 7)"

definition frame_source :: "byte list \<Rightarrow> log_source" where
  "frame_source buf = (if buf ! 0 = 2 then Stderr else Stdout)"

text \<open>The \<open>while\<close> loop of \<open>push\<close>: the bytes left in the buffer, and the payloads reported.\<close>

function frame_loop :: "byte list \<Rightarrow> byte list \<times> (log_source \<times> byte list) list" where
  "frame_loop buf =
     (if length buf < 8 then (buf, [])
      else if length buf < 8 + frame_size buf then (buf, [])
      else (let (rest, out) = frame_loop (drop (8 + frame_size buf) buf)
            in (rest, (frame_source buf, take (frame_size buf) (drop 8 buf)) # out)))"
  by pat_completeness auto
termination
  by (relation "measure length") auto

declare frame_loop.simps [simp del]

definition frame_push :: "byte list \<Rightarrow> byte list \<Rightarrow> byte list \<times> (log_source \<times> byte list) list" where
  "frame_push buf chunk = frame_loop (if length buf = 0 then chunk else buf @ chunk)"

text \<open>Between two calls the buffer holds no complete frame.\<close>

definition no_frame :: "byte list \<Rightarrow> bool" where
  "no_frame buf = (length buf < 8 \<or> length buf < 8 + frame_size buf)"

lemma no_frame_Nil [simp]: "no_frame []"
  by (simp add: no_frame_def)

lemma frame_push_eq: "frame_push buf chunk = frame_loop (buf @ chunk)"
  by (simp add: frame_push_def)

lemma frame_loop_stop: "no_frame buf \<Longrightarrow> frame_loop buf = (buf, [])"
  by (subst frame_loop.simps) (auto simp: no_frame_def)

lemma frame_loop_step:
  assumes "\<not> no_frame buf"
  shows "frame_loop buf =
    (fst (frame_loop (drop (8 + frame_size buf) buf)),
     (frame_source buf, take (frame_size buf) (drop 8 buf))
       # snd (frame_loop (drop (8 + frame_size buf) buf)))"
  using assms by (subst frame_loop.simps) (auto simp: no_frame_def split_beta Let_def)

lemma frame_header_append:
  assumes "8 \<le> length xs"
  shows "frame_size (xs @ ys) = frame_size xs" and "frame_source (xs @ ys) = frame_source xs"
  using assms by (auto simp: frame_size_def frame_source_def nth_append)

lemma no_frame_loop: "no_frame (fst (frame_loop buf))"
proof (induction buf rule: frame_loop.induct)
  case (1 buf)
  show ?case
  proof (cases "no_frame buf")
    case True
    then show ?thesis by (simp add: frame_loop_stop)
  next
    case False
    with 1 show ?thesis by (simp add: frame_loop_step no_frame_def)
  qed
qed

lemma frame_loop_append:
  "frame_loop (xs @ ys) =
     (fst (frame_loop (fst (frame_loop xs) @ ys)),
      snd (frame_loop xs) @ snd (frame_loop (fst (frame_loop xs) @ ys)))"
proof (induction xs rule: frame_loop.induct)
  case (1 xs)
  show ?case
  proof (cases "no_frame xs")
    case True
    then show ?thesis by (simp add: frame_loop_stop)
  next
    case False
    then have len: "8 \<le> length xs" "8 + frame_size xs \<le> length xs"
      by (auto simp: no_frame_def)
    then have "\<not> no_frame (xs @ ys)"
      by (simp add: no_frame_def frame_header_append)
    with 1 len False show ?thesis
      by (simp add: frame_loop_step [of "xs @ ys"] frame_loop_step [of xs] frame_header_append
          no_frame_def)
  qed
qed

interpretation frames: incremental frame_push no_frame
proof unfold_locales
  fix s xs ys :: "byte list"
  assume s: "no_frame s"
  show "no_frame (fst (frame_push s xs))"
    by (simp add: frame_push_eq no_frame_loop)
  show "frame_push s [] = (s, [])"
    using s by (simp add: frame_push_eq frame_loop_stop)
  show "frame_push s (xs @ ys) =
      (fst (frame_push (fst (frame_push s xs)) ys),
       snd (frame_push s xs) @ snd (frame_push (fst (frame_push s xs)) ys))"
    using frame_loop_append [of "s @ xs" ys] by (simp add: frame_push_eq)
qed

text \<open>The wire format of one frame, as the engine documents it (specification only).\<close>

definition encode_size :: "nat \<Rightarrow> byte list" where
  "encode_size n = [word_of_nat (n div 2 ^ 24), word_of_nat (n div 2 ^ 16),
                    word_of_nat (n div 2 ^ 8), word_of_nat n]"

definition encode_frame :: "log_source \<times> byte list \<Rightarrow> byte list" where
  "encode_frame f = [if fst f = Stderr then 2 else 1, 0, 0, 0] @ encode_size (length (snd f)) @ snd f"

lemma encode_size_value:
  assumes "n < 4294967296"
  shows "n div 16777216 * 16777216 + n div 65536 mod 256 * 65536 + n div 256 mod 256 * 256
    + n mod 256 = (n::nat)"
proof -
  define a b c where "a = n div 256" and "b = a div 256" and "c = b div 256"
  have "n div 65536 = b" "n div 16777216 = c"
    using div_mult2_eq [of n 256 256] div_mult2_eq [of n 65536 256]
    by (simp_all add: a_def b_def c_def)
  moreover have "n = a * 256 + n mod 256" "a = b * 256 + a mod 256" "b = c * 256 + b mod 256"
    by (simp_all add: a_def b_def c_def)
  ultimately show ?thesis by (simp only: a_def [symmetric])
qed

lemma frame_size_encode:
  assumes "length (snd f) < 2 ^ 32"
  shows "frame_size (encode_frame f @ rest) = length (snd f)"
proof -
  have n: "length (snd f) < 4294967296" using assms by simp
  then have "length (snd f) div 16777216 mod 256 = length (snd f) div 16777216"
    by simp
  then show ?thesis
    using encode_size_value [OF n]
    by (simp add: frame_size_def encode_frame_def encode_size_def unat_of_nat nth_append)
qed

lemma frame_loop_encode:
  assumes "length (snd f) < 2 ^ 32"
  shows "frame_loop (encode_frame f @ rest) = (fst (frame_loop rest), f # snd (frame_loop rest))"
proof -
  let ?b = "encode_frame f @ rest"
  have src: "frame_source ?b = fst f"
    by (cases "fst f") (simp_all add: frame_source_def encode_frame_def)
  have len: "length (encode_frame f) = 8 + length (snd f)"
    by (simp add: encode_frame_def encode_size_def)
  have pay: "take (length (snd f)) (drop 8 ?b) = snd f"
    by (simp add: encode_frame_def encode_size_def)
  have "\<not> no_frame ?b"
    by (simp add: no_frame_def frame_size_encode [OF assms] len)
  then show ?thesis
    using pay by (simp add: frame_loop_step frame_size_encode [OF assms] src len)
qed

lemma frame_loop_encodes:
  assumes "\<forall>f\<in>set fs. length (snd f) < 2 ^ 32"
  shows "frame_loop (concat (map encode_frame fs)) = ([], fs)"
  using assms by (induction fs) (simp_all add: frame_loop_encode frame_loop_stop)

text \<open>
  C16: frame parsing is a round trip, whatever the chunking.  Cut the concatenated wire frames
  into chunks anywhere, push them one by one into a fresh parser: exactly the frames come out,
  in order, and nothing stays in the buffer.
\<close>

theorem frame_parser_roundtrip:
  assumes "\<forall>f\<in>set fs. length (snd f) < 2 ^ 32"
    and "concat chunks = concat (map encode_frame fs)"
  shows "run_chunks frame_push [] chunks = ([], fs)"
  using assms by (simp add: frames.run_chunks_concat frame_push_eq frame_loop_encodes)

theorem frame_parser_roundtrip_witness:
  "run_chunks frame_push []
     [[2, 0, 0], [0, 0, 0, 0, 2, 104], [105, 1, 0, 0, 0, 0, 0, 0, 0]]
   = ([], [(Stderr, [104, 105]), (Stdout, [])])"
  by (rule frame_parser_roundtrip) (simp_all add: encode_frame_def encode_size_def)

end
