(* ===== verification/Utf8.thy ===== *)
theory Utf8
  imports Prelude Shared
begin

text \<open>
  \<open>Buffer.prototype.toString("utf8")\<close> of the Node library, which the sources apply to every
  chunk and payload they receive: the WHATWG decoder, which replaces each maximal ill-formed
  subpart by U+FFFD, producing UTF-16 code units.  The point of interest for the program is
  when decoding piecewise equals decoding the whole.
\<close>

type_synonym octets = "nat list"

definition cont_byte :: "nat \<Rightarrow> bool" where
  "cont_byte b = (0x80 \<le> b \<and> b \<le> 0xBF)"

definition REPLACEMENT :: nat where
  "REPLACEMENT = 0xFFFD"

text \<open>Code units of a scalar value: one below U+10000, a surrogate pair above.\<close>

definition code_units :: "nat \<Rightarrow> utext" where
  "code_units cp = (if cp < 0x10000 then [cp]
     else [0xD800 + (cp - 0x10000) div 0x400, 0xDC00 + (cp - 0x10000) mod 0x400])"

text \<open>Length announced by a lead byte (0: not a lead byte), and the range of the second byte.\<close>

definition lead_len :: "nat \<Rightarrow> nat" where
  "lead_len b = (if b < 0x80 then 1
     else if 0xC2 \<le> b \<and> b \<le> 0xDF then 2
     else if 0xE0 \<le> b \<and> b \<le> 0xEF then 3
     else if 0xF0 \<le> b \<and> b \<le> 0xF4 then 4
     else 0)"

definition second_ok :: "nat \<Rightarrow> nat \<Rightarrow> bool" where
  "second_ok b c =
     ((if b = 0xE0 then 0xA0 else if b = 0xF0 then 0x90 else 0x80) \<le> c \<and>
      c \<le> (if b = 0xED then 0x9F else if b = 0xF4 then 0x8F else 0xBF))"

fun utf8_decode :: "octets \<Rightarrow> utext" where
  "utf8_decode [] = []"
| "utf8_decode (b # bs) =
     (if lead_len b = 1 then b # utf8_decode bs
      else if lead_len b = 0 then REPLACEMENT # utf8_decode bs
      else case bs of
        [] \<Rightarrow> [REPLACEMENT]
      | c # cs \<Rightarrow>
          (if \<not> second_ok b c then REPLACEMENT # utf8_decode bs
           else if lead_len b = 2 then code_units ((b - 0xC0) * 0x40 + (c - 0x80)) @ utf8_decode cs
           else case cs of
             [] \<Rightarrow> [REPLACEMENT]
           | d # ds \<Rightarrow>
               (if \<not> cont_byte d then REPLACEMENT # utf8_decode cs
                else if lead_len b = 3
                  then code_units ((b - 0xE0) * 0x1000 + (c - 0x80) * 0x40 + (d - 0x80)) @ utf8_decode ds
                else case ds of
                  [] \<Rightarrow> [REPLACEMENT]
                | e # es \<Rightarrow>
                    (if \<not> cont_byte e then REPLACEMENT # utf8_decode ds
                     else code_units ((b - 0xF0) * 0x40000 + (c - 0x80) * 0x1000
                            + (d - 0x80) * 0x40 + (e - 0x80)) @ utf8_decode es))))"

text \<open>Byte strings made of whole well-formed sequences.\<close>

fun utf8_whole :: "octets \<Rightarrow> bool" where
  "utf8_whole [] = True"
| "utf8_whole (b # bs) =
     (if lead_len b = 1 then utf8_whole bs
      else if lead_len b = 0 then False
      else case bs of
        [] \<Rightarrow> False
      | c # cs \<Rightarrow>
          second_ok b c \<and>
          (if lead_len b = 2 then utf8_whole cs
           else case cs of
             [] \<Rightarrow> False
           | d # ds \<Rightarrow>
               cont_byte d \<and>
               (if lead_len b = 3 then utf8_whole ds
                else case ds of [] \<Rightarrow> False | e # es \<Rightarrow> cont_byte e \<and> utf8_whole es)))"

declare utf8_decode.simps(2) [simp del] utf8_whole.simps(2) [simp del]

lemma utf8_decode_append:
  "utf8_whole xs \<Longrightarrow> utf8_decode (xs @ ys) = utf8_decode xs @ utf8_decode ys"
proof (induction xs rule: utf8_whole.induct)
  case (2 b bs)
  then show ?case
    by (auto simp: utf8_decode.simps(2) [of b] utf8_whole.simps(2) [of b]
        split: if_splits list.splits)
qed simp

lemma utf8_decode_ascii: "\<forall>b\<in>set bs. b < 128 \<Longrightarrow> utf8_decode bs = bs"
  by (induction bs) (auto simp: utf8_decode.simps(2) lead_len_def)

lemma utf8_whole_ascii: "\<forall>b\<in>set bs. b < 128 \<Longrightarrow> utf8_whole bs"
  by (induction bs) (auto simp: utf8_whole.simps(2) lead_len_def)

lemma utf8_decode_concat:
  "\<forall>p\<in>set ps. utf8_whole p \<Longrightarrow> utf8_decode (concat ps) = concat (map utf8_decode ps)"
  by (induction ps) (auto simp: utf8_decode_append)

lemma utf8_decode_pair:
  "utf8_decode [0xC3, 0xB1] = [0xF1]" "utf8_decode [0xC3] = [REPLACEMENT]"
  "utf8_decode [0xB1] = [REPLACEMENT]"
  by (simp_all add: utf8_decode.simps(2) lead_len_def second_ok_def code_units_def)

end
