(* ===== verification/LogLines.thy ===== *)
theory LogLines
  imports DockerFrames Utf8
begin

text \<open>
  apps/api/src/logs/docker-frames.ts, second half: \<open>LogLineSplitter\<close> and
  \<open>parseDockerLine\<close>, and the pipeline bytes \<open>\<rightarrow>\<close> frames \<open>\<rightarrow>\<close> lines that
  \<open>openDockerStream\<close> of logs.service.ts builds from them.
\<close>

section \<open>parseDockerLine\<close>

fun js_index_of :: "'c \<Rightarrow> 'c list \<Rightarrow> nat option" where
  "js_index_of c [] = None"
| "js_index_of c (x # xs) = (if x = c then Some 0 else map_option Suc (js_index_of c xs))"

lemma js_index_of_append: "c \<notin> set xs \<Longrightarrow> js_index_of c (xs @ c # ys) = Some (length xs)"
  by (induction xs) auto

abbreviation SP :: nat where "SP \<equiv> 0x20"
abbreviation LF :: nat where "LF \<equiv> 0x0A"
abbreviation CR :: nat where "CR \<equiv> 0x0D"

definition parseDockerLine :: "(utext \<Rightarrow> bool) \<Rightarrow> utext \<Rightarrow> log_source \<Rightarrow> utext \<Rightarrow> log_line" where
  "parseDockerLine is_date now src raw =
     (let unstamped = \<lparr>line_ts = now, line_source = src, ltext = raw\<rparr>
      in case js_index_of SP raw of
           None \<Rightarrow> unstamped
         | Some idx \<Rightarrow>
             if idx > 0 \<and> is_date (take idx raw)
             then \<lparr>line_ts = take idx raw, line_source = src, ltext = drop (idx + 1) raw\<rparr>
             else unstamped)"

text \<open>A line stamped by the engine parses back to its stamp and its text, at any clock.\<close>

lemma parseDockerLine_stamped:
  assumes "SP \<notin> set stamp" and "stamp \<noteq> []" and "is_date stamp"
  shows "parseDockerLine is_date now src (stamp @ SP # t) = \<lparr>line_ts = stamp, line_source = src, ltext = t\<rparr>"
  using assms by (simp add: parseDockerLine_def js_index_of_append)

lemma parseDockerLine_source [simp]: "line_source (parseDockerLine is_date now src raw) = src"
  by (simp add: parseDockerLine_def Let_def split: option.splits)

section \<open>LogLineSplitter\<close>

text \<open>\<open>partial: Record<FrameSource, string>\<close>\<close>

type_synonym partials = "log_source \<Rightarrow> utext"

definition no_partials :: partials where
  "no_partials = (\<lambda>_. [])"

text \<open>A trailing \<open>\r\<close> is cut; a line that is then empty is not reported.\<close>

definition clean_line :: "utext \<Rightarrow> utext" where
  "clean_line raw = (if raw \<noteq> [] \<and> last raw = CR then butlast raw else raw)"

definition report_line :: "utext \<Rightarrow> utext list" where
  "report_line raw = (let clean = clean_line raw in if length clean > 0 then [clean] else [])"

text \<open>
  \<open>push(source, payload)\<close>: the new partial line of the source, and the cleaned lines handed
  to \<open>parseDockerLine\<close>, oldest first.
\<close>

definition splitter_push :: "partials \<Rightarrow> log_source \<Rightarrow> octets \<Rightarrow> partials \<times> utext list" where
  "splitter_push p src payload =
     (let lines = js_split LF (p src @ utf8_decode payload)
      in (p(src := last lines), concat (map report_line (butlast lines))))"

fun splitter_run :: "partials \<Rightarrow> (log_source \<times> octets) list \<Rightarrow> partials \<times> (log_source \<times> utext) list" where
  "splitter_run p [] = (p, [])"
| "splitter_run p ((src, payload) # rest) =
     (let (p1, ls) = splitter_push p src payload; (p2, out) = splitter_run p1 rest
      in (p2, map (Pair src) ls @ out))"

lemma splitter_push_line:
  "splitter_push p src payload =
     (p(src := fst (line_push LF report_line (p src) (utf8_decode payload))),
      snd (line_push LF report_line (p src) (utf8_decode payload)))"
  by (simp add: splitter_push_def line_push_def Let_def)

definition lines_of :: "log_source \<Rightarrow> (log_source \<times> 'a) list \<Rightarrow> 'a list" where
  "lines_of src out = map snd (filter (\<lambda>l. fst l = src) out)"

lemma lines_of_simps [simp]:
  "lines_of src [] = []"
  "lines_of src (x # xs) = (if fst x = src then snd x # lines_of src xs else lines_of src xs)"
  "lines_of src (xs @ ys) = lines_of src xs @ lines_of src ys"
  "lines_of src (map (Pair src') zs) = (if src = src' then zs else [])"
  by (auto simp: lines_of_def filter_map comp_def)

text \<open>
  The two sources never mix: each source's output and partial line are those of a line buffer
  fed with that source's payloads alone, decoded one by one.
\<close>

lemma splitter_run_source:
  "(fst (splitter_run p fs) src, lines_of src (snd (splitter_run p fs)))
   = run_chunks (line_push LF report_line) (p src) (map utf8_decode (lines_of src fs))"
proof (induction fs arbitrary: p)
  case (Cons f fs)
  obtain s pl where f: "f = (s, pl)" by fastforce
  let ?q = "fst (splitter_push p s pl)"
  have "(fst (splitter_run ?q fs) src, lines_of src (snd (splitter_run ?q fs)))
      = run_chunks (line_push LF report_line) (?q src) (map utf8_decode (lines_of src fs))"
    by (rule Cons.IH)
  then show ?case
    by (auto simp: f splitter_push_line split_beta Let_def prod_eq_iff)
qed simp

lemma splitter_run_whole:
  assumes "\<forall>pl\<in>set (lines_of src fs). utf8_whole pl"
  shows "(fst (splitter_run no_partials fs) src, lines_of src (snd (splitter_run no_partials fs)))
   = line_push LF report_line [] (utf8_decode (concat (lines_of src fs)))"
  using assms
  by (simp add: splitter_run_source no_partials_def line.run_chunks_concat utf8_decode_concat)

text \<open>
  Lines do not depend on how a source's bytes are spread over frames, nor on what the
  other source writes in between: as long as no frame boundary falls inside a UTF-8 sequence,
  a source that wrote the complete lines \<open>ls\<close> and an unfinished rest \<open>r\<close> yields exactly the
  cleaned non-empty lines of \<open>ls\<close> in order, and keeps \<open>r\<close> for the next frame.
\<close>

theorem splitter_lines_of_source:
  assumes "\<forall>pl\<in>set (lines_of src fs). utf8_whole pl"
    and "utf8_decode (concat (lines_of src fs)) = concat (map (\<lambda>l. l @ [LF]) ls) @ r"
    and "\<forall>l\<in>set ls. LF \<notin> set l" and "LF \<notin> set r"
  shows "lines_of src (snd (splitter_run no_partials fs)) = concat (map report_line ls)
    \<and> fst (splitter_run no_partials fs) src = r"
  using splitter_run_whole [OF assms(1)] line_push_complete [OF assms(3,4), of report_line]
  by (simp add: assms(2))

theorem splitter_lines_of_source_witness:
  "lines_of Stdout (snd (splitter_run no_partials
      [(Stdout, [104, 105]), (Stderr, [33, 10]), (Stdout, [13, 10, 10, 111])])) = [[104, 105]]
   \<and> fst (splitter_run no_partials
      [(Stdout, [104, 105]), (Stderr, [33, 10]), (Stdout, [13, 10, 10, 111])]) Stdout = [111]"
proof -
  let ?fs = "[(Stdout, [104, 105]), (Stderr, [33, 10]), (Stdout, [13, 10, 10, 111])]"
  have "lines_of Stdout (snd (splitter_run no_partials ?fs)) = concat (map report_line [[104, 105, 13], []])
    \<and> fst (splitter_run no_partials ?fs) Stdout = [111]"
    by (rule splitter_lines_of_source) (simp_all add: utf8_whole_ascii utf8_decode_ascii)
  then show ?thesis by (simp add: report_line_def clean_line_def)
qed

text \<open>
  The proviso on UTF-8 sequences is needed, although the source says a line may arrive
  split over several frames.  Each payload is decoded on its own, so the two bytes of one
  letter in two frames come out as two replacement characters, while the same bytes in one
  frame come out as the letter.
\<close>

theorem splitter_breaks_split_character:
  "snd (splitter_run no_partials [(Stdout, [0xC3, 0xB1, LF])]) = [(Stdout, [0xF1])]
   \<and> snd (splitter_run no_partials [(Stdout, [0xC3]), (Stdout, [0xB1, LF])])
     = [(Stdout, [REPLACEMENT, REPLACEMENT])]"
  by (simp add: splitter_push_def no_partials_def utf8_decode.simps(2) lead_len_def second_ok_def
      code_units_def report_line_def clean_line_def REPLACEMENT_def)

section \<open>The pipeline of one log stream\<close>

text \<open>
  What \<open>openDockerStream\<close> wires up: parser, splitter and line parser.  \<open>clk i\<close> is the clock
  reading for the i-th line a chunk completes (read only for unstamped lines).
\<close>

record stream_state =
  frame_buf :: "byte list"
  partial :: partials

definition stream_init :: stream_state where
  "stream_init = \<lparr>frame_buf = [], partial = no_partials\<rparr>"

definition payload_octets :: "(log_source \<times> byte list) list \<Rightarrow> (log_source \<times> octets) list" where
  "payload_octets frames = map (\<lambda>(src, payload). (src, map unat payload)) frames"

definition stream_push ::
  "(utext \<Rightarrow> bool) \<Rightarrow> stream_state \<Rightarrow> byte list \<times> (nat \<Rightarrow> utext) \<Rightarrow> stream_state \<times> log_line list" where
  "stream_push is_date st chunk_clk =
     (let (chunk, clk) = chunk_clk;
          (buf, frames) = frame_push (frame_buf st) chunk;
          (p, raws) = splitter_run (partial st) (payload_octets frames)
      in (\<lparr>frame_buf = buf, partial = p\<rparr>,
          map (\<lambda>(i, src, raw). parseDockerLine is_date (clk i) src raw) (enumerate 0 raws)))"

fun stream_run ::
  "(utext \<Rightarrow> bool) \<Rightarrow> stream_state \<Rightarrow> (byte list \<times> (nat \<Rightarrow> utext)) list \<Rightarrow> stream_state \<times> log_line list" where
  "stream_run is_date st [] = (st, [])"
| "stream_run is_date st (c # cs) =
     (let (st1, out1) = stream_push is_date st c; (st2, out2) = stream_run is_date st1 cs
      in (st2, out1 @ out2))"

lemma splitter_run_append:
  "splitter_run p (fs @ gs) =
     (fst (splitter_run (fst (splitter_run p fs)) gs),
      snd (splitter_run p fs) @ snd (splitter_run (fst (splitter_run p fs)) gs))"
proof (induction fs arbitrary: p)
  case (Cons f fs)
  then show ?case by (cases f) (simp add: split_beta Let_def)
qed simp

text \<open>\<open>parsed is_date raw l\<close>: \<open>l\<close> is \<open>raw\<close> parsed at some clock reading.\<close>

definition parsed :: "(utext \<Rightarrow> bool) \<Rightarrow> log_source \<times> utext \<Rightarrow> log_line \<Rightarrow> bool" where
  "parsed is_date raw l \<longleftrightarrow> (\<exists>now. l = parseDockerLine is_date now (fst raw) (snd raw))"

lemma stream_push_parsed:
  "list_all2 (parsed is_date)
     (snd (splitter_run (partial st) (payload_octets (snd (frame_push (frame_buf st) chunk)))))
     (snd (stream_push is_date st (chunk, clk)))"
  by (auto simp: stream_push_def split_beta list_all2_conv_all_nth parsed_def nth_enumerate_eq)

lemma stream_run_raw:
  assumes "no_frame (frame_buf st)"
  shows "list_all2 (parsed is_date)
     (snd (splitter_run (partial st)
        (payload_octets (snd (frame_push (frame_buf st) (concat (map fst cs)))))))
     (snd (stream_run is_date st cs))"
  using assms
proof (induction cs arbitrary: st)
  case Nil
  then show ?case by (simp add: frames.push_Nil payload_octets_def)
next
  case (Cons c cs)
  obtain chunk clk where c: "c = (chunk, clk)" by fastforce
  let ?st1 = "fst (stream_push is_date st c)"
  have buf: "frame_buf ?st1 = fst (frame_push (frame_buf st) chunk)"
    and par: "partial ?st1 = fst (splitter_run (partial st)
        (payload_octets (snd (frame_push (frame_buf st) chunk))))"
    by (simp_all add: c stream_push_def split_beta Let_def)
  have "no_frame (frame_buf ?st1)"
    by (simp add: buf frames.settled_push [OF Cons.prems])
  from Cons.IH [OF this] stream_push_parsed [of is_date st chunk clk]
  show ?case
    using frames.push_append [OF Cons.prems, of chunk "concat (map fst cs)"]
    by (auto simp: c split_beta Let_def buf par [unfolded c] payload_octets_def
        splitter_run_append buf [unfolded c] intro!: list_all2_appendI)
qed

text \<open>
  Specification of a well-behaved container: it writes records (source, RFC 3339 stamp, body)
  and the engine sends one frame per record, stamp, space, body and line feed.
\<close>

type_synonym log_record = "log_source \<times> utext \<times> octets"

definition record_frame :: "log_record \<Rightarrow> log_source \<times> byte list" where
  "record_frame r = (case r of (src, stamp, body) \<Rightarrow> (src, map word_of_nat (stamp @ SP # body @ [LF])))"

definition record_line :: "log_record \<Rightarrow> log_line" where
  "record_line r = (case r of (src, stamp, body) \<Rightarrow>
     \<lparr>line_ts = stamp, line_source = src, ltext = utf8_decode body\<rparr>)"

definition record_ok :: "(utext \<Rightarrow> bool) \<Rightarrow> log_record \<Rightarrow> bool" where
  "record_ok is_date r = (case r of (src, stamp, body) \<Rightarrow>
     stamp \<noteq> [] \<and> list_all (\<lambda>b. b < 128) stamp \<and> SP \<notin> set stamp \<and> LF \<notin> set stamp \<and> is_date stamp
     \<and> list_all (\<lambda>b. b < 256) body \<and> utf8_whole body
     \<and> LF \<notin> set (utf8_decode body) \<and> last (SP # utf8_decode body) \<noteq> CR
     \<and> length stamp + length body + 2 < 2 ^ 32)"

lemma unat_octets: "list_all (\<lambda>b. b < 256) bs \<Longrightarrow> map (\<lambda>b. unat (word_of_nat b :: byte)) bs = bs"
  by (induction bs) (auto simp: unat_of_nat)

lemma record_payload_decoded:
  assumes "record_ok is_date (src, stamp, body)"
  shows "utf8_decode (map unat (snd (record_frame (src, stamp, body))))
    = stamp @ SP # utf8_decode body @ [LF]"
proof -
  have ok: "list_all (\<lambda>b. b < 256) stamp" "list_all (\<lambda>b. b < 256) body" "utf8_whole body"
      "\<forall>b\<in>set stamp. b < 128"
    using assms by (auto simp: record_ok_def list_all_iff dest: bspec)
  have oct: "map unat (snd (record_frame (src, stamp, body))) = (stamp @ [SP]) @ body @ [LF]"
    using unat_octets [OF ok(1)] unat_octets [OF ok(2)] by (simp add: record_frame_def comp_def)
  have "utf8_whole (stamp @ [SP])" "utf8_decode (stamp @ [SP]) = stamp @ [SP]"
    using ok(4) by (auto intro!: utf8_whole_ascii utf8_decode_ascii)
  then show ?thesis
    unfolding oct using ok(3) by (simp only: utf8_decode_append) (simp add: utf8_decode_ascii)
qed

lemma splitter_push_record:
  assumes "record_ok is_date (src, stamp, body)"
  shows "splitter_push no_partials src (map unat (snd (record_frame (src, stamp, body))))
    = (no_partials, [stamp @ SP # utf8_decode body])"
proof -
  let ?l = "stamp @ SP # utf8_decode body"
  have "LF \<notin> set ?l" "last ?l \<noteq> CR"
    using assms by (auto simp: record_ok_def split: if_splits)
  then have "js_split LF (?l @ [LF]) = [?l, []]" "report_line ?l = [?l]"
    by (auto simp del: append_assoc simp: js_split_snoc_sep report_line_def clean_line_def)
  then show ?thesis
    using record_payload_decoded [OF assms]
    by (simp add: splitter_push_def no_partials_def fun_eq_iff)
qed

lemma splitter_run_records:
  assumes "\<forall>r\<in>set recs. record_ok is_date r"
  shows "splitter_run no_partials (payload_octets (map record_frame recs))
    = (no_partials, map (\<lambda>(src, stamp, body). (src, stamp @ SP # utf8_decode body)) recs)"
  using assms
proof (induction recs)
  case (Cons r recs)
  obtain src stamp body where r: "r = (src, stamp, body)" by (metis prod_cases3)
  have "fst (record_frame r) = src" by (simp add: r record_frame_def)
  with Cons splitter_push_record [of is_date src stamp body] show ?case
    by (simp add: r payload_octets_def split_beta)
qed (simp add: payload_octets_def)

lemma parsed_record:
  assumes "record_ok is_date (src, stamp, body)"
    and "parsed is_date (src, stamp @ SP # utf8_decode body) l"
  shows "l = record_line (src, stamp, body)"
  using assms by (auto simp: parsed_def record_ok_def record_line_def parseDockerLine_stamped)

text \<open>
  The whole pipeline is transparent.  Whatever chunks the socket delivers and whatever the
  clock says, the log lines produced for a well-behaved container are its records: same
  order, same sources, the engine's stamps, the decoded bodies; none lost, none invented.
\<close>

theorem log_stream_end_to_end:
  assumes "\<forall>r\<in>set recs. record_ok is_date r"
    and "concat (map fst cs) = concat (map encode_frame (map record_frame recs))"
  shows "snd (stream_run is_date stream_init cs) = map record_line recs"
proof -
  let ?raws = "map (\<lambda>(src, stamp, body). (src, stamp @ SP # utf8_decode body)) recs"
  have len: "\<forall>f\<in>set (map record_frame recs). length (snd f) < 2 ^ 32"
    using assms(1) by (auto simp: record_ok_def record_frame_def)
  have "list_all2 (parsed is_date) ?raws (snd (stream_run is_date stream_init cs))"
    using stream_run_raw [of stream_init is_date cs] splitter_run_records [OF assms(1)]
    by (simp add: stream_init_def frame_push_eq assms(2) frame_loop_encodes [OF len] del: map_map)
  then have len2: "length (snd (stream_run is_date stream_init cs)) = length recs"
    and nth: "\<And>i. i < length recs \<Longrightarrow>
      parsed is_date (?raws ! i) (snd (stream_run is_date stream_init cs) ! i)"
    by (auto simp: list_all2_conv_all_nth)
  show ?thesis
  proof (rule nth_equalityI)
    fix i assume "i < length (snd (stream_run is_date stream_init cs))"
    with len2 have i: "i < length recs" by simp
    obtain src stamp body where r: "recs ! i = (src, stamp, body)" by (metis prod_cases3)
    with assms(1) i have "record_ok is_date (src, stamp, body)" by (metis nth_mem)
    from parsed_record [OF this] nth [OF i] show "snd (stream_run is_date stream_init cs) ! i = map record_line recs ! i"
      using i by (simp add: r)
  qed (simp add: len2)
qed

text \<open>One record on stderr, in two chunks cut inside the header; the stamp is \<open>2024\<close>.\<close>

theorem log_stream_end_to_end_witness:
  "snd (stream_run (\<lambda>t. t = [50, 48, 50, 52]) stream_init
      [([2, 0, 0], \<lambda>_. []), ([0, 0, 0, 0, 8, 50, 48, 50, 52, 32, 111, 107, 10], \<lambda>_. [])])
   = [\<lparr>line_ts = [50, 48, 50, 52], line_source = Stderr, ltext = [111, 107]\<rparr>]"
proof -
  have "snd (stream_run (\<lambda>t. t = [50, 48, 50, 52]) stream_init
      [([2, 0, 0], \<lambda>_. []), ([0, 0, 0, 0, 8, 50, 48, 50, 52, 32, 111, 107, 10], \<lambda>_. [])])
   = map record_line [(Stderr, [50, 48, 50, 52], [111, 107])]"
    by (rule log_stream_end_to_end)
      (simp_all add: record_ok_def record_frame_def encode_frame_def encode_size_def
        utf8_whole_ascii utf8_decode_ascii)
  then show ?thesis by (simp add: record_line_def utf8_decode_ascii)
qed

end
