(* ===== verification/LogsService.thy ===== *)
theory LogsService
  imports Http LogFlow LogLines "HOL-Library.AList"
begin

text \<open>
  apps/api/src/logs/logs.service.ts: the registry of log sessions, one per (socket, container).
  A session object is an index into \<open>slots\<close> (the map \<open>sessions\<close> may lose the reference while
  the object lives on); \<open>subscribe\<close> is cut at its two awaits, the lookup of the container and
  the opening of the Docker stream, and its continuations wait in \<open>waiting\<close>.
\<close>

section \<open>Requests\<close>

definition MAX_SESSIONS_PER_SOCKET :: nat where "MAX_SESSIONS_PER_SOCKET = 3"
definition DEFAULT_TAIL :: int where "DEFAULT_TAIL = 100"
definition MAX_TAIL :: int where "MAX_TAIL = 1000"

lemmas log_limits = MAX_SESSIONS_PER_SOCKET_def DEFAULT_TAIL_def MAX_TAIL_def

definition CONTAINER_NAME :: "string \<Rightarrow> bool" where
  "CONTAINER_NAME s = matches_name 127 s"

definition request_tail :: "json option \<Rightarrow> int" where
  "request_tail tail = (case tail of
     Some (JNum q) \<Rightarrow> if is_integer q \<and> 0 \<le> q then min \<lfloor>q\<rfloor> MAX_TAIL else DEFAULT_TAIL
   | _ \<Rightarrow> DEFAULT_TAIL)"

definition parseRequest :: "json \<Rightarrow> (string \<times> int) option" where
  "parseRequest req =
     (if \<not> jis_object req then None
      else case jfield ''container'' req of
        Some (JStr c) \<Rightarrow> if CONTAINER_NAME c then Some (c, request_tail (jfield ''tail'' req)) else None
      | _ \<Rightarrow> None)"

lemma request_tail_range: "0 \<le> request_tail t \<and> request_tail t \<le> 1000"
  by (auto simp: request_tail_def log_limits split: option.splits json.splits)

lemma parseRequest_Some:
  assumes "parseRequest req = Some (c, t)"
  shows "CONTAINER_NAME c \<and> 0 \<le> t \<and> t \<le> 1000 \<and> jfield ''container'' req = Some (JStr c)"
  using assms request_tail_range
  by (auto simp: parseRequest_def split: if_splits option.splits json.splits)

section \<open>State\<close>

record session_slot =
  owner :: string \<comment> \<open>socket id\<close>
  cname :: string
  live :: log_session
  decoder :: stream_state

datatype waiting_sub = AwaitLookup string string int | AwaitStream nat

record logs_state =
  sessions :: "(string \<times> nat) list"
  slots :: "session_slot list"
  waiting :: "waiting_sub list"

definition logs_init :: logs_state where
  "logs_init = \<lparr>sessions = [], slots = [], waiting = []\<rparr>"

datatype logs_error = InvalidRequest | TooManyStreams | UnknownContainer | StreamFailed

datatype logs_ack = AckOk | AckError logs_error

datatype logs_effect =
  Reply string logs_ack
| Rejected string
| FindManaged string
| OpenLogs string int
| OnSession nat effect

section \<open>Helpers\<close>

definition session_key :: "string \<Rightarrow> string \<Rightarrow> string" where
  "session_key socket c = socket @ ''|'' @ c"

definition slot_key :: "session_slot \<Rightarrow> string" where
  "slot_key sl = session_key (owner sl) (cname sl)"

definition sessionCountFor :: "logs_state \<Rightarrow> string \<Rightarrow> nat" where
  "sessionCountFor st socket =
     length (filter (\<lambda>(k, i). starts_with k (socket @ ''|'')) (sessions st))"

text \<open>An operation of one session object; its \<open>onClose\<close> deletes the registry entry of its key.\<close>

definition on_slot :: "logs_state \<Rightarrow> nat \<Rightarrow> session_event \<Rightarrow> logs_state \<times> logs_effect list" where
  "on_slot st i e =
     (let sl = slots st ! i;
          (s, out) = session_step (DEFAULT_SESSION_OPTIONS (cname sl)) (live sl) e;
          st1 = st\<lparr>slots := (slots st)[i := sl\<lparr>live := s\<rparr>]\<rparr>;
          st2 = (if NotifyClose \<in> set out then st1\<lparr>sessions := AList.delete (slot_key sl) (sessions st1)\<rparr> else st1)
      in (st2, map (OnSession i) out))"

fun on_slots :: "logs_state \<Rightarrow> nat list \<Rightarrow> session_event \<Rightarrow> logs_state \<times> logs_effect list" where
  "on_slots st [] e = (st, [])"
| "on_slots st (i # is) e =
     (let (st1, out1) = on_slot st i e; (st2, out2) = on_slots st1 is e in (st2, out1 @ out2))"

fun push_lines :: "logs_state \<Rightarrow> nat \<Rightarrow> log_line list \<Rightarrow> logs_state \<times> logs_effect list" where
  "push_lines st i [] = (st, [])"
| "push_lines st i (l # ls) =
     (let (st1, out1) = on_slot st i (Push l); (st2, out2) = push_lines st1 i ls in (st2, out1 @ out2))"

section \<open>Operations\<close>

text \<open>\<open>subscribe\<close> up to \<open>await this.containers.findManagedByName\<close>.\<close>

definition subscribe :: "logs_state \<Rightarrow> string \<Rightarrow> json \<Rightarrow> logs_state \<times> logs_effect list" where
  "subscribe st socket req =
     (case parseRequest req of
        None \<Rightarrow> (st, [Reply socket (AckError InvalidRequest)])
      | Some (c, tail) \<Rightarrow>
          if map_of (sessions st) (session_key socket c) \<noteq> None then (st, [Reply socket AckOk])
          else if MAX_SESSIONS_PER_SOCKET \<le> sessionCountFor st socket
               then (st, [Reply socket (AckError TooManyStreams)])
          else (st\<lparr>waiting := waiting st @ [AwaitLookup socket c tail]\<rparr>, [FindManaged c]))"

datatype lookup_result = Managed | NotManaged | LookupThrows

text \<open>From there to the await of the Docker stream: the session is created and registered.\<close>

definition subscribe_looked_up ::
  "logs_state \<Rightarrow> string \<Rightarrow> string \<Rightarrow> int \<Rightarrow> lookup_result \<Rightarrow> logs_state \<times> logs_effect list" where
  "subscribe_looked_up st socket c tail res =
     (case res of
        LookupThrows \<Rightarrow> (st, [Rejected socket])
      | NotManaged \<Rightarrow> (st, [Reply socket (AckError UnknownContainer)])
      | Managed \<Rightarrow>
          (let i = length (slots st);
               sl = \<lparr>owner = socket, cname = c, live = new_session, decoder = stream_init\<rparr>
           in (\<lparr>sessions = AList.update (session_key socket c) i (sessions st),
                slots = slots st @ [sl], waiting = waiting st @ [AwaitStream i]\<rparr>,
               [OpenLogs c tail])))"

text \<open>The stream opened (\<open>attachSource\<close>) or failed to.\<close>

definition subscribe_opened :: "logs_state \<Rightarrow> nat \<Rightarrow> bool \<Rightarrow> logs_state \<times> logs_effect list" where
  "subscribe_opened st i opened =
     (let (st1, out) = on_slot st i (if opened then Attach else Close)
      in (st1, out @ [Reply (owner (slots st ! i)) (if opened then AckOk else AckError StreamFailed)]))"

definition unsubscribe :: "logs_state \<Rightarrow> string \<Rightarrow> json \<Rightarrow> logs_state \<times> logs_effect list" where
  "unsubscribe st socket req =
     (case (if jis_object req then jstring (jfield ''container'' req) else None) of
        None \<Rightarrow> (st, [Reply socket (AckError InvalidRequest)])
      | Some c \<Rightarrow>
          (case map_of (sessions st) (session_key socket c) of
             None \<Rightarrow> (st, [Reply socket AckOk])
           | Some i \<Rightarrow> (let (st1, out) = on_slot st i Close in (st1, out @ [Reply socket AckOk]))))"

definition destroyForSocket :: "logs_state \<Rightarrow> string \<Rightarrow> logs_state \<times> logs_effect list" where
  "destroyForSocket st socket =
     on_slots st (map snd (filter (\<lambda>(k, i). starts_with k (socket @ ''|'')) (sessions st))) Close"

definition onModuleDestroy :: "logs_state \<Rightarrow> logs_state \<times> logs_effect list" where
  "onModuleDestroy st = on_slots st (map snd (sessions st)) Close"

text \<open>A chunk of the Docker stream: the pipeline of \<open>openDockerStream\<close>, its lines pushed.\<close>

definition stream_data ::
  "(utext \<Rightarrow> bool) \<Rightarrow> logs_state \<Rightarrow> nat \<Rightarrow> byte list \<times> (nat \<Rightarrow> utext) \<Rightarrow> logs_state \<times> logs_effect list" where
  "stream_data is_date st i chunk =
     (let (d, ls) = stream_push is_date (decoder (slots st ! i)) chunk;
          st1 = st\<lparr>slots := (slots st)[i := (slots st ! i)\<lparr>decoder := d\<rparr>]\<rparr>
      in push_lines st1 i ls)"

section \<open>The machine\<close>

datatype logs_event =
  Subscribe string json
| LookedUp nat lookup_result
| Opened nat bool
| Data nat "byte list \<times> (nat \<Rightarrow> utext)"
| SourceError nat
| SourceEnd nat
| ClientAck nat
| ClientTimeout nat
| Unsubscribe string json
| Disconnect string
| Shutdown

definition take_waiting :: "logs_state \<Rightarrow> nat \<Rightarrow> logs_state" where
  "take_waiting st j = st\<lparr>waiting := remove_nth j (waiting st)\<rparr>"

fun logs_step :: "(utext \<Rightarrow> bool) \<Rightarrow> logs_state \<Rightarrow> logs_event \<Rightarrow> logs_state \<times> logs_effect list" where
  "logs_step d st (Subscribe s req) = subscribe st s req"
| "logs_step d st (LookedUp j res) =
     (case waiting st ! j of AwaitLookup s c t \<Rightarrow> subscribe_looked_up (take_waiting st j) s c t res
        | AwaitStream i \<Rightarrow> (st, []))"
| "logs_step d st (Opened j ok) =
     (case waiting st ! j of AwaitStream i \<Rightarrow> subscribe_opened (take_waiting st j) i ok
        | AwaitLookup s c t \<Rightarrow> (st, []))"
| "logs_step d st (Data i chunk) = stream_data d st i chunk"
| "logs_step d st (SourceError i) = on_slot st i Close"
| "logs_step d st (SourceEnd i) = on_slot st i End"
| "logs_step d st (ClientAck i) = on_slot st i Ack"
| "logs_step d st (ClientTimeout i) = on_slot st i Timeout"
| "logs_step d st (Unsubscribe s req) = unsubscribe st s req"
| "logs_step d st (Disconnect s) = destroyForSocket st s"
| "logs_step d st Shutdown = onModuleDestroy st"

text \<open>Which events the environment can produce: stream events only once the stream opened, acks
  and timeouts only for a batch in flight; socket ids are opaque tokens without a bar.\<close>

definition stream_open :: "logs_state \<Rightarrow> nat \<Rightarrow> bool" where
  "stream_open st i \<longleftrightarrow> i < length (slots st) \<and> AwaitStream i \<notin> set (waiting st)"

fun logs_enabled :: "logs_state \<Rightarrow> logs_event \<Rightarrow> bool" where
  "logs_enabled st (Subscribe s req) = (CHR ''|'' \<notin> set s)"
| "logs_enabled st (LookedUp j res) = (j < length (waiting st) \<and> (case waiting st ! j of AwaitLookup _ _ _ \<Rightarrow> True | _ \<Rightarrow> False))"
| "logs_enabled st (Opened j ok) = (j < length (waiting st) \<and> (case waiting st ! j of AwaitStream _ \<Rightarrow> True | _ \<Rightarrow> False))"
| "logs_enabled st (Data i chunk) = stream_open st i"
| "logs_enabled st (SourceError i) = stream_open st i"
| "logs_enabled st (SourceEnd i) = stream_open st i"
| "logs_enabled st (ClientAck i) = (stream_open st i \<and> sending (live (slots st ! i)))"
| "logs_enabled st (ClientTimeout i) = (stream_open st i \<and> sending (live (slots st ! i)))"
| "logs_enabled st (Unsubscribe s req) = (CHR ''|'' \<notin> set s)"
| "logs_enabled st (Disconnect s) = (CHR ''|'' \<notin> set s)"
| "logs_enabled st Shutdown = True"

inductive logs_run ::
  "(utext \<Rightarrow> bool) \<Rightarrow> logs_state \<Rightarrow> logs_event list \<Rightarrow> logs_state \<Rightarrow> logs_effect list \<Rightarrow> bool" for d where
  logs_done: "logs_run d st [] st []"
| logs_more: "\<lbrakk>logs_enabled st e; logs_step d st e = (st1, out1); logs_run d st1 es st' out2\<rbrakk>
    \<Longrightarrow> logs_run d st (e # es) st' (out1 @ out2)"

inductive_cases logs_run_NilE: "logs_run d st [] st' out"
inductive_cases logs_run_ConsE: "logs_run d st (e # es) st' out"

lemma logs_run_Nil [simp]: "logs_run d st [] st' out \<longleftrightarrow> st' = st \<and> out = []"
  by (auto elim: logs_run_NilE intro: logs_done)

lemma logs_run_Cons:
  "logs_run d st (e # es) st' out \<longleftrightarrow> logs_enabled st e
    \<and> (\<exists>o2. logs_run d (fst (logs_step d st e)) es st' o2 \<and> out = snd (logs_step d st e) @ o2)"
  by (auto elim!: logs_run_ConsE intro: logs_more simp: prod_eq_iff)

section \<open>One operation of a session object\<close>

lemma notifies_pos: "NotifyClose \<in> set out \<longleftrightarrow> 0 < notifies out"
  unfolding notifies_def by (metis count_list_0_iff gr0I less_irrefl)

lemma step_NotifyClose:
  "NotifyClose \<in> set (snd (session_step opt s e)) \<longleftrightarrow> closed (fst (session_step opt s e)) \<and> \<not> closed s"
  by (simp only: notifies_pos session.step_announces_iff)

text \<open>What an operation of slot \<open>i\<close> does to the registry: nothing, or the slot closes and its
  entry goes.\<close>

lemma on_slot_frame:
  assumes "i < length (slots st)" and "on_slot st i e = (st1, out)"
  shows "length (slots st1) = length (slots st)" "waiting st1 = waiting st"
    "owner (slots st1 ! j) = owner (slots st ! j)" "cname (slots st1 ! j) = cname (slots st ! j)"
    "j \<noteq> i \<Longrightarrow> slots st1 ! j = slots st ! j"
    "closed (live (slots st ! j)) \<Longrightarrow> closed (live (slots st1 ! j))"
    "sessions st1 = (if closed (live (slots st1 ! i)) \<and> \<not> closed (live (slots st ! i))
       then AList.delete (slot_key (slots st ! i)) (sessions st) else sessions st)"
    "set out \<subseteq> range (OnSession i)"
proof -
  let ?opt = "DEFAULT_SESSION_OPTIONS (cname (slots st ! i))"
  note cl = session.closed_stable [of "live (slots st ! i)" ?opt e]
  show "length (slots st1) = length (slots st)" "waiting st1 = waiting st"
    "owner (slots st1 ! j) = owner (slots st ! j)" "cname (slots st1 ! j) = cname (slots st ! j)"
    "j \<noteq> i \<Longrightarrow> slots st1 ! j = slots st ! j"
    "closed (live (slots st ! j)) \<Longrightarrow> closed (live (slots st1 ! j))"
    "set out \<subseteq> range (OnSession i)"
    using assms cl by (auto simp: on_slot_def split_beta Let_def nth_list_update split: if_splits)
  show "sessions st1 = (if closed (live (slots st1 ! i)) \<and> \<not> closed (live (slots st ! i))
       then AList.delete (slot_key (slots st ! i)) (sessions st) else sessions st)"
    using assms by (auto simp: on_slot_def split_beta Let_def step_NotifyClose split: if_splits)
qed

section \<open>The registry\<close>

text \<open>
  \<open>registry_ok\<close>: every entry is an open session under its own key, keys are unique; names are
  sane.  It holds along every run.  \<open>registry_full\<close>: every open session has its entry.
\<close>

definition slot_open :: "logs_state \<Rightarrow> nat \<Rightarrow> bool" where
  "slot_open st i \<longleftrightarrow> i < length (slots st) \<and> \<not> closed (live (slots st ! i))"

definition names_ok :: "logs_state \<Rightarrow> bool" where
  "names_ok st \<longleftrightarrow> (\<forall>sl\<in>set (slots st). CHR ''|'' \<notin> set (owner sl) \<and> CONTAINER_NAME (cname sl))
     \<and> (\<forall>s c t. AwaitLookup s c t \<in> set (waiting st) \<longrightarrow> CHR ''|'' \<notin> set s \<and> CONTAINER_NAME c \<and> 0 \<le> t \<and> t \<le> 1000)
     \<and> (\<forall>i. AwaitStream i \<in> set (waiting st) \<longrightarrow> i < length (slots st))"

definition registry_ok :: "logs_state \<Rightarrow> bool" where
  "registry_ok st \<longleftrightarrow> distinct (map fst (sessions st))
     \<and> (\<forall>(k, i)\<in>set (sessions st). slot_open st i \<and> k = slot_key (slots st ! i))"

definition registry_full :: "logs_state \<Rightarrow> bool" where
  "registry_full st \<longleftrightarrow> (\<forall>i. slot_open st i \<longrightarrow> (slot_key (slots st ! i), i) \<in> set (sessions st))"

lemmas registry_defs = registry_ok_def registry_full_def slot_open_def

lemma slot_key_on_slot:
  "i < length (slots st) \<Longrightarrow> on_slot st i e = (st1, out) \<Longrightarrow> slot_key (slots st1 ! j) = slot_key (slots st ! j)"
  by (simp add: slot_key_def on_slot_frame(3,4))

lemma slot_open_on_slot:
  assumes "i < length (slots st)" and "on_slot st i e = (st1, out)"
  shows "slot_open st1 j \<Longrightarrow> slot_open st j" and "j \<noteq> i \<Longrightarrow> slot_open st1 j \<longleftrightarrow> slot_open st j"
  using on_slot_frame(1) [OF assms] on_slot_frame(5,6) [OF assms, of j] by (auto simp: slot_open_def)

lemma sessions_on_slot:
  assumes "i < length (slots st)" and "on_slot st i e = (st1, out)"
  shows "sessions st1 = (if slot_open st i \<and> \<not> slot_open st1 i
    then AList.delete (slot_key (slots st ! i)) (sessions st) else sessions st)"
  using on_slot_frame(1,7) [OF assms] assms(1) by (auto simp: slot_open_def)

lemma delete_eq_filter: "AList.delete k xs = filter (\<lambda>(k', v). k' \<noteq> k) xs"
  by (auto simp: AList.delete_eq intro: filter_cong)

lemma on_slot_registry_ok:
  assumes "registry_ok st" and "i < length (slots st)" and "on_slot st i e = (st1, out)"
  shows "registry_ok st1"
proof -
  note s = sessions_on_slot [OF assms(2,3)]
  have sub: "set (sessions st1) \<subseteq> set (sessions st)" by (auto simp: s delete_eq_filter)
  have "distinct (map fst (sessions st1))"
    using assms(1) by (auto simp: s registry_ok_def intro: distinct_delete)
  moreover have "slot_open st1 j \<and> k = slot_key (slots st1 ! j)" if "(k, j) \<in> set (sessions st1)" for k j
  proof -
    from that sub assms(1) have old: "slot_open st j" "k = slot_key (slots st ! j)"
      by (auto simp: registry_ok_def)
    have "slot_open st1 j"
    proof (rule ccontr)
      assume n: "\<not> slot_open st1 j"
      with old(1) slot_open_on_slot(2) [OF assms(2,3)] have "j = i" by blast
      with n old that show False by (auto simp: s delete_eq_filter)
    qed
    with old(2) show ?thesis by (simp add: slot_key_on_slot [OF assms(2,3)])
  qed
  ultimately show ?thesis by (auto simp: registry_ok_def)
qed

lemma on_slot_registry_full:
  assumes "registry_ok st" and "registry_full st" and "i < length (slots st)" and "on_slot st i e = (st1, out)"
  shows "registry_full st1"
  unfolding registry_full_def
proof (intro allI impI)
  fix j assume j: "slot_open st1 j"
  note s = sessions_on_slot [OF assms(3,4)]
  from slot_open_on_slot(1) [OF assms(3,4) j] assms(2)
  have old: "(slot_key (slots st ! j), j) \<in> set (sessions st)" by (simp add: registry_full_def)
  have "slot_key (slots st ! j) \<noteq> slot_key (slots st ! i)" if c: "slot_open st i" "\<not> slot_open st1 i"
  proof
    assume eq: "slot_key (slots st ! j) = slot_key (slots st ! i)"
    from c(1) assms(2) have "(slot_key (slots st ! i), i) \<in> set (sessions st)" by (simp add: registry_full_def)
    with old eq assms(1) have "j = i" by (auto simp: registry_ok_def dest: eq_key_imp_eq_value)
    with j c(2) show False by simp
  qed
  with old show "(slot_key (slots st1 ! j), j) \<in> set (sessions st1)"
    by (auto simp: s delete_eq_filter slot_key_on_slot [OF assms(3,4)])
qed

text \<open>An entry of the registry is open, so closing it takes exactly its own entry out.\<close>

lemma on_slot_close:
  assumes "i < length (slots st)" and "on_slot st i Close = (st1, out)"
  shows "\<not> slot_open st1 i"
    "slot_open st i \<Longrightarrow> sessions st1 = AList.delete (slot_key (slots st ! i)) (sessions st)"
proof -
  show n: "\<not> slot_open st1 i"
    using assms session.close_closes
    by (auto simp: on_slot_def split_beta Let_def slot_open_def split: if_splits)
  show "sessions st1 = AList.delete (slot_key (slots st ! i)) (sessions st)" if "slot_open st i"
    using that n sessions_on_slot [OF assms] by simp
qed

lemma on_slots_invariant:
  assumes "P st" and "\<forall>i\<in>set is. i < length (slots st)"
    and "\<And>s i s1 out. P s \<Longrightarrow> i < length (slots s) \<Longrightarrow> on_slot s i e = (s1, out) \<Longrightarrow> P s1"
  shows "P (fst (on_slots st is e))"
  using assms(1,2)
proof (induction "is" arbitrary: st)
  case (Cons i "is")
  obtain s1 out where 1: "on_slot st i e = (s1, out)" by fastforce
  have "P s1" by (rule assms(3) [OF Cons.prems(1) _ 1]) (use Cons.prems(2) in simp)
  moreover have "length (slots s1) = length (slots st)"
    using Cons.prems(2) on_slot_frame(1) [OF _ 1] by simp
  ultimately show ?case using Cons.IH [of s1] Cons.prems(2) by (simp add: 1 split_beta Let_def)
qed simp

lemma push_lines_invariant:
  assumes "P st" and "i < length (slots st)"
    and "\<And>s l s1 out. P s \<Longrightarrow> i < length (slots s) \<Longrightarrow> on_slot s i (Push l) = (s1, out) \<Longrightarrow> P s1"
  shows "P (fst (push_lines st i ls))"
  using assms(1,2)
proof (induction ls arbitrary: st)
  case (Cons l ls)
  obtain s1 out where 1: "on_slot st i (Push l) = (s1, out)" by fastforce
  have "P s1" by (rule assms(3) [OF Cons.prems 1])
  then show ?case
    using Cons.IH [of s1] Cons.prems(2) on_slot_frame(1) [OF Cons.prems(2) 1]
    by (simp add: 1 split_beta Let_def)
qed simp

text \<open>
  An invariant that survives one operation of one session, the consumption of a chunk and the
  end of a wait survives every event except the two that create something.
\<close>

definition slot_stable :: "(logs_state \<Rightarrow> bool) \<Rightarrow> bool" where
  "slot_stable P \<longleftrightarrow>
     (\<forall>s i e. P s \<longrightarrow> i < length (slots s) \<longrightarrow> P (fst (on_slot s i e)))
   \<and> (\<forall>s i d. P s \<longrightarrow> i < length (slots s) \<longrightarrow> P (s\<lparr>slots := (slots s)[i := (slots s ! i)\<lparr>decoder := d\<rparr>]\<rparr>))
   \<and> (\<forall>s j. P s \<longrightarrow> P (take_waiting s j))"

lemma slot_stable_ops:
  assumes "slot_stable P" and "P st"
  shows "i < length (slots st) \<Longrightarrow> P (fst (on_slot st i e))"
    and "\<forall>i\<in>set is. i < length (slots st) \<Longrightarrow> P (fst (on_slots st is e))"
    and "P (take_waiting st j)"
    and "i < length (slots st) \<Longrightarrow> P (fst (stream_data d st i chunk))"
proof -
  have on: "\<And>s i e s1 out. P s \<Longrightarrow> i < length (slots s) \<Longrightarrow> on_slot s i e = (s1, out) \<Longrightarrow> P s1"
    using assms(1) unfolding slot_stable_def by (metis fst_conv)
  show "P (take_waiting st j)" using assms by (simp add: slot_stable_def)
  show "i < length (slots st) \<Longrightarrow> P (fst (on_slot st i e))" using assms by (simp add: slot_stable_def)
  show "\<forall>i\<in>set is. i < length (slots st) \<Longrightarrow> P (fst (on_slots st is e))"
    by (rule on_slots_invariant [where P = P]) (auto intro: on assms(2))
  assume i: "i < length (slots st)"
  let ?st = "st\<lparr>slots := (slots st)[i := (slots st ! i)\<lparr>decoder := fst (stream_push d (decoder (slots st ! i)) chunk)\<rparr>]\<rparr>"
  have "P ?st" using assms i by (simp add: slot_stable_def)
  then have "P (fst (push_lines ?st i ls))" for ls
    by (rule push_lines_invariant [where P = P]) (auto simp: i intro: on)
  then show "P (fst (stream_data d st i chunk))"
    by (simp add: stream_data_def split_beta Let_def)
qed

lemma registry_indices:
  assumes "registry_ok st"
  shows "\<forall>i\<in>set (map snd (sessions st)). i < length (slots st)"
    and "\<forall>i\<in>set (map snd (filter p (sessions st))). i < length (slots st)"
    and "map_of (sessions st) k = Some i \<Longrightarrow> i < length (slots st)"
  using assms by (auto simp: registry_defs dest!: map_of_SomeD)

lemma stable_step:
  assumes "slot_stable P" and "P st" and "registry_ok st" and "names_ok st" and "logs_enabled st e"
    and "\<And>s c t j. \<lbrakk>e = LookedUp j Managed; waiting st ! j = AwaitLookup s c t; j < length (waiting st)\<rbrakk>
      \<Longrightarrow> P (fst (subscribe_looked_up (take_waiting st j) s c t Managed))"
    and "\<And>s req. e = Subscribe s req \<Longrightarrow> P (fst (subscribe st s req))"
  shows "P (fst (logs_step d st e))"
proof (cases e)
  case (LookedUp j res)
  with assms(5) obtain s c t where w: "waiting st ! j = AwaitLookup s c t" "j < length (waiting st)"
    by (auto split: waiting_sub.splits)
  show ?thesis
  proof (cases "res = Managed")
    case True
    with assms(6) [OF _ w] show ?thesis by (simp add: LookedUp w)
  next
    case False
    then show ?thesis using slot_stable_ops(3) [OF assms(1,2)]
      by (cases res) (simp_all add: LookedUp w subscribe_looked_up_def)
  qed
next
  case (Opened j ok)
  with assms(5) obtain i where w: "waiting st ! j = AwaitStream i" "j < length (waiting st)"
    by (auto split: waiting_sub.splits)
  then have "AwaitStream i \<in> set (waiting st)" by (metis nth_mem)
  with assms(4) have i: "i < length (slots st)" by (simp add: names_ok_def)
  have "P (take_waiting st j)" by (rule slot_stable_ops(3) [OF assms(1,2)])
  from slot_stable_ops(1) [OF assms(1) this] i show ?thesis
    by (simp add: Opened w subscribe_opened_def split_beta Let_def take_waiting_def)
next
  case (Unsubscribe s req)
  then show ?thesis using slot_stable_ops(1) [OF assms(1,2)] assms(2) registry_indices(3) [OF assms(3)]
    by (auto simp: unsubscribe_def split_beta Let_def split: option.splits)
qed (use assms slot_stable_ops [OF assms(1,2)] registry_indices [OF assms(3)] in
    \<open>auto simp: destroyForSocket_def onModuleDestroy_def stream_open_def\<close>)

section \<open>The registry along runs\<close>

lemma names_ok_stable: "slot_stable names_ok"
proof -
  have on: "names_ok (fst (on_slot s i e))" if "names_ok s" "i < length (slots s)" for s i e
  proof -
    obtain s1 out where 1: "on_slot s i e = (s1, out)" by fastforce
    note f = on_slot_frame(1-4) [OF that(2) 1]
    from that(1) show ?thesis by (auto simp: names_ok_def 1 f all_set_conv_all_nth)
  qed
  have "names_ok (s\<lparr>slots := (slots s)[i := (slots s ! i)\<lparr>decoder := d\<rparr>]\<rparr>)"
    if "names_ok s" "i < length (slots s)" for s i d
    using that by (auto simp: names_ok_def all_set_conv_all_nth nth_list_update)
  moreover have "names_ok (take_waiting s j)" if "names_ok s" for s j
    using that remove_nth_subset [of j "waiting s"] by (auto simp: names_ok_def take_waiting_def)
  ultimately show ?thesis using on by (simp add: slot_stable_def)
qed

lemma decoder_nth:
  "xs[i := (xs ! i)\<lparr>decoder := d\<rparr>] ! j = (if j = i \<and> i < length xs then (xs ! j)\<lparr>decoder := d\<rparr> else xs ! j)"
  by (cases "i < length xs") (simp_all add: nth_list_update list_update_beyond)

lemma decoder_view:
  "slot_open (s\<lparr>slots := (slots s)[i := (slots s ! i)\<lparr>decoder := d\<rparr>]\<rparr>) j = slot_open s j"
  "slot_key ((slots s)[i := (slots s ! i)\<lparr>decoder := d\<rparr>] ! j) = slot_key (slots s ! j)"
  "owner ((slots s)[i := (slots s ! i)\<lparr>decoder := d\<rparr>] ! j) = owner (slots s ! j)"
  by (simp_all add: slot_open_def slot_key_def decoder_nth)

lemma take_view:
  "slot_open (take_waiting s k) j = slot_open s j" "sessions (take_waiting s k) = sessions s"
  "slots (take_waiting s k) = slots s" "waiting (take_waiting s k) = remove_nth k (waiting s)"
  by (simp_all add: slot_open_def take_waiting_def)

lemmas registry_view = decoder_view take_view

lemma registry_ok_stable: "slot_stable registry_ok"
  unfolding slot_stable_def
proof (intro conjI allI impI)
  fix s i e assume "registry_ok s" "i < length (slots s)"
  from on_slot_registry_ok [OF this prod.collapse [symmetric]] show "registry_ok (fst (on_slot s i e))" .
qed (simp_all add: registry_ok_def registry_view)

lemma subscribe_frame:
  "sessions (fst (subscribe st s req)) = sessions st" "slots (fst (subscribe st s req)) = slots st"
  by (simp_all add: subscribe_def split: option.splits prod.splits)

lemma subscribe_waiting:
  assumes "w \<in> set (waiting (fst (subscribe st s req)))" and "w \<notin> set (waiting st)"
  obtains c t where "w = AwaitLookup s c t" "parseRequest req = Some (c, t)"
    "map_of (sessions st) (session_key s c) = None" "sessionCountFor st s \<le> 2"
    "fst (subscribe st s req) = st\<lparr>waiting := waiting st @ [w]\<rparr>"
    "\<not> MAX_SESSIONS_PER_SOCKET \<le> sessionCountFor st s"
  using assms by (auto simp: subscribe_def log_limits split: option.splits prod.splits if_splits)

lemma looked_up_slots [simp]:
  "slots (fst (subscribe_looked_up st s c t Managed)) =
     slots st @ [\<lparr>owner = s, cname = c, live = new_session, decoder = stream_init\<rparr>]"
  "sessions (fst (subscribe_looked_up st s c t Managed)) =
     AList.update (session_key s c) (length (slots st)) (sessions st)"
  "waiting (fst (subscribe_looked_up st s c t Managed)) = waiting st @ [AwaitStream (length (slots st))]"
  by (simp_all add: subscribe_looked_up_def Let_def)

declare looked_up_slots(2) [simp del]

lemma update_entries: "(k', v') \<in> set (AList.update k v xs) \<Longrightarrow> (k', v') = (k, v) \<or> (k', v') \<in> set xs \<and> k' \<noteq> k"
  if "distinct (map fst xs)"
  using that by (induction xs) (force split: if_splits)+

lemma names_ok_step:
  assumes "names_ok st" and "registry_ok st" and "logs_enabled st e"
  shows "names_ok (fst (logs_step d st e))"
proof (rule stable_step [OF names_ok_stable assms(1,2,1,3)])
  fix s c t j assume w: "waiting st ! j = AwaitLookup s c t" "j < length (waiting st)"
  then have "AwaitLookup s c t \<in> set (waiting st)" by (metis nth_mem)
  with assms(1) remove_nth_subset [of j "waiting st"]
  show "names_ok (fst (subscribe_looked_up (take_waiting st j) s c t Managed))"
    by (fastforce simp: names_ok_def registry_view)
next
  fix s req assume "e = Subscribe s req"
  with assms(3) have bar: "CHR ''|'' \<notin> set s" by simp
  have "AwaitLookup s' c t \<in> set (waiting (fst (subscribe st s req))) \<Longrightarrow>
      CHR ''|'' \<notin> set s' \<and> CONTAINER_NAME c \<and> 0 \<le> t \<and> t \<le> 1000" for s' c t
  proof (cases "AwaitLookup s' c t \<in> set (waiting st)")
    case False
    assume "AwaitLookup s' c t \<in> set (waiting (fst (subscribe st s req)))"
    with False bar parseRequest_Some show ?thesis by (auto elim!: subscribe_waiting)
  qed (use assms(1) in \<open>auto simp: names_ok_def\<close>)
  moreover have "AwaitStream i \<in> set (waiting (fst (subscribe st s req))) \<Longrightarrow> i < length (slots st)" for i
    using assms(1) by (cases "AwaitStream i \<in> set (waiting st)") (auto simp: names_ok_def elim!: subscribe_waiting)
  ultimately show "names_ok (fst (subscribe st s req))"
    using assms(1) by (auto simp: names_ok_def subscribe_frame)
qed

lemma registry_ok_step:
  assumes "names_ok st" and "registry_ok st" and "logs_enabled st e"
  shows "registry_ok (fst (logs_step d st e))"
proof (rule stable_step [OF registry_ok_stable assms(2,2,1,3)])
  fix s c t j
  have d: "distinct (map fst (sessions st))" using assms(2) by (simp add: registry_ok_def)
  show "registry_ok (fst (subscribe_looked_up (take_waiting st j) s c t Managed))"
    using assms(2) distinct_update [OF d]
    by (auto simp: registry_ok_def registry_view slot_open_def nth_append slot_key_def new_session_def
        looked_up_slots(2) dest!: update_entries [OF d])
next
  fix s req show "registry_ok (fst (subscribe st s req))"
    using assms(2) by (simp add: registry_ok_def slot_open_def subscribe_frame)
qed

lemma registry_init: "names_ok logs_init" "registry_ok logs_init" "registry_full logs_init"
  by (simp_all add: logs_init_def names_ok_def registry_defs)

lemma registry_run:
  assumes "logs_run d st es st' out" and "names_ok st" and "registry_ok st"
  shows "names_ok st' \<and> registry_ok st'"
  using assms
proof (induction rule: logs_run.induct)
  case (logs_more st e st1 out1 es st' out2)
  with names_ok_step [of st e d] registry_ok_step [of st e d] show ?case by simp
qed simp

section \<open>At most three streams per socket\<close>

text \<open>
  \<open>orderly\<close>: a client does not send a subscription while an earlier one of its own waits for
  the container lookup.  The service does not enforce this (see the two theorems that follow).
\<close>

fun lookup_sockets :: "waiting_sub list \<Rightarrow> string list" where
  "lookup_sockets [] = []"
| "lookup_sockets (AwaitLookup s c t # ws) = s # lookup_sockets ws"
| "lookup_sockets (AwaitStream i # ws) = lookup_sockets ws"

fun orderly_event :: "logs_state \<Rightarrow> logs_event \<Rightarrow> bool" where
  "orderly_event st (Subscribe s req) = (s \<notin> set (lookup_sockets (waiting st)))"
| "orderly_event st e = True"

fun orderly :: "(utext \<Rightarrow> bool) \<Rightarrow> logs_state \<Rightarrow> logs_event list \<Rightarrow> bool" where
  "orderly d st [] = True"
| "orderly d st (e # es) = (orderly_event st e \<and> orderly d (fst (logs_step d st e)) es)"

definition open_streams :: "logs_state \<Rightarrow> string \<Rightarrow> nat set" where
  "open_streams st s = {i. slot_open st i \<and> owner (slots st ! i) = s}"

definition reserved :: "logs_state \<Rightarrow> bool" where
  "reserved st \<longleftrightarrow> registry_full st \<and> distinct (lookup_sockets (waiting st))
     \<and> (\<forall>s c t. AwaitLookup s c t \<in> set (waiting st) \<longrightarrow>
          map_of (sessions st) (session_key s c) = None \<and> sessionCountFor st s \<le> 2)
     \<and> (\<forall>s. CHR ''|'' \<notin> set s \<longrightarrow> sessionCountFor st s \<le> 3)"

lemma lookup_sockets_append [simp]:
  "lookup_sockets (xs @ ys) = lookup_sockets xs @ lookup_sockets ys"
  by (induction xs rule: lookup_sockets.induct) auto

lemma lookup_sockets_mem: "s \<in> set (lookup_sockets ws) \<longleftrightarrow> (\<exists>c t. AwaitLookup s c t \<in> set ws)"
  by (induction ws rule: lookup_sockets.induct) auto

lemma lookup_sockets_remove:
  assumes "distinct (lookup_sockets ws)"
  shows "distinct (lookup_sockets (remove_nth j ws))"
    and "j < length ws \<Longrightarrow> ws ! j = AwaitLookup s c t \<Longrightarrow> s \<notin> set (lookup_sockets (remove_nth j ws))"
proof -
  show "distinct (lookup_sockets (remove_nth j ws))"
  proof (cases "j < length ws")
    case True
    from id_take_nth_drop [OF this] assms
    have "distinct (lookup_sockets (take j ws @ [ws ! j] @ drop (Suc j) ws))" by simp
    then show ?thesis by (cases "ws ! j") (auto simp: remove_nth.simps)
  qed (use assms in \<open>simp add: remove_nth.simps\<close>)
  assume j: "j < length ws" and w: "ws ! j = AwaitLookup s c t"
  from id_take_nth_drop [OF j] assms
  have "distinct (lookup_sockets (take j ws @ [AwaitLookup s c t] @ drop (Suc j) ws))" by (simp add: w)
  then show "s \<notin> set (lookup_sockets (remove_nth j ws))" by (auto simp: remove_nth.simps)
qed

lemma session_key_prefix:
  assumes "CHR ''|'' \<notin> set s" and "CHR ''|'' \<notin> set o'"
  shows "starts_with (session_key o' c) (s @ ''|'') \<longleftrightarrow> o' = s"
proof
  assume "starts_with (session_key o' c) (s @ ''|'')"
  then obtain r where "o' @ ''|'' @ c = s @ ''|'' @ r" by (auto simp: starts_with_iff session_key_def)
  then have "takeWhile (\<lambda>x. x \<noteq> CHR ''|'') (o' @ ''|'' @ c) = takeWhile (\<lambda>x. x \<noteq> CHR ''|'') (s @ ''|'' @ r)"
    by simp
  moreover have "takeWhile (\<lambda>x. x \<noteq> CHR ''|'') (o' @ ''|'' @ c) = o'"
    using assms(2) by (subst takeWhile_append2) auto
  moreover have "takeWhile (\<lambda>x. x \<noteq> CHR ''|'') (s @ ''|'' @ r) = s"
    using assms(1) by (subst takeWhile_append2) auto
  ultimately show "o' = s" by simp
next
  assume "o' = s"
  then show "starts_with (session_key o' c) (s @ ''|'')"
    using starts_with_append [of "s @ ''|''" c] by (simp add: session_key_def)
qed

lemma count_filter_le:
  "sessions st1 = filter p (sessions st) \<Longrightarrow> sessionCountFor st1 s \<le> sessionCountFor st s"
proof -
  assume e: "sessions st1 = filter p (sessions st)"
  have "length (filter q (filter p xs)) \<le> length (filter q xs)" for q and xs :: "(string \<times> nat) list"
    by (induction xs) auto
  then show ?thesis by (simp only: sessionCountFor_def e)
qed

lemma reserved_shrink:
  assumes "reserved st" and "registry_full st1" and "sessions st1 = filter p (sessions st)" and "waiting st1 = waiting st"
  shows "reserved st1"
proof -
  have none: "map_of (filter p xs) k = None" if "map_of xs k = None" for k and xs :: "(string \<times> nat) list"
    using that by (auto simp: map_of_eq_None_iff)
  note c = count_filter_le [OF assms(3)]
  show ?thesis
    using assms(1,2) none c order_trans [OF c] unfolding reserved_def assms(3,4) by blast
qed

text \<open>The registry's count is the number of open streams.\<close>

lemma open_streams_count:
  assumes "names_ok st" and "registry_full st" and "CHR ''|'' \<notin> set s"
  shows "card (open_streams st s) \<le> sessionCountFor st s"
proof -
  let ?es = "filter (\<lambda>(k, i). starts_with k (s @ ''|'')) (sessions st)"
  have "open_streams st s \<subseteq> snd ` set ?es"
  proof
    fix i assume i: "i \<in> open_streams st s"
    then have m: "(slot_key (slots st ! i), i) \<in> set (sessions st)"
      using assms(2) by (simp add: open_streams_def registry_full_def)
    have "starts_with (slot_key (slots st ! i)) (s @ ''|'')"
      using i assms(3) by (simp add: slot_key_def open_streams_def session_key_prefix)
    with m show "i \<in> snd ` set ?es" by force
  qed
  then have "card (open_streams st s) \<le> card (snd ` set ?es)" by (rule card_mono [rotated]) simp
  also have "\<dots> \<le> card (set ?es)" by (rule card_image_le) simp
  also have "\<dots> \<le> length ?es" by (rule card_length)
  finally show ?thesis by (simp add: sessionCountFor_def)
qed

definition guarded :: "logs_state \<Rightarrow> bool" where
  "guarded st \<longleftrightarrow> registry_ok st \<and> reserved st"

lemma registry_full_view:
  "registry_full (s\<lparr>slots := (slots s)[i := (slots s ! i)\<lparr>decoder := d\<rparr>]\<rparr>) = registry_full s"
  "registry_full (take_waiting s j) = registry_full s"
  by (simp_all add: registry_full_def registry_view)

lemma sessionCountFor_cong: "sessions st1 = sessions st \<Longrightarrow> sessionCountFor st1 s = sessionCountFor st s"
  by (simp add: sessionCountFor_def)

lemma reserved_take:
  assumes "reserved st"
  shows "reserved (take_waiting st j)"
proof -
  have c: "sessionCountFor (take_waiting st j) s = sessionCountFor st s" for s
    by (rule sessionCountFor_cong) (simp add: registry_view)
  then show ?thesis
    using assms remove_nth_subset [of j "waiting st"] lookup_sockets_remove(1) [of "waiting st" j]
    unfolding reserved_def registry_full_view registry_view c by blast
qed

lemma reservedD:
  assumes "reserved st" and "AwaitLookup s c t \<in> set (waiting st)"
  shows "map_of (sessions st) (session_key s c) = None" "sessionCountFor st s \<le> 2"
  using assms unfolding reserved_def by blast+

lemma guarded_names:
  assumes "guarded st" and "names_ok st" and "AwaitLookup s c t \<in> set (waiting st)"
  shows "map_of (sessions st) (session_key s c) = None \<and> sessionCountFor st s \<le> 2 \<and> CHR ''|'' \<notin> set s"
  using assms reservedD [of st s c t] unfolding guarded_def names_ok_def by blast

lemma guarded_stable: "slot_stable guarded"
  unfolding slot_stable_def
proof (intro conjI allI impI)
  fix s i e assume g: "guarded s" and i: "i < length (slots s)"
  obtain s1 out where 1: "on_slot s i e = (s1, out)" by fastforce
  have "sessions s1 = filter (\<lambda>(k, v). slot_open s i \<and> \<not> slot_open s1 i \<longrightarrow> k \<noteq> slot_key (slots s ! i)) (sessions s)"
    by (auto simp: sessions_on_slot [OF i 1] delete_eq_filter filter_id_conv)
  moreover have "registry_full s1"
    using g on_slot_registry_full [OF _ _ i 1] by (simp add: guarded_def reserved_def)
  ultimately have "reserved s1"
    using g reserved_shrink on_slot_frame(2) [OF i 1] by (auto simp: guarded_def)
  then show "guarded (fst (on_slot s i e))"
    using g on_slot_registry_ok [OF _ i 1] by (simp add: guarded_def 1)
next
  fix s i d assume "guarded s"
  then show "guarded (s\<lparr>slots := (slots s)[i := (slots s ! i)\<lparr>decoder := d\<rparr>]\<rparr>)"
    by (simp add: guarded_def registry_ok_def reserved_def registry_full_view decoder_view sessionCountFor_def)
next
  fix s j assume "guarded s"
  then show "guarded (take_waiting s j)"
    by (simp add: guarded_def reserved_take registry_ok_def registry_view)
qed

lemma guarded_subscribe:
  assumes "guarded st" and "s \<notin> set (lookup_sockets (waiting st))"
  shows "guarded (fst (subscribe st s req))"
proof (cases "waiting (fst (subscribe st s req)) = waiting st")
  case True
  then have "fst (subscribe st s req) = st" using subscribe_frame [of st s req] by simp
  with assms(1) show ?thesis by simp
next
  case False
  then obtain c t where w: "fst (subscribe st s req) = st\<lparr>waiting := waiting st @ [AwaitLookup s c t]\<rparr>"
    and none: "map_of (sessions st) (session_key s c) = None" and n: "sessionCountFor st s \<le> 2"
    by (auto simp: subscribe_def log_limits split: option.splits prod.splits if_splits)
  have "sessionCountFor (st\<lparr>waiting := ws\<rparr>) x = sessionCountFor st x" for ws x
    by (rule sessionCountFor_cong) simp
  with assms none n show ?thesis
    unfolding w by (auto simp: guarded_def reserved_def registry_defs)
qed

lemma update_new: "map_of xs k = None \<Longrightarrow> AList.update k v xs = xs @ [(k, v)]"
  by (induction xs) (auto split: if_splits)

lemma guarded_looked_up:
  assumes "guarded st" and "names_ok st" and "waiting st ! j = AwaitLookup s c t" and "j < length (waiting st)"
    and "registry_ok (fst (subscribe_looked_up (take_waiting st j) s c t Managed))"
  shows "guarded (fst (subscribe_looked_up (take_waiting st j) s c t Managed))"
proof -
  let ?st = "take_waiting st j"
  let ?new = "fst (subscribe_looked_up ?st s c t Managed)"
  have mem: "AwaitLookup s c t \<in> set (waiting st)" using assms(3,4) by (metis nth_mem)
  with assms(1,2) have none: "map_of (sessions st) (session_key s c) = None" and n: "sessionCountFor st s \<le> 2"
    and bar: "CHR ''|'' \<notin> set s" using guarded_names by blast+
  have ses: "sessions ?new = sessions st @ [(session_key s c, length (slots st))]"
    by (simp add: registry_view looked_up_slots(2) update_new [OF none])
  have cnt: "sessionCountFor ?new x = sessionCountFor st x + (if x = s then 1 else 0)" if "CHR ''|'' \<notin> set x" for x
    using session_key_prefix [OF that bar] unfolding sessionCountFor_def ses by auto
  have full: "registry_full ?new"
    using assms(1) by (auto simp: guarded_def reserved_def registry_full_def slot_open_def ses registry_view
        nth_append slot_key_def less_Suc_eq)
  have s_out: "s \<notin> set (lookup_sockets (waiting ?st))"
    using lookup_sockets_remove(2) [OF _ assms(4,3)] assms(1) by (simp add: guarded_def reserved_def registry_view)
  from assms(1) have r: "reserved ?st" by (simp add: guarded_def reserved_take)
  have "map_of (sessions ?new) (session_key x c') = None \<and> sessionCountFor ?new x \<le> 2"
    if w: "AwaitLookup x c' t' \<in> set (waiting ?new)" for x c' t'
  proof -
    from w have w': "AwaitLookup x c' t' \<in> set (waiting ?st)" by simp
    then have "AwaitLookup x c' t' \<in> set (waiting st)"
      using remove_nth_subset [of j "waiting st"] by (auto simp: registry_view)
    with assms(1,2) have old: "map_of (sessions st) (session_key x c') = None" "sessionCountFor st x \<le> 2"
      "CHR ''|'' \<notin> set x" using guarded_names by blast+
    from w' s_out have xs: "x \<noteq> s" by (auto simp: lookup_sockets_mem)
    then have "session_key x c' \<noteq> session_key s c"
      using session_key_prefix [OF bar old(3)] session_key_prefix [OF bar bar] by metis
    with old xs cnt show ?thesis by (simp add: ses map_add_def)
  qed
  moreover have "sessionCountFor ?new x \<le> 3" if "CHR ''|'' \<notin> set x" for x
    using that cnt [OF that] n assms(1) by (auto simp: guarded_def reserved_def)
  moreover have "distinct (lookup_sockets (waiting ?new))" using r by (simp add: reserved_def)
  ultimately have "reserved ?new" using full unfolding reserved_def by blast
  with assms(5) show ?thesis by (simp add: guarded_def)
qed

lemma guarded_step:
  assumes "guarded st" and "names_ok st" and "logs_enabled st e" and "orderly_event st e"
  shows "guarded (fst (logs_step d st e))"
proof -
  from assms(1) have ok: "registry_ok st" by (simp add: guarded_def)
  show ?thesis
  proof (rule stable_step [OF guarded_stable assms(1) ok assms(2,3)])
    fix s c t j assume e: "e = LookedUp j Managed" and w: "waiting st ! j = AwaitLookup s c t" "j < length (waiting st)"
    from registry_ok_step [OF assms(2) ok assms(3), of d]
    have "registry_ok (fst (subscribe_looked_up (take_waiting st j) s c t Managed))" by (simp add: e w)
    with guarded_looked_up [OF assms(1,2) w]
    show "guarded (fst (subscribe_looked_up (take_waiting st j) s c t Managed))" by simp
  next
    fix s req assume "e = Subscribe s req"
    with assms(4) guarded_subscribe [OF assms(1)] show "guarded (fst (subscribe st s req))" by simp
  qed
qed

lemma guarded_run:
  assumes "logs_run d st es st' out" and "orderly d st es" and "names_ok st" and "guarded st"
  shows "names_ok st' \<and> guarded st'"
  using assms
proof (induction rule: logs_run.induct)
  case (logs_more st e st1 out1 es st' out2)
  then have "registry_ok st" by (simp add: guarded_def)
  with logs_more names_ok_step [of st e d] guarded_step [of st e d] show ?case by simp
qed simp

lemma guarded_init: "guarded logs_init"
  using registry_init by (simp add: guarded_def reserved_def logs_init_def sessionCountFor_def)

text \<open>
  C21: a socket never has more than three log streams.  In every state that clients reach
  which wait for the answer of one subscription before they send the next, at most three
  sessions of a socket are open, and every open session is in the registry.
\<close>

theorem streams_per_socket_bounded:
  assumes "logs_run d logs_init es st out" and "orderly d logs_init es" and "CHR ''|'' \<notin> set s"
  shows "card (open_streams st s) \<le> 3 \<and> registry_full st"
proof -
  from guarded_run [OF assms(1,2) registry_init(1) guarded_init] have n: "names_ok st" and g: "guarded st" by simp_all
  then have f: "registry_full st" and "sessionCountFor st s \<le> 3"
    using assms(3) by (auto simp: guarded_def reserved_def)
  with open_streams_count [OF n f assms(3)] show ?thesis by simp
qed

section \<open>Disconnection\<close>

lemma on_slots_close:
  assumes "\<forall>i\<in>set is. i < length (slots st)"
  shows "j \<in> set is \<Longrightarrow> \<not> slot_open (fst (on_slots st is Close)) j"
    and "slot_open (fst (on_slots st is Close)) j \<Longrightarrow> slot_open st j"
    and "j \<notin> set is \<Longrightarrow> slot_open (fst (on_slots st is Close)) j = slot_open st j"
    and "owner (slots (fst (on_slots st is Close)) ! k) = owner (slots st ! k)"
  using assms
proof (induction "is" arbitrary: st)
  case (Cons i "is")
  {
    case 1
    obtain s1 out where o: "on_slot st i Close = (s1, out)" by fastforce
    have l: "length (slots s1) = length (slots st)" using 1 on_slot_frame(1) [OF _ o] by simp
    with 1 Cons.IH(1,2) [of s1] on_slot_close(1) [OF _ o] show ?case by (auto simp: o split_beta Let_def)
  next
    case 2
    obtain s1 out where o: "on_slot st i Close = (s1, out)" by fastforce
    have l: "length (slots s1) = length (slots st)" using 2 on_slot_frame(1) [OF _ o] by simp
    with 2 Cons.IH(2) [of s1] slot_open_on_slot(1) [OF _ o, of j] show ?case by (auto simp: o split_beta Let_def)
  next
    case 3
    obtain s1 out where o: "on_slot st i Close = (s1, out)" by fastforce
    have l: "length (slots s1) = length (slots st)" using 3 on_slot_frame(1) [OF _ o] by simp
    with 3 Cons.IH(3) [of s1] slot_open_on_slot(2) [OF _ o, of j] show ?case by (auto simp: o split_beta Let_def)
  next
    case 4
    obtain s1 out where o: "on_slot st i Close = (s1, out)" by fastforce
    have l: "length (slots s1) = length (slots st)" using 4 on_slot_frame(1) [OF _ o] by simp
    with 4 Cons.IH(4) [of s1] on_slot_frame(3) [OF _ o, of k] show ?case by (auto simp: o split_beta Let_def)
  }
qed simp_all


section \<open>Overlapping subscriptions\<close>

definition log_request :: "string \<Rightarrow> json" where
  "log_request c = JObj [(''container'', JStr c)]"

definition bare_slot :: "string \<Rightarrow> string \<Rightarrow> session_slot" where
  "bare_slot s c = \<lparr>owner = s, cname = c, live = new_session, decoder = stream_init\<rparr>"

lemma log_request_simps [simp]:
  "parseRequest (log_request ''a'') = Some (''a'', 100)" "parseRequest (log_request ''b'') = Some (''b'', 100)"
  "parseRequest (log_request ''c'') = Some (''c'', 100)" "parseRequest (log_request ''d'') = Some (''d'', 100)"
  by (simp_all add: parseRequest_def log_request_def CONTAINER_NAME_def ascii_alnum_def request_tail_def
      DEFAULT_TAIL_def)

lemmas logs_eval = logs_run_Cons subscribe_def sessionCountFor_def MAX_SESSIONS_PER_SOCKET_def
  session_key_def subscribe_looked_up_def take_waiting_def remove_nth.simps starts_with_def Let_def logs_init_def

text \<open>
  The limit of three does not hold for overlapping subscriptions.  The count is taken
  before the awaited lookup and not again after it: four requests of one socket that arrive
  before the first lookup answers all pass and open four streams.
\<close>

theorem overlapping_subscriptions_exceed_limit:
  "\<exists>st out. logs_run d logs_init
      (map (Subscribe ''s'' \<circ> log_request) [''a'', ''b'', ''c'', ''d''] @ replicate 4 (LookedUp 0 Managed)) st out
    \<and> open_streams st ''s'' = {0, 1, 2, 3}"
proof -
  let ?st = "\<lparr>sessions = [(''s|a'', 0), (''s|b'', 1), (''s|c'', 2), (''s|d'', 3)],
    slots = map (bare_slot ''s'') [''a'', ''b'', ''c'', ''d''], waiting = map AwaitStream [0, 1, 2, 3]\<rparr>"
  have "\<exists>out. logs_run d logs_init
      (map (Subscribe ''s'' \<circ> log_request) [''a'', ''b'', ''c'', ''d''] @ replicate 4 (LookedUp 0 Managed)) ?st out"
    by (simp add: logs_eval numeral_eq_Suc bare_slot_def)
  moreover have "open_streams ?st ''s'' = {0, 1, 2, 3}"
    by (auto simp: open_streams_def slot_open_def bare_slot_def new_session_def nth_Cons' less_Suc_eq numeral_eq_Suc)
  ultimately show ?thesis by blast
qed

text \<open>
  A repeated subscription can leave a stream that nobody can close.  Subscribe,
  unsubscribe, subscribe again for the same container (what a remounted log panel sends)
  before the first lookup answers: the unsubscription finds nothing, both subscriptions open a
  stream, the second entry replaces the first in the registry, and after the client has
  disconnected the first stream is still open while the registry is empty.
\<close>

theorem repeated_subscription_leaks_stream:
  "\<exists>st out. logs_run d logs_init
      [Subscribe ''s'' (log_request ''a''), Unsubscribe ''s'' (log_request ''a''),
       Subscribe ''s'' (log_request ''a''), LookedUp 0 Managed, LookedUp 0 Managed,
       Opened 0 True, Opened 0 True, Disconnect ''s''] st out
    \<and> open_streams st ''s'' = {0} \<and> sessions st = []"
proof -
  let ?a = "\<lparr>owner = ''s'', cname = ''a'', live = new_session, decoder = stream_init\<rparr>"
  let ?b = "\<lparr>owner = ''s'', cname = ''a'', live = new_session\<lparr>has_source := True\<rparr>, decoder = stream_init\<rparr>"
  let ?c = "\<lparr>owner = ''s'', cname = ''a'', live = new_session\<lparr>has_source := True, closed := True\<rparr>, decoder = stream_init\<rparr>"
  let ?w = "AwaitLookup ''s'' ''a'' 100" and ?k = "''s|a''"
  have sub: "fst (subscribe \<lparr>sessions = [], slots = [], waiting = ws\<rparr> ''s'' (log_request ''a''))
      = \<lparr>sessions = [], slots = [], waiting = ws @ [?w]\<rparr>" for ws
    by (simp add: subscribe_def sessionCountFor_def MAX_SESSIONS_PER_SOCKET_def)
  have un: "fst (unsubscribe \<lparr>sessions = [], slots = [], waiting = ws\<rparr> ''s'' (log_request ''a''))
      = \<lparr>sessions = [], slots = [], waiting = ws\<rparr>" for ws
    by (simp add: unsubscribe_def log_request_def)
  have up: "fst (subscribe_looked_up \<lparr>sessions = [], slots = [], waiting = ws\<rparr> ''s'' ''a'' 100 Managed)
      = \<lparr>sessions = [(?k, 0)], slots = [?a], waiting = ws @ [AwaitStream 0]\<rparr>"
    "fst (subscribe_looked_up \<lparr>sessions = [(?k, 0)], slots = [?a], waiting = ws\<rparr> ''s'' ''a'' 100 Managed)
      = \<lparr>sessions = [(?k, Suc 0)], slots = [?a, ?a], waiting = ws @ [AwaitStream (Suc 0)]\<rparr>" for ws
    by (simp_all add: subscribe_looked_up_def session_key_def Let_def)
  have open1: "fst (subscribe_opened \<lparr>sessions = [(?k, Suc 0)], slots = [?a, ?a], waiting = ws\<rparr> 0 True)
      = \<lparr>sessions = [(?k, Suc 0)], slots = [?b, ?a], waiting = ws\<rparr>" for ws
    by (simp add: subscribe_opened_def on_slot_def attachSource_def split_beta Let_def)
       (simp add: new_session_def)
  have open2: "fst (subscribe_opened \<lparr>sessions = [(?k, Suc 0)], slots = [?b, ?a], waiting = ws\<rparr> (Suc 0) True)
      = \<lparr>sessions = [(?k, Suc 0)], slots = [?b, ?b], waiting = ws\<rparr>" for ws
    by (simp add: subscribe_opened_def on_slot_def attachSource_def split_beta Let_def)
       (simp add: new_session_def)
  have gone: "fst (destroyForSocket \<lparr>sessions = [(?k, Suc 0)], slots = [?b, ?b], waiting = []\<rparr> ''s'')
      = \<lparr>sessions = [], slots = [?b, ?c], waiting = []\<rparr>"
    by (simp add: destroyForSocket_def starts_with_def on_slot_def session_close_def on_source_def
        slot_key_def session_key_def split_beta Let_def) (simp add: new_session_def)
  have "\<exists>out. logs_run d logs_init
      [Subscribe ''s'' (log_request ''a''), Unsubscribe ''s'' (log_request ''a''),
       Subscribe ''s'' (log_request ''a''), LookedUp 0 Managed, LookedUp 0 Managed,
       Opened 0 True, Opened 0 True, Disconnect ''s''] \<lparr>sessions = [], slots = [?b, ?c], waiting = []\<rparr> out"
    by (simp add: logs_run_Cons logs_init_def sub un up open1 open2 gone take_waiting_def remove_nth.simps)
  moreover have "slot_open \<lparr>sessions = [], slots = [?b, ?c], waiting = []\<rparr> i \<longleftrightarrow> i = 0" for i
    by (cases "i = 0"; cases "i = Suc 0"; simp add: slot_open_def new_session_def less_Suc_eq)
  then have "open_streams \<lparr>sessions = [], slots = [?b, ?c], waiting = []\<rparr> ''s'' = {0}"
    by (simp add: open_streams_def cong: conj_cong)
  ultimately show ?thesis by (intro exI [of _ "\<lparr>sessions = [], slots = [?b, ?c], waiting = []\<rparr>"]) simp
qed

text \<open>
  The registry is well formed.  In every state the service reaches, each container has at
  most one entry per socket, every entry is an open session object kept under its own socket
  and container name, and every name and tail that waits for the engine has been validated.
\<close>

theorem registry_well_formed:
  assumes "logs_run d logs_init es st out"
  shows "distinct (map fst (sessions st))
    \<and> list_all (\<lambda>(k, i). i < length (slots st) \<and> \<not> closed (live (slots st ! i))
        \<and> k = session_key (owner (slots st ! i)) (cname (slots st ! i))) (sessions st)
    \<and> list_all (\<lambda>sl. CONTAINER_NAME (cname sl) \<and> CHR ''|'' \<notin> set (owner sl)) (slots st)
    \<and> list_all (\<lambda>w. case w of AwaitLookup s c t \<Rightarrow> CONTAINER_NAME c \<and> 0 \<le> t \<and> t \<le> 1000
        | AwaitStream i \<Rightarrow> i < length (slots st)) (waiting st)"
proof -
  from registry_run [OF assms registry_init(1,2)] have "names_ok st" "registry_ok st" by simp_all
  then show ?thesis
    by (auto simp: names_ok_def registry_ok_def slot_open_def slot_key_def list_all_iff split: waiting_sub.splits)
qed

text \<open>
  A subscription cannot be cancelled while it looks its container up.  Neither an
  unsubscription nor a disconnection that arrives before the lookup answers finds anything to
  close; afterwards the session is created and its Docker stream opened for a client that has
  left.
\<close>

theorem cancelled_subscription_still_opens:
  assumes "e = Unsubscribe ''s'' (log_request ''a'') \<or> e = Disconnect ''s''"
  shows "\<exists>st out. logs_run d logs_init
      [Subscribe ''s'' (log_request ''a''), e, LookedUp 0 Managed, Opened 0 True] st out
    \<and> open_streams st ''s'' = {0}"
proof -
  let ?b = "\<lparr>owner = ''s'', cname = ''a'', live = new_session\<lparr>has_source := True\<rparr>, decoder = stream_init\<rparr>"
  let ?st = "\<lparr>sessions = [(''s|a'', 0)], slots = [?b], waiting = []\<rparr>"
  have un: "fst (unsubscribe \<lparr>sessions = [], slots = [], waiting = ws\<rparr> ''s'' (log_request ''a''))
      = \<lparr>sessions = [], slots = [], waiting = ws\<rparr>" for ws
    by (simp add: unsubscribe_def log_request_def)
  have open1: "fst (subscribe_opened \<lparr>sessions = [(''s|a'', 0)], slots = [bare_slot ''s'' ''a''], waiting = ws\<rparr> 0 True)
      = \<lparr>sessions = [(''s|a'', 0)], slots = [?b], waiting = ws\<rparr>" for ws
    by (simp add: bare_slot_def subscribe_opened_def on_slot_def attachSource_def split_beta Let_def)
       (simp add: new_session_def)
  have up: "fst (subscribe_looked_up \<lparr>sessions = [], slots = [], waiting = ws\<rparr> ''s'' ''a'' 100 Managed)
      = \<lparr>sessions = [(''s|a'', 0)], slots = [bare_slot ''s'' ''a''], waiting = ws @ [AwaitStream 0]\<rparr>" for ws
    by (simp add: subscribe_looked_up_def session_key_def bare_slot_def Let_def)
  have sub: "fst (subscribe logs_init ''s'' (log_request ''a'')) = \<lparr>sessions = [], slots = [], waiting = [AwaitLookup ''s'' ''a'' 100]\<rparr>"
    by (simp add: subscribe_def sessionCountFor_def MAX_SESSIONS_PER_SOCKET_def logs_init_def)
  have gone: "fst (destroyForSocket \<lparr>sessions = [], slots = [], waiting = ws\<rparr> ''s'') = \<lparr>sessions = [], slots = [], waiting = ws\<rparr>" for ws
    by (simp add: destroyForSocket_def)
  have "\<exists>out. logs_run d logs_init [Subscribe ''s'' (log_request ''a''), e, LookedUp 0 Managed, Opened 0 True] ?st out"
    using assms by (auto simp: logs_run_Cons sub un gone up open1 take_waiting_def remove_nth.simps)
  moreover have "open_streams ?st ''s'' = {0}"
    by (auto simp: open_streams_def slot_open_def new_session_def)
  ultimately show ?thesis by blast
qed

theorem registry_well_formed_witness:
  "\<exists>st out. logs_run (\<lambda>_. False) logs_init [Subscribe ''s'' (log_request ''a''), LookedUp 0 Managed] st out
    \<and> length (sessions st) = 1 \<and> distinct (map fst (sessions st)) \<and> CONTAINER_NAME (cname (slots st ! 0))"
proof -
  let ?st = "\<lparr>sessions = [(''s|a'', 0)], slots = [bare_slot ''s'' ''a''], waiting = [AwaitStream 0]\<rparr>"
  have "\<exists>out. logs_run (\<lambda>_. False) logs_init [Subscribe ''s'' (log_request ''a''), LookedUp 0 Managed] ?st out"
    by (simp add: logs_eval bare_slot_def)
  then obtain out where run: "logs_run (\<lambda>_. False) logs_init [Subscribe ''s'' (log_request ''a''), LookedUp 0 Managed] ?st out" ..
  from registry_well_formed [OF run] have "CONTAINER_NAME (cname (slots ?st ! 0))" "distinct (map fst (sessions ?st))"
    by simp_all
  with run show ?thesis by (intro exI [of _ ?st] exI [of _ out]) simp
qed

theorem cancelled_subscription_still_opens_witness:
  "\<exists>st out. logs_run (\<lambda>_. False) logs_init
      [Subscribe ''s'' (log_request ''a''), Disconnect ''s'', LookedUp 0 Managed, Opened 0 True] st out
    \<and> open_streams st ''s'' = {0}"
  using cancelled_subscription_still_opens [of "Disconnect ''s''"] by blast

section \<open>What is opened\<close>

text \<open>
  The engine is asked for the logs of managed containers only.  A stream request is sent
  only on the answer "managed" to the lookup of that name, for a well-formed name and at most
  1000 lines of history.
\<close>

theorem only_managed_containers_opened:
  assumes "logs_run d logs_init es st out" and "logs_enabled st e" and "OpenLogs c t \<in> set (snd (logs_step d st e))"
  shows "\<exists>j s. e = LookedUp j Managed \<and> waiting st ! j = AwaitLookup s c t \<and> CONTAINER_NAME c \<and> 0 \<le> t \<and> t \<le> 1000"
proof -
  from registry_run [OF assms(1) registry_init(1,2)] have n: "names_ok st" and ok: "registry_ok st" by simp_all
  have on: "OpenLogs c t \<notin> set (snd (on_slot s i e'))" for s i e'
    by (auto simp: on_slot_def split_beta Let_def)
  have ons: "OpenLogs c t \<notin> set (snd (on_slots s is e'))" for s "is" e'
    by (induction "is" arbitrary: s) (auto simp: split_beta Let_def on)
  have lines: "OpenLogs c t \<notin> set (snd (push_lines s i ls))" for s i ls
    by (induction ls arbitrary: s) (auto simp: split_beta Let_def on)
  show ?thesis
  proof (cases e)
    case (LookedUp j res)
    with assms(2) obtain s c' t' where w: "waiting st ! j = AwaitLookup s c' t'" "j < length (waiting st)"
      by (auto split: waiting_sub.splits)
    with assms(3) have "res = Managed" "c' = c" "t' = t"
      by (auto simp: LookedUp subscribe_looked_up_def Let_def split: lookup_result.splits)
    moreover from w have "AwaitLookup s c' t' \<in> set (waiting st)" by (metis nth_mem)
    ultimately show ?thesis using n w by (auto simp: LookedUp names_ok_def)
  qed (use assms(3) on ons lines in \<open>auto simp: subscribe_def subscribe_opened_def stream_data_def
      unsubscribe_def destroyForSocket_def onModuleDestroy_def split_beta Let_def
      split: option.splits prod.splits waiting_sub.splits if_splits\<close>)
qed

section \<open>Witnesses\<close>

definition one_stream :: "logs_event list" where
  "one_stream = [Subscribe ''s'' (log_request ''a''), LookedUp 0 Managed, Opened 0 True]"

definition one_stream_state :: logs_state where
  "one_stream_state = \<lparr>sessions = [(''s|a'', 0)],
     slots = [\<lparr>owner = ''s'', cname = ''a'', live = new_session\<lparr>has_source := True\<rparr>, decoder = stream_init\<rparr>],
     waiting = []\<rparr>"

lemma one_stream_steps:
  "subscribe logs_init ''s'' (log_request ''a'') =
     (\<lparr>sessions = [], slots = [], waiting = [AwaitLookup ''s'' ''a'' 100]\<rparr>, [FindManaged ''a''])"
  "subscribe_looked_up \<lparr>sessions = [], slots = [], waiting = []\<rparr> ''s'' ''a'' 100 Managed =
     (\<lparr>sessions = [(''s|a'', 0)], slots = [bare_slot ''s'' ''a''], waiting = [AwaitStream 0]\<rparr>, [OpenLogs ''a'' 100])"
  "subscribe_opened \<lparr>sessions = [(''s|a'', 0)], slots = [bare_slot ''s'' ''a''], waiting = []\<rparr> 0 True =
     (one_stream_state, [Reply ''s'' AckOk])"
  by (simp_all add: subscribe_def sessionCountFor_def MAX_SESSIONS_PER_SOCKET_def logs_init_def
      subscribe_looked_up_def session_key_def bare_slot_def Let_def subscribe_opened_def on_slot_def
      attachSource_def new_session_def one_stream_state_def)

lemma one_stream_run:
  "logs_run d logs_init one_stream one_stream_state [FindManaged ''a'', OpenLogs ''a'' 100, Reply ''s'' AckOk]"
  "orderly d logs_init one_stream"
  by (simp_all add: one_stream_def logs_run_Cons one_stream_steps take_waiting_def remove_nth.simps)
     (simp_all add: logs_init_def)

lemma one_stream_open: "slot_open one_stream_state i \<longleftrightarrow> i = 0"
  by (cases "i = 0") (simp_all add: slot_open_def one_stream_state_def new_session_def)

lemma one_stream_set: "open_streams one_stream_state ''s'' = {0}" "open_streams one_stream_state ''t'' = {}"
  unfolding open_streams_def one_stream_open by (simp_all add: one_stream_state_def cong: conj_cong)

theorem streams_per_socket_bounded_witness:
  "card (open_streams one_stream_state ''s'') \<le> 3 \<and> registry_full one_stream_state
    \<and> open_streams one_stream_state ''s'' = {0}"
  using streams_per_socket_bounded [OF one_stream_run, of "''s''"] one_stream_set by simp


theorem only_managed_containers_opened_witness:
  "\<exists>st out. logs_run (\<lambda>_. True) logs_init [Subscribe ''s'' (log_request ''a'')] st out
    \<and> OpenLogs ''a'' 100 \<in> set (snd (logs_step (\<lambda>_. True) st (LookedUp 0 Managed)))
    \<and> CONTAINER_NAME ''a''"
proof -
  let ?st = "\<lparr>sessions = [], slots = [], waiting = [AwaitLookup ''s'' ''a'' 100]\<rparr>"
  have run: "logs_run (\<lambda>_. True) logs_init [Subscribe ''s'' (log_request ''a'')] ?st [FindManaged ''a'']"
    by (simp add: logs_run_Cons one_stream_steps)
  have mem: "OpenLogs ''a'' 100 \<in> set (snd (logs_step (\<lambda>_. True) ?st (LookedUp 0 Managed)))"
    by (simp add: take_waiting_def remove_nth.simps one_stream_steps)
  have "logs_enabled ?st (LookedUp 0 Managed)" by simp
  from only_managed_containers_opened [OF run this mem] run mem show ?thesis by blast
qed

end
