(* ===== verification/Cooldown.thy ===== *)
theory Cooldown
  imports Prelude
begin

text \<open>
  The contract of a per-key cool-down: ActionsService (one restart per container and 30 s) and
  AlertsService (one alert per kind, container and 60 s) both keep "time of the last one" in a
  map and refuse a new one too soon.  The locale states what their clients rely on; each
  service interprets it on its own state.
\<close>

section \<open>Logs of accepted requests\<close>

text \<open>A log holds the accepted (key, time) pairs, oldest first.\<close>

fun last_time :: "'k \<Rightarrow> ('k \<times> int) list \<Rightarrow> int option" where
  "last_time k [] = None"
| "last_time k ((k', t) # log) =
     (case last_time k log of None \<Rightarrow> (if k' = k then Some t else None) | Some u \<Rightarrow> Some u)"

lemma last_time_snoc [simp]:
  "last_time k (log @ [(k', t)]) = (if k' = k then Some t else last_time k log)"
  by (induction log) (auto split: option.splits)

lemma last_time_in: "last_time k log = Some t \<Longrightarrow> (k, t) \<in> set log"
  by (induction log) (auto split: option.splits if_splits)

lemma last_time_None: "last_time k log = None \<longleftrightarrow> k \<notin> fst ` set log"
  by (induction log) (auto split: option.splits)

text \<open>Entries of one key are at least \<open>p\<close> apart.\<close>

fun spaced :: "int \<Rightarrow> ('k \<times> int) list \<Rightarrow> bool" where
  "spaced p [] = True"
| "spaced p ((k, t) # log) = ((\<forall>(k', u) \<in> set log. k' = k \<longrightarrow> t + p \<le> u) \<and> spaced p log)"

lemma spaced_latest:
  assumes "spaced p log" and "0 \<le> p" and "(k, t) \<in> set log"
  shows "\<exists>u. last_time k log = Some u \<and> t \<le> u"
  using assms
proof (induction log)
  case (Cons e log)
  obtain k' t' where e: "e = (k', t')" by fastforce
  show ?case
  proof (cases "(k, t) \<in> set log")
    case True
    with Cons show ?thesis by (auto simp: e)
  next
    case False
    with Cons.prems have kt: "k' = k" "t' = t" by (auto simp: e)
    show ?thesis
    proof (cases "last_time k log")
      case None
      with kt show ?thesis by (simp add: e)
    next
      case (Some u)
      from last_time_in [OF Some] Cons.prems(1,2) have "t + p \<le> u" by (auto simp: e kt)
      with Cons.prems(2) Some show ?thesis by (simp add: e)
    qed
  qed
qed simp

lemma spaced_snoc:
  assumes "spaced p log" and "0 \<le> p"
    and "\<And>u. last_time k log = Some u \<Longrightarrow> u + p \<le> t"
  shows "spaced p (log @ [(k, t)])"
proof -
  have all: "\<forall>(k', u) \<in> set log. k' = k \<longrightarrow> u + p \<le> t"
    using spaced_latest [OF assms(1,2)] assms(3) by fastforce
  from assms(1) all show ?thesis by (induction log) auto
qed

lemma spaced_nth:
  assumes "spaced p log" and "i < j" and "j < length log" and "fst (log ! i) = fst (log ! j)"
  shows "snd (log ! i) + p \<le> snd (log ! j)"
  using assms
proof (induction log arbitrary: i j)
  case (Cons e log)
  obtain k t where e: "e = (k, t)" by fastforce
  from Cons.prems(2) obtain j' where j: "j = Suc j'" by (cases j) auto
  with Cons.prems(3) have mem: "log ! j' \<in> set log" by simp
  show ?case
  proof (cases i)
    case 0
    from Cons.prems(1) mem have "fst (log ! j') = k \<longrightarrow> t + p \<le> snd (log ! j')"
      by (auto simp: e split_beta dest: bspec)
    with Cons.prems(4) show ?thesis by (simp add: 0 j e)
  next
    case (Suc i')
    with Cons j show ?thesis by (simp add: e)
  qed
qed simp

section \<open>The contract\<close>

locale cooldown =
  fixes ready :: "'s \<Rightarrow> 'k \<Rightarrow> int \<Rightarrow> bool"
    and note_time :: "'s \<Rightarrow> 'k \<Rightarrow> int \<Rightarrow> 's"
    and last_at :: "'s \<Rightarrow> 'k \<Rightarrow> int option"
    and period :: int
  assumes ready_iff: "ready s k now \<longleftrightarrow> (\<forall>u. last_at s k = Some u \<longrightarrow> u + period \<le> now)"
    and last_at_note: "last_at (note_time s k now) k' = (if k' = k then Some now else last_at s k')"
    and period_nonneg: "0 \<le> period"
begin

text \<open>The state remembers the log as far as decisions need it.\<close>

definition tracks :: "'s \<Rightarrow> ('k \<times> int) list \<Rightarrow> bool" where
  "tracks s log \<longleftrightarrow> (\<forall>k. last_at s k = last_time k log) \<and> spaced period log"

lemma tracks_accept:
  assumes "tracks s log" and "ready s k c" and "c \<le> now"
  shows "tracks (note_time s k now) (log @ [(k, now)])"
proof -
  have "spaced period (log @ [(k, now)])"
    using assms period_nonneg by (intro spaced_snoc) (auto simp: tracks_def ready_iff)
  with assms(1) show ?thesis by (auto simp: tracks_def last_at_note)
qed

lemma tracks_ready:
  assumes "tracks s log"
  shows "ready s k now \<longleftrightarrow> (\<forall>t. (k, t) \<in> set log \<longrightarrow> t + period \<le> now)"
proof
  assume r: "ready s k now"
  show "\<forall>t. (k, t) \<in> set log \<longrightarrow> t + period \<le> now"
  proof (intro allI impI)
    fix t assume "(k, t) \<in> set log"
    with assms period_nonneg obtain u where "last_time k log = Some u" "t \<le> u"
      by (auto simp: tracks_def dest: spaced_latest)
    with r assms show "t + period \<le> now" by (force simp: ready_iff tracks_def)
  qed
next
  assume "\<forall>t. (k, t) \<in> set log \<longrightarrow> t + period \<le> now"
  with assms show "ready s k now" by (auto simp: ready_iff tracks_def dest: last_time_in)
qed

lemma tracks_empty: "(\<And>k. last_at s k = None) \<Longrightarrow> tracks s []"
  by (simp add: tracks_def)

lemma tracks_spaced: "tracks s log \<Longrightarrow> spaced period log"
  by (simp add: tracks_def)

end

end
