(* ===== verification/Alerts.thy ===== *)
theory Alerts
  imports Cooldown Shared
begin

text \<open>
  apps/api/src/alerts/alerts.service.ts: which container events become Telegram alerts.  A
  die is held back for a window in which a restart cancels it; every alert passes an awaited
  settings lookup and then, without a further \<open>await\<close>, the cool-down test and its update.
  The machine's events are a container update, the firing of a die timer, and the end of one
  settings lookup (lookups may finish in any order); times are in the events.
\<close>

section \<open>State\<close>

definition COOLDOWN_MS :: int where "COOLDOWN_MS = 60000"
definition DIE_RESTART_COALESCE_MS :: int where "DIE_RESTART_COALESCE_MS = 3000"
definition CONTAINER_DOWN_ALERT_KEY :: string where "CONTAINER_DOWN_ALERT_KEY = ''container_down''"
definition CONTAINER_RESTARTED_ALERT_KEY :: string where
  "CONTAINER_RESTARTED_ALERT_KEY = ''container_restarted''"

lemmas alert_times = COOLDOWN_MS_def DIE_RESTART_COALESCE_MS_def

datatype alertable = DieAlert | RestartAlert

fun alertable_name :: "alertable \<Rightarrow> string" where
  "alertable_name DieAlert = ''die''"
| "alertable_name RestartAlert = ''restart''"

text \<open>A call of \<open>maybeAlert\<close> that waits for its settings lookup.\<close>

datatype alert_task = AlertTask alertable string "int option"

record alerts_state =
  lastAlertAt :: "string \<rightharpoonup> int"
  pendingDieAlerts :: "string \<rightharpoonup> (int option \<times> int)" \<comment> \<open>exit code, due time\<close>
  seenContainers :: "string list"
  in_flight :: "alert_task list"

definition alerts_init :: alerts_state where
  "alerts_init = \<lparr>lastAlertAt = Map.empty, pendingDieAlerts = Map.empty, seenContainers = [], in_flight = []\<rparr>"

datatype alert_effect = SendDown string "int option" | SendRestarted string | UnhandledRejection

section \<open>Operations\<close>

definition cooldownKey :: "alertable \<Rightarrow> string \<Rightarrow> string" where
  "cooldownKey action name = alertable_name action @ '':'' @ name"

definition isOnCooldown :: "alerts_state \<Rightarrow> string \<Rightarrow> int \<Rightarrow> bool" where
  "isOnCooldown st key now = (case lastAlertAt st key of None \<Rightarrow> False
     | Some t \<Rightarrow> now - t < COOLDOWN_MS)"

definition note_alert :: "alerts_state \<Rightarrow> string \<Rightarrow> int \<Rightarrow> alerts_state" where
  "note_alert st key now = st\<lparr>lastAlertAt := (lastAlertAt st)(key \<mapsto> now)\<rparr>"

text \<open>\<open>setting?.enabled ?? true\<close>: the looked-up row is absent or has its flag.\<close>

definition isEnabled :: "bool option \<Rightarrow> bool" where
  "isEnabled row = nullish row True"

definition cancelPendingDieAlert :: "alerts_state \<Rightarrow> string \<Rightarrow> alerts_state" where
  "cancelPendingDieAlert st name = st\<lparr>pendingDieAlerts := (pendingDieAlerts st)(name := None)\<rparr>"

definition scheduleDieAlert :: "alerts_state \<Rightarrow> string \<Rightarrow> int option \<Rightarrow> int \<Rightarrow> alerts_state" where
  "scheduleDieAlert st name code now =
     (let st1 = cancelPendingDieAlert st name
      in st1\<lparr>pendingDieAlerts := (pendingDieAlerts st1)(name \<mapsto> (code, now + DIE_RESTART_COALESCE_MS))\<rparr>)"

text \<open>\<open>isRedeployStart\<close>: the answer, and the container noted as seen on a start.\<close>

definition isRedeployStart :: "alerts_state \<Rightarrow> service_update \<Rightarrow> bool \<times> alerts_state" where
  "isRedeployStart st u =
     (if upd_action u \<noteq> AStart then (False, st)
      else let name = sname (upd_state u); seen = name \<in> set (seenContainers st)
           in (seen, st\<lparr>seenContainers := List.insert name (seenContainers st)\<rparr>))"

text \<open>The call of \<open>maybeAlert\<close> up to its first \<open>await\<close>.\<close>

definition start_alert :: "alerts_state \<Rightarrow> alert_task \<Rightarrow> alerts_state" where
  "start_alert st task = st\<lparr>in_flight := in_flight st @ [task]\<rparr>"

definition handleUpdate :: "alerts_state \<Rightarrow> service_update \<Rightarrow> int \<Rightarrow> alerts_state" where
  "handleUpdate st u now =
     (let name = sname (upd_state u)
      in if upd_action u = ADie then scheduleDieAlert st name (exitCode u) now
         else let (redeploy, st1) = (if upd_action u = ARestart then (False, st) else isRedeployStart st u)
              in if upd_action u = ARestart \<or> redeploy
                 then start_alert (cancelPendingDieAlert st1 name) (AlertTask RestartAlert name None)
                 else st1)"

text \<open>The timer callback.\<close>

definition die_timer :: "alerts_state \<Rightarrow> string \<Rightarrow> alerts_state" where
  "die_timer st name =
     (case pendingDieAlerts st name of
        None \<Rightarrow> st
      | Some (code, due) \<Rightarrow> start_alert (cancelPendingDieAlert st name) (AlertTask DieAlert name code))"

datatype setting_read = ReadFailed | ReadRow "bool option"

text \<open>
  \<open>maybeAlert\<close> after its lookup; \<open>c\<close> and \<open>r\<close> are the clock readings of the test and of the
  update.  A failed lookup rejects a promise nobody handles.
\<close>

definition finish_alert ::
  "alerts_state \<Rightarrow> alert_task \<Rightarrow> setting_read \<Rightarrow> int \<Rightarrow> int \<Rightarrow> alerts_state \<times> alert_effect list" where
  "finish_alert st task read c r =
     (case task of AlertTask action name code \<Rightarrow>
        (case read of
           ReadFailed \<Rightarrow> (st, [UnhandledRejection])
         | ReadRow row \<Rightarrow>
             if \<not> isEnabled row then (st, [])
             else if isOnCooldown st (cooldownKey action name) c then (st, [])
             else (note_alert st (cooldownKey action name) r,
                   [if action = DieAlert then SendDown name code else SendRestarted name])))"

definition onModuleDestroy :: "alerts_state \<Rightarrow> alerts_state" where
  "onModuleDestroy st = st\<lparr>pendingDieAlerts := Map.empty\<rparr>"

section \<open>The machine\<close>

datatype alert_event =
  Update service_update int
| TimerFires string int
| LookupDone nat setting_read int int
| Destroyed int

fun event_time :: "alert_event \<Rightarrow> int" where
  "event_time (Update _ now) = now"
| "event_time (TimerFires _ now) = now"
| "event_time (LookupDone _ _ c r) = c"
| "event_time (Destroyed now) = now"

fun event_end :: "alert_event \<Rightarrow> int" where
  "event_end (LookupDone _ _ c r) = r"
| "event_end e = event_time e"

fun alert_enabled :: "alerts_state \<Rightarrow> alert_event \<Rightarrow> bool" where
  "alert_enabled st (Update _ _) = True"
| "alert_enabled st (TimerFires name now) =
     (case pendingDieAlerts st name of None \<Rightarrow> False | Some (_, due) \<Rightarrow> due \<le> now)"
| "alert_enabled st (Destroyed _) = True"
| "alert_enabled st (LookupDone i _ c r) = (i < length (in_flight st) \<and> c \<le> r)"

fun alert_step :: "alerts_state \<Rightarrow> alert_event \<Rightarrow> alerts_state \<times> alert_effect list" where
  "alert_step st (Update u now) = (handleUpdate st u now, [])"
| "alert_step st (TimerFires name now) = (die_timer st name, [])"
| "alert_step st (LookupDone i read c r) =
     finish_alert (st\<lparr>in_flight := remove_nth i (in_flight st)\<rparr>) (in_flight st ! i) read c r"
| "alert_step st (Destroyed now) = (onModuleDestroy st, [])"

text \<open>
  \<open>alerts_run now st es now' st' out\<close>: the events happen one after the other on a clock that
  never goes back, timers never early.
\<close>

inductive alerts_run ::
  "int \<Rightarrow> alerts_state \<Rightarrow> alert_event list \<Rightarrow> int \<Rightarrow> alerts_state \<Rightarrow> alert_effect list \<Rightarrow> bool" where
  alerts_done: "alerts_run now st [] now st []"
| alerts_more: "\<lbrakk>now \<le> event_time e; alert_enabled st e; alert_step st e = (st1, out1);
     alerts_run (event_end e) st1 es now' st' out2\<rbrakk>
    \<Longrightarrow> alerts_run now st (e # es) now' st' (out1 @ out2)"

inductive_cases alerts_run_NilE: "alerts_run now st [] now' st' out"
inductive_cases alerts_run_ConsE: "alerts_run now st (e # es) now' st' out"

lemma alerts_run_append:
  assumes "alerts_run now st (es @ fs) now' st' out"
  shows "\<exists>n s o1 o2. alerts_run now st es n s o1 \<and> alerts_run n s fs now' st' o2 \<and> out = o1 @ o2"
  using assms
proof (induction es arbitrary: now st out)
  case Nil
  then show ?case using alerts_done by fastforce
next
  case (Cons e es)
  from Cons.prems obtain st1 out1 out2 where 1: "now \<le> event_time e" "alert_enabled st e"
      "alert_step st e = (st1, out1)" and 2: "alerts_run (event_end e) st1 (es @ fs) now' st' out2"
      and out: "out = out1 @ out2"
    by (auto elim: alerts_run_ConsE)
  from Cons.IH [OF 2] obtain n s o1 o2 where
    "alerts_run (event_end e) st1 es n s o1" "alerts_run n s fs now' st' o2" "out2 = o1 @ o2" by blast
  with 1 out show ?case using alerts_more [OF 1] by fastforce
qed

lemma event_end_ge: "alert_enabled st e \<Longrightarrow> event_time e \<le> event_end e"
  by (cases e) auto

lemma alerts_run_clock: "alerts_run now st es now' st' out \<Longrightarrow> now \<le> now'"
  by (induction rule: alerts_run.induct) (auto dest: event_end_ge)

section \<open>Cool-down of alerts\<close>

interpretation alert_gap: cooldown "\<lambda>st key now. \<not> isOnCooldown st key now" note_alert
  lastAlertAt COOLDOWN_MS
  by unfold_locales (auto simp: isOnCooldown_def note_alert_def alert_times split: option.splits)

lemma cooldownKey_inject [simp]:
  "cooldownKey a n = cooldownKey b m \<longleftrightarrow> a = b \<and> n = m"
  by (cases a; cases b) (auto simp: cooldownKey_def)

lemma lastAlertAt_frame [simp]:
  "lastAlertAt (handleUpdate st u now) = lastAlertAt st"
  "lastAlertAt (die_timer st name) = lastAlertAt st"
  by (auto simp: handleUpdate_def scheduleDieAlert_def cancelPendingDieAlert_def isRedeployStart_def
      start_alert_def die_timer_def Let_def split: option.splits prod.splits)

lemma lastAlertAt_frame2 [simp]:
  "lastAlertAt (onModuleDestroy st) = lastAlertAt st"
  by (simp add: onModuleDestroy_def)

text \<open>The keys and times of the alerts sent along a run (ghost).\<close>

fun effect_keys :: "alert_effect list \<Rightarrow> string list" where
  "effect_keys [] = []"
| "effect_keys (SendDown n c # out) = cooldownKey DieAlert n # effect_keys out"
| "effect_keys (SendRestarted n # out) = cooldownKey RestartAlert n # effect_keys out"
| "effect_keys (UnhandledRejection # out) = effect_keys out"

fun alert_log :: "alerts_state \<Rightarrow> alert_event list \<Rightarrow> (string \<times> int) list" where
  "alert_log st [] = []"
| "alert_log st (e # es) =
     map (\<lambda>k. (k, event_end e)) (effect_keys (snd (alert_step st e))) @ alert_log (fst (alert_step st e)) es"

lemma alert_step_tracks:
  assumes "alert_gap.tracks st log" and "alert_enabled st e" and "alert_step st e = (st1, out)"
  shows "alert_gap.tracks st1 (log @ map (\<lambda>k. (k, event_end e)) (effect_keys out))"
proof -
  have frame: "alert_gap.tracks t log" if "lastAlertAt t = lastAlertAt st" for t
    using assms(1) that by (simp add: alert_gap.tracks_def)
  show ?thesis
  proof (cases e)
    case (LookupDone i read c r)
    obtain action name code where task: "in_flight st ! i = AlertTask action name code"
      by (cases "in_flight st ! i")
    let ?st = "st\<lparr>in_flight := remove_nth i (in_flight st)\<rparr>"
    let ?key = "cooldownKey action name"
    have tr: "alert_gap.tracks ?st log" by (rule frame) simp
    have acc: "alert_gap.tracks (note_alert ?st ?key r) (log @ [(?key, r)])" if "\<not> isOnCooldown ?st ?key c"
      using alert_gap.tracks_accept [OF tr that] assms(2) by (simp add: LookupDone)
    show ?thesis
    proof (cases "\<exists>row. read = ReadRow row \<and> isEnabled row \<and> \<not> isOnCooldown ?st ?key c")
      case True
      with acc assms(3) show ?thesis
        by (cases action) (auto simp: LookupDone finish_alert_def task)
    next
      case False
      with assms(3) have "st1 = ?st" "effect_keys out = []"
        by (auto simp: LookupDone finish_alert_def task split: setting_read.splits if_splits)
      with tr show ?thesis by simp
    qed
  qed (use assms(3) frame in auto)
qed

lemma alerts_run_tracks:
  assumes "alerts_run now st es now' st' out" and "alert_gap.tracks st log"
  shows "alert_gap.tracks st' (log @ alert_log st es)"
  using assms
proof (induction arbitrary: log rule: alerts_run.induct)
  case (alerts_more now e st st1 out1 es now' st' out2)
  from alerts_more.IH [OF alert_step_tracks [OF alerts_more.prems alerts_more.hyps(2,3)]]
  show ?case by (simp add: alerts_more.hyps(3))
qed simp

text \<open>
  C24: no alert storms.  Along any run from start-up, two alerts of the same kind for the same
  container are at least 60 s apart, even when settings lookups overlap and finish out of
  order.
\<close>

theorem alerts_spaced:
  assumes "alerts_run t0 alerts_init es t st out" and "i < j" and "j < length (alert_log alerts_init es)"
    and "fst (alert_log alerts_init es ! i) = fst (alert_log alerts_init es ! j)"
  shows "snd (alert_log alerts_init es ! i) + 60000 \<le> snd (alert_log alerts_init es ! j)"
proof -
  have "alert_gap.tracks alerts_init []"
    by (rule alert_gap.tracks_empty) (simp add: alerts_init_def)
  from alerts_run_tracks [OF assms(1) this] have "spaced COOLDOWN_MS (alert_log alerts_init es)"
    by (auto intro: alert_gap.tracks_spaced)
  from spaced_nth [OF this assms(2-4)] show ?thesis by (simp add: COOLDOWN_MS_def)
qed

section \<open>Coalescing of die and restart\<close>

definition is_update :: "lifecycle_action \<Rightarrow> string \<Rightarrow> alert_event \<Rightarrow> bool" where
  "is_update a n e = (case e of Update u _ \<Rightarrow> upd_action u = a \<and> sname (upd_state u) = n | _ \<Rightarrow> False)"

definition down_tasks :: "alerts_state \<Rightarrow> string \<Rightarrow> bool" where
  "down_tasks st n = (\<exists>c. AlertTask DieAlert n c \<in> set (in_flight st))"

definition sends_down :: "string \<Rightarrow> alert_effect list \<Rightarrow> bool" where
  "sends_down n out = (\<exists>c. SendDown n c \<in> set out)"

lemma sends_down_append [simp]:
  "sends_down n (xs @ ys) \<longleftrightarrow> sends_down n xs \<or> sends_down n ys" "\<not> sends_down n []"
  by (auto simp: sends_down_def)

lemma handleUpdate_no_down:
  "\<not> down_tasks st n \<Longrightarrow> \<not> down_tasks (handleUpdate st u now) n"
  by (auto simp: down_tasks_def handleUpdate_def scheduleDieAlert_def cancelPendingDieAlert_def
      isRedeployStart_def start_alert_def Let_def)

lemma handleUpdate_pending:
  "\<not> is_update ADie n (Update u now) \<Longrightarrow>
    pendingDieAlerts (handleUpdate st u now) n = None
    \<or> pendingDieAlerts (handleUpdate st u now) n = pendingDieAlerts st n"
  by (auto simp: is_update_def handleUpdate_def scheduleDieAlert_def cancelPendingDieAlert_def
      isRedeployStart_def start_alert_def Let_def)

lemma finish_alert_frame:
  "in_flight (fst (finish_alert st task read c r)) = in_flight st"
  "pendingDieAlerts (fst (finish_alert st task read c r)) = pendingDieAlerts st"
  "seenContainers (fst (finish_alert st task read c r)) = seenContainers st"
  by (auto simp: finish_alert_def note_alert_def split: alert_task.splits setting_read.splits)

lemma finish_alert_out:
  "SendDown n c' \<in> set (snd (finish_alert st task read c r)) \<Longrightarrow> task = AlertTask DieAlert n c'"
  "SendRestarted n \<in> set (snd (finish_alert st task read c r)) \<Longrightarrow> \<exists>c'. task = AlertTask RestartAlert n c'"
  by (auto simp: finish_alert_def split: alert_task.splits setting_read.splits if_splits)
     (metis alertable.exhaust)

text \<open>Until time \<open>due\<close> the timer of \<open>n\<close> cannot fire; nothing else can create a down alert.\<close>

definition quiet :: "alerts_state \<Rightarrow> string \<Rightarrow> int \<Rightarrow> bool" where
  "quiet st n due \<longleftrightarrow> \<not> down_tasks st n
     \<and> (pendingDieAlerts st n = None \<or> (\<exists>c. pendingDieAlerts st n = Some (c, due)))"

lemma quiet_step:
  assumes "quiet st n due" and "alert_enabled st e" and "\<not> is_update ADie n e"
    and "pendingDieAlerts st n = None \<or> event_time e < due"
  shows "quiet (fst (alert_step st e)) n due \<and> \<not> sends_down n (snd (alert_step st e))
    \<and> (pendingDieAlerts st n = None \<longrightarrow> pendingDieAlerts (fst (alert_step st e)) n = None)"
proof (cases e)
  case (Update u now)
  with assms(1,3) handleUpdate_no_down [of st n u now] handleUpdate_pending [of n u now st]
  show ?thesis by (auto simp: quiet_def)
next
  case (TimerFires name now)
  with assms show ?thesis
    by (auto simp: quiet_def die_timer_def start_alert_def cancelPendingDieAlert_def down_tasks_def
        split: option.splits prod.splits)
next
  case (LookupDone i read c r)
  let ?st = "st\<lparr>in_flight := remove_nth i (in_flight st)\<rparr>"
  let ?fin = "finish_alert ?st (in_flight st ! i) read c r"
  have mem: "in_flight st ! i \<in> set (in_flight st)"
    using assms(2) by (simp add: LookupDone)
  have nodown: "\<not> down_tasks st n" using assms(1) by (simp add: quiet_def)
  have "\<not> sends_down n (snd ?fin)"
    using finish_alert_out(1) mem nodown by (fastforce simp: sends_down_def down_tasks_def)
  moreover have "\<not> down_tasks (fst ?fin) n"
    using nodown remove_nth_subset by (fastforce simp: down_tasks_def finish_alert_frame)
  ultimately show ?thesis
    using assms(1) by (simp add: LookupDone quiet_def finish_alert_frame)
next
  case (Destroyed now)
  with assms show ?thesis by (auto simp: quiet_def onModuleDestroy_def down_tasks_def)
qed

lemma quiet_run:
  assumes "alerts_run now st es now' st' out" and "quiet st n due"
    and "\<forall>e\<in>set es. \<not> is_update ADie n e"
    and "pendingDieAlerts st n = None \<or> now' < due"
  shows "quiet st' n due \<and> \<not> sends_down n out
    \<and> (pendingDieAlerts st n = None \<longrightarrow> pendingDieAlerts st' n = None)"
  using assms
proof (induction rule: alerts_run.induct)
  case (alerts_more now e st st1 out1 es now' st' out2)
  have "event_time e \<le> now'"
    using event_end_ge [OF alerts_more.hyps(2)] alerts_run_clock [OF alerts_more.hyps(4)] by simp
  with alerts_more.prems have "pendingDieAlerts st n = None \<or> event_time e < due" by auto
  from quiet_step [OF alerts_more.prems(1) alerts_more.hyps(2) _ this] alerts_more.prems(2)
  have "quiet st1 n due" "\<not> sends_down n out1"
    "pendingDieAlerts st n = None \<longrightarrow> pendingDieAlerts st1 n = None"
    by (auto simp: alerts_more.hyps(3))
  with alerts_more show ?case by auto
qed simp

lemma alerts_run_Cons:
  "alerts_run now st (e # es) now' st' out \<longleftrightarrow> now \<le> event_time e \<and> alert_enabled st e
    \<and> (\<exists>o2. alerts_run (event_end e) (fst (alert_step st e)) es now' st' o2 \<and> out = snd (alert_step st e) @ o2)"
  by (auto elim!: alerts_run_ConsE intro: alerts_more simp: prod_eq_iff)

lemma alerts_run_Nil [simp]: "alerts_run now st [] now' st' out \<longleftrightarrow> now' = now \<and> st' = st \<and> out = []"
  by (auto elim: alerts_run_NilE intro: alerts_done)

lemma seen_mono_step: "n \<in> set (seenContainers st) \<Longrightarrow> n \<in> set (seenContainers (fst (alert_step st e)))"
  by (cases e) (auto simp: handleUpdate_def scheduleDieAlert_def cancelPendingDieAlert_def
      isRedeployStart_def start_alert_def die_timer_def onModuleDestroy_def finish_alert_frame Let_def
      split: option.splits)

lemma seen_mono:
  assumes "alerts_run now st es now' st' out" and "n \<in> set (seenContainers st)"
  shows "n \<in> set (seenContainers st')"
  using assms by (induction rule: alerts_run.induct) (simp_all, metis fst_conv seen_mono_step)

text \<open>An update that reports a restart: the event itself, or the start of a recreated container.\<close>

definition restarts :: "string list \<Rightarrow> service_update \<Rightarrow> bool" where
  "restarts seen u \<longleftrightarrow> upd_action u = ARestart \<or> upd_action u = AStart \<and> sname (upd_state u) \<in> set seen"

lemma handleUpdate_restart_cancels:
  assumes "restarts (seenContainers st) u"
  shows "pendingDieAlerts (handleUpdate st u now) (sname (upd_state u)) = None"
  using assms by (auto simp: restarts_def handleUpdate_def isRedeployStart_def start_alert_def
      cancelPendingDieAlert_def Let_def)

lemma handleUpdate_die_schedules:
  assumes "upd_action u = ADie"
  shows "pendingDieAlerts (handleUpdate st u now) (sname (upd_state u)) = Some (exitCode u, now + 3000)"
    "in_flight (handleUpdate st u now) = in_flight st" "seenContainers (handleUpdate st u now) = seenContainers st"
  using assms by (simp_all add: handleUpdate_def scheduleDieAlert_def cancelPendingDieAlert_def
      DIE_RESTART_COALESCE_MS_def Let_def)

text \<open>
  C25: one action, one alert.  A die followed within the 3 s window by a restart of the same
  container (or by the start of its recreated container) produces no "down" alert, whatever
  other events interleave, as long as the container does not die again.
\<close>

theorem quick_restart_not_reported_down:
  assumes "alerts_run now st (Update d t1 # mid @ Update r t2 # rest) now' st' out"
    and "upd_action d = ADie" and "sname (upd_state d) = n"
    and "restarts (seenContainers st) r" and "sname (upd_state r) = n"
    and "t2 < t1 + 3000" and "\<not> down_tasks st n"
    and "\<forall>e\<in>set mid \<union> set rest. \<not> is_update ADie n e"
  shows "\<not> sends_down n out"
proof -
  let ?s0 = "handleUpdate st d t1"
  from assms(1) obtain out1 where r1: "alerts_run t1 ?s0 (mid @ Update r t2 # rest) now' st' out1"
    and out: "out = out1" by (auto simp: alerts_run_Cons)
  from alerts_run_append [OF r1] obtain m s o1 o2 where mid: "alerts_run t1 ?s0 mid m s o1"
    and r2: "alerts_run m s (Update r t2 # rest) now' st' o2" and o: "out1 = o1 @ o2" by blast
  from r2 obtain o3 where m: "m \<le> t2" and rest: "alerts_run t2 (handleUpdate s r t2) rest now' st' o3"
    and o3: "o2 = o3" by (auto simp: alerts_run_Cons)
  have q0: "quiet ?s0 n (t1 + 3000)"
    using handleUpdate_die_schedules [OF assms(2)] assms(3,7) by (auto simp: quiet_def down_tasks_def)
  from quiet_run [OF mid q0] assms(6,8) m have q1: "quiet s n (t1 + 3000)" and n1: "\<not> sends_down n o1" by auto
  have "restarts (seenContainers s) r"
    using assms(4) seen_mono [OF mid] handleUpdate_die_schedules(3) [OF assms(2)] by (auto simp: restarts_def)
  from handleUpdate_restart_cancels [OF this] assms(5)
  have none: "pendingDieAlerts (handleUpdate s r t2) n = None" by auto
  with q1 have "quiet (handleUpdate s r t2) n (t1 + 3000)" by (simp add: quiet_def handleUpdate_no_down)
  from quiet_run [OF rest this] none assms(8) have "\<not> sends_down n o3" by auto
  with n1 show ?thesis by (simp add: out o o3)
qed

section \<open>Crashes are alerted\<close>

text \<open>An event that leaves the pending timer of \<open>n\<close> alone.\<close>

definition spares_timer :: "string \<Rightarrow> alert_event \<Rightarrow> bool" where
  "spares_timer n e = (case e of Update u _ \<Rightarrow> sname (upd_state u) \<noteq> n | TimerFires m _ \<Rightarrow> m \<noteq> n
     | LookupDone _ _ _ _ \<Rightarrow> True | Destroyed _ \<Rightarrow> False)"

lemma spares_timer_step:
  assumes "spares_timer n e"
  shows "pendingDieAlerts (fst (alert_step st e)) n = pendingDieAlerts st n"
proof (cases e)
  case (Update u now)
  with assms show ?thesis
    by (auto simp: spares_timer_def handleUpdate_def scheduleDieAlert_def cancelPendingDieAlert_def
        isRedeployStart_def start_alert_def Let_def)
qed (use assms in \<open>auto simp: spares_timer_def die_timer_def start_alert_def cancelPendingDieAlert_def
      finish_alert_frame split: option.splits\<close>)

lemma spares_timer_run:
  assumes "alerts_run now st es now' st' out" and "\<forall>e\<in>set es. spares_timer n e"
  shows "pendingDieAlerts st' n = pendingDieAlerts st n"
  using assms spares_timer_step by (induction rule: alerts_run.induct) (simp_all, metis fst_conv)

lemma alerts_run_join:
  assumes "alerts_run now st es n s o1" and "alerts_run n s fs now' st' o2"
  shows "alerts_run now st (es @ fs) now' st' (o1 @ o2)"
  using assms by (induction rule: alerts_run.induct) (auto intro: alerts_more)

text \<open>
  C26: a real crash is reported.  If nothing about the container arrives after its die, the
  timer can fire from 3 s on, and the lookup that follows, when the setting is on (or has no
  row) and no down alert of it was sent in the last 60 s, sends the alert with the exit code
  of the die.
\<close>

theorem crash_is_alerted:
  assumes "alerts_run now st (Update d t1 # mid) m s o1"
    and "upd_action d = ADie" and "sname (upd_state d) = n" and "\<forall>e\<in>set mid. spares_timer n e"
    and "t1 + 3000 \<le> t2" and "m \<le> t2" and "t2 \<le> c" and "c \<le> r"
    and "isEnabled row" and "\<not> isOnCooldown s (cooldownKey DieAlert n) c"
  shows "\<exists>st'. alerts_run now st
      (Update d t1 # mid @ [TimerFires n t2, LookupDone (length (in_flight s)) (ReadRow row) c r])
      r st' (o1 @ [SendDown n (exitCode d)])"
proof -
  from assms(1) have mid: "alerts_run t1 (handleUpdate st d t1) mid m s o1" by (auto simp: alerts_run_Cons)
  have pend: "pendingDieAlerts s n = Some (exitCode d, t1 + 3000)"
    using spares_timer_run [OF mid assms(4)] handleUpdate_die_schedules(1) [OF assms(2)] assms(3) by simp
  let ?s1 = "die_timer s n"
  have s1: "in_flight ?s1 = in_flight s @ [AlertTask DieAlert n (exitCode d)]"
    "lastAlertAt ?s1 = lastAlertAt s"
    by (simp_all add: die_timer_def pend start_alert_def cancelPendingDieAlert_def)
  let ?L = "LookupDone (length (in_flight s)) (ReadRow row) c r"
  have out: "snd (alert_step ?s1 ?L) = [SendDown n (exitCode d)]"
    using assms(9,10) by (simp add: s1 finish_alert_def isOnCooldown_def)
  have "alerts_run m s [TimerFires n t2, ?L] r (fst (alert_step ?s1 ?L)) [SendDown n (exitCode d)]"
    unfolding alerts_run_Cons using assms(5-8) pend out s1(1) by simp
  from alerts_run_join [OF assms(1) this] show ?thesis by auto
qed

section \<open>Alerts have causes\<close>

definition died :: "alert_event list \<Rightarrow> string \<Rightarrow> int option \<Rightarrow> bool" where
  "died es n c = (\<exists>u now. Update u now \<in> set es \<and> upd_action u = ADie \<and> sname (upd_state u) = n \<and> exitCode u = c)"

definition restarted :: "alert_event list \<Rightarrow> string \<Rightarrow> bool" where
  "restarted es n \<longleftrightarrow> 1 \<le> length (filter (is_update ARestart n) es) \<or> 2 \<le> length (filter (is_update AStart n) es)"

definition caused :: "alert_event list \<Rightarrow> alerts_state \<Rightarrow> bool" where
  "caused es st \<longleftrightarrow>
     (\<forall>n c due. pendingDieAlerts st n = Some (c, due) \<longrightarrow> died es n c)
   \<and> (\<forall>n c. AlertTask DieAlert n c \<in> set (in_flight st) \<longrightarrow> died es n c)
   \<and> (\<forall>n c. AlertTask RestartAlert n c \<in> set (in_flight st) \<longrightarrow> restarted es n)
   \<and> (\<forall>n. n \<in> set (seenContainers st) \<longrightarrow> 1 \<le> length (filter (is_update AStart n) es))"

definition out_caused :: "alert_event list \<Rightarrow> alert_effect list \<Rightarrow> bool" where
  "out_caused es out \<longleftrightarrow> (\<forall>n c. SendDown n c \<in> set out \<longrightarrow> died es n c)
     \<and> (\<forall>n. SendRestarted n \<in> set out \<longrightarrow> restarted es n)"

lemma died_snoc: "died es n c \<Longrightarrow> died (es @ fs) n c"
  by (auto simp: died_def)

lemma restarted_snoc: "restarted es n \<Longrightarrow> restarted (es @ fs) n"
  by (auto simp: restarted_def)

lemma caused_snoc: "caused es st \<Longrightarrow> caused (es @ fs) st"
  by (force simp: caused_def died_snoc restarted_snoc)

lemma out_caused_append:
  "out_caused es (o1 @ o2) \<longleftrightarrow> out_caused es o1 \<and> out_caused es o2"
  by (auto simp: out_caused_def)

lemma out_caused_snoc: "out_caused es out \<Longrightarrow> out_caused (es @ fs) out"
  by (auto simp: out_caused_def died_snoc restarted_snoc)

lemma caused_update:
  assumes "caused es st"
  shows "caused (es @ [Update u now]) (handleUpdate st u now)"
proof -
  note old = caused_snoc [OF assms, of "[Update u now]"]
  let ?n = "sname (upd_state u)"
  consider "upd_action u = ADie" | "restarts (seenContainers st) u"
    | "upd_action u = AStart" "?n \<notin> set (seenContainers st)"
    | "upd_action u \<noteq> ADie" "upd_action u \<noteq> ARestart" "upd_action u \<noteq> AStart"
    by (auto simp: restarts_def)
  then show ?thesis
  proof cases
    case 1
    then have "died (es @ [Update u now]) ?n (exitCode u)" by (auto simp: died_def)
    with 1 old show ?thesis
      by (auto simp: caused_def handleUpdate_def scheduleDieAlert_def cancelPendingDieAlert_def Let_def)
  next
    case 2
    then have "restarted (es @ [Update u now]) ?n"
      using assms by (auto simp: caused_def restarts_def restarted_def is_update_def)
    with 2 old show ?thesis
      by (auto simp: caused_def restarts_def handleUpdate_def start_alert_def isRedeployStart_def
          cancelPendingDieAlert_def Let_def)
  next
    case 3
    with old show ?thesis
      by (auto simp: caused_def handleUpdate_def isRedeployStart_def is_update_def)
  next
    case 4
    with old show ?thesis by (auto simp: handleUpdate_def isRedeployStart_def)
  qed
qed

lemma caused_step:
  assumes "caused es st" and "alert_enabled st e"
  shows "caused (es @ [e]) (fst (alert_step st e)) \<and> out_caused (es @ [e]) (snd (alert_step st e))"
proof (cases e)
  case (Update u now)
  with caused_update [OF assms(1)] show ?thesis by (simp add: out_caused_def)
next
  case (TimerFires name now)
  with caused_snoc [OF assms(1), of "[e]"] show ?thesis
    by (auto simp: out_caused_def caused_def die_timer_def start_alert_def cancelPendingDieAlert_def
        split: option.splits)
next
  case (LookupDone i read c r)
  have mem: "in_flight st ! i \<in> set (in_flight st)" using assms(2) by (simp add: LookupDone)
  from caused_snoc [OF assms(1), of "[e]"]
  have old: "caused (es @ [e]) st" .
  have "out_caused (es @ [e]) (snd (alert_step st e))"
    using old mem by (fastforce simp: out_caused_def LookupDone caused_def dest: finish_alert_out)
  moreover have "caused (es @ [e]) (fst (alert_step st e))"
    using old remove_nth_subset by (fastforce simp: caused_def LookupDone finish_alert_frame)
  ultimately show ?thesis by simp
next
  case (Destroyed now)
  with caused_snoc [OF assms(1), of "[e]"] show ?thesis
    by (simp add: out_caused_def caused_def onModuleDestroy_def)
qed

lemma caused_run:
  assumes "alerts_run now st es now' st' out" and "caused past st"
  shows "out_caused (past @ es) out"
  using assms
proof (induction arbitrary: past rule: alerts_run.induct)
  case (alerts_more now e st st1 out1 es now' st' out2)
  from caused_step [OF alerts_more.prems alerts_more.hyps(2)]
  have 1: "caused (past @ [e]) st1" "out_caused (past @ [e]) out1" by (simp_all add: alerts_more.hyps(3))
  from alerts_more.IH [OF 1(1)] out_caused_snoc [OF 1(2), of es]
  show ?case by (simp add: out_caused_append)
qed (simp add: out_caused_def)

text \<open>
  No alert without a cause.  A "down" alert carries the exit code of a die of that
  container; a "restarted" alert follows a restart event of it or a second start.
\<close>

theorem alerts_have_causes:
  assumes "alerts_run now alerts_init es now' st' out"
  shows "(\<forall>n c. SendDown n c \<in> set out \<longrightarrow> died es n c) \<and> (\<forall>n. SendRestarted n \<in> set out \<longrightarrow> restarted es n)"
proof -
  have "caused [] alerts_init" by (simp add: caused_def alerts_init_def)
  from caused_run [OF assms this] show ?thesis by (simp add: out_caused_def)
qed

section \<open>Witnesses\<close>

definition sample_update :: "string \<Rightarrow> lifecycle_action \<Rightarrow> int option \<Rightarrow> service_update" where
  "sample_update n a c = \<lparr>upd_service = n,
     upd_state = \<lparr>sid = ''0'', sname = n, service = n, project = ''p'', img = ''i'', status = Running,
       health = NoHealth, startedAt = None, uptimeSec = None\<rparr>,
     occurredAt = 0, upd_action = a, exitCode = c\<rparr>"

lemmas sample_simps = sample_update_def alerts_run_Cons alerts_init_def handleUpdate_def
  scheduleDieAlert_def cancelPendingDieAlert_def isRedeployStart_def start_alert_def die_timer_def
  finish_alert_def isEnabled_def isOnCooldown_def note_alert_def alert_times remove_nth.simps
  cooldownKey_def

definition sample_restarts :: "alert_event list" where
  "sample_restarts = [Update (sample_update ''web'' ARestart None) 0, LookupDone 0 (ReadRow None) 5 5,
     Update (sample_update ''web'' ARestart None) 30000, LookupDone 0 (ReadRow (Some True)) 30001 30002,
     Update (sample_update ''web'' ARestart None) 61000, LookupDone 0 (ReadRow (Some True)) 61001 61002]"

lemma sample_restarts_run:
  "\<exists>st. alerts_run 0 alerts_init sample_restarts 61002 st [SendRestarted ''web'', SendRestarted ''web'']"
  by (simp add: sample_restarts_def sample_simps)

lemma sample_restarts_log:
  "alert_log alerts_init sample_restarts = [(''restart:web'', 5), (''restart:web'', 61002)]"
  by (simp add: sample_restarts_def sample_simps)

theorem alerts_spaced_witness:
  "snd (alert_log alerts_init sample_restarts ! 0) + 60000 \<le> snd (alert_log alerts_init sample_restarts ! 1)"
proof -
  obtain st where "alerts_run 0 alerts_init sample_restarts 61002 st [SendRestarted ''web'', SendRestarted ''web'']"
    using sample_restarts_run by blast
  from alerts_spaced [OF this, of 0 1] show ?thesis by (simp add: sample_restarts_log)
qed

theorem alerts_have_causes_witness:
  "restarted sample_restarts ''web''"
proof -
  obtain st where "alerts_run 0 alerts_init sample_restarts 61002 st [SendRestarted ''web'', SendRestarted ''web'']"
    using sample_restarts_run by blast
  from alerts_have_causes [OF this] show ?thesis by simp
qed

theorem quick_restart_not_reported_down_witness:
  "\<exists>st out. alerts_run 0 alerts_init
      [Update (sample_update ''web'' ADie (Some 137)) 0, Update (sample_update ''web'' ARestart None) 800,
       LookupDone 0 (ReadRow None) 900 900] 900 st out \<and> \<not> sends_down ''web'' out"
proof -
  let ?d = "sample_update ''web'' ADie (Some 137)" and ?r = "sample_update ''web'' ARestart None"
  have run: "\<exists>st out. alerts_run 0 alerts_init [Update ?d 0, Update ?r 800, LookupDone 0 (ReadRow None) 900 900] 900 st out"
    by (simp add: sample_simps)
  then obtain st out where r: "alerts_run 0 alerts_init
      (Update ?d 0 # [] @ Update ?r 800 # [LookupDone 0 (ReadRow None) 900 900]) 900 st out" by auto
  have "\<not> sends_down ''web'' out"
    by (rule quick_restart_not_reported_down [OF r])
       (simp_all add: sample_update_def restarts_def down_tasks_def alerts_init_def is_update_def)
  with r show ?thesis by auto
qed

theorem crash_is_alerted_witness:
  "\<exists>st'. alerts_run 0 alerts_init [Update (sample_update ''web'' ADie (Some 1)) 0, TimerFires ''web'' 3000,
      LookupDone 0 (ReadRow None) 3005 3005] 3005 st' [SendDown ''web'' (Some 1)]"
proof -
  let ?d = "sample_update ''web'' ADie (Some 1)"
  have run: "alerts_run 0 alerts_init (Update ?d 0 # []) 0 (handleUpdate alerts_init ?d 0) []"
    by (simp add: alerts_run_Cons)
  have none: "\<not> isOnCooldown (handleUpdate alerts_init ?d 0) (cooldownKey DieAlert ''web'') 3005"
    "in_flight (handleUpdate alerts_init ?d 0) = []" "exitCode ?d = Some 1"
    by (simp_all add: sample_simps)
  from crash_is_alerted [OF run, of "''web''" 3000 3005 3005 None] none show ?thesis
    by (simp add: sample_update_def isEnabled_def)
qed

end
