(* ===== verification/Actions.thy ===== *)
theory Actions
  imports Cooldown Shared
begin

text \<open>
  apps/api/src/actions/actions.service.ts: the restart action with its protected projects, the
  cool-down per container, the global budget and the audit row.  The inventory lookup and the
  Docker call are awaited: their results are arguments.  Everything from the check to the
  recording runs without an \<open>await\<close>, so it is one step.  \<open>c\<close> and \<open>r\<close> are the clock readings
  of \<open>checkRateLimit\<close> and \<open>recordRestart\<close>.
\<close>

section \<open>State and errors\<close>

definition CONTAINER_COOLDOWN_MS :: int where "CONTAINER_COOLDOWN_MS = 30000"
definition GLOBAL_LIMIT :: nat where "GLOBAL_LIMIT = 10"
definition GLOBAL_WINDOW_MS :: int where "GLOBAL_WINDOW_MS = 5 * 60000"
definition DEFAULT_PROTECTED_PROJECTS :: string where
  "DEFAULT_PROTECTED_PROJECTS = ''core-dashboard,cci-auth-service''"

lemmas action_limits = CONTAINER_COOLDOWN_MS_def GLOBAL_LIMIT_def GLOBAL_WINDOW_MS_def

record actions_state =
  lastRestartAt :: "string \<rightharpoonup> int"
  globalRestarts :: "int list"

definition actions_init :: actions_state where
  "actions_init = \<lparr>lastRestartAt = Map.empty, globalRestarts = []\<rparr>"

datatype action_error =
  UnknownContainer string
| ProtectedProject string
| WaitSeconds int string
| GlobalLimitReached
| RestartFailed string
| AuditFailed

record audit_entry =
  userSub :: string
  userEmail :: string
  audit_role :: role
  audit_action :: string
  target :: string
  audit_result :: string

section \<open>Operations\<close>

definition isProtected :: "env \<Rightarrow> string \<Rightarrow> bool" where
  "isProtected env proj =
     (let list = nullish (env ''PROTECTED_PROJECTS'') DEFAULT_PROTECTED_PROJECTS;
          projects = filter (\<lambda>p. p \<noteq> []) (map js_trim (js_split CHR '','' list))
      in proj \<in> set projects)"

text \<open>\<open>Math.ceil(x / 1000)\<close> on an integer.\<close>

definition ceil_sec :: "int \<Rightarrow> int" where
  "ceil_sec x = - ((- x) div 1000)"

definition on_cooldown :: "actions_state \<Rightarrow> string \<Rightarrow> int \<Rightarrow> bool" where
  "on_cooldown st name now = (case lastRestartAt st name of None \<Rightarrow> False
     | Some t \<Rightarrow> now - t < CONTAINER_COOLDOWN_MS)"

definition checkRateLimit :: "actions_state \<Rightarrow> string \<Rightarrow> int \<Rightarrow> action_error option" where
  "checkRateLimit st name now =
     (if on_cooldown st name now
      then Some (WaitSeconds
             (ceil_sec (CONTAINER_COOLDOWN_MS - (now - the (lastRestartAt st name)))) name)
      else if length (filter (\<lambda>t. now - t < GLOBAL_WINDOW_MS) (globalRestarts st)) \<ge> GLOBAL_LIMIT
      then Some GlobalLimitReached
      else None)"

definition recordRestart :: "actions_state \<Rightarrow> string \<Rightarrow> int \<Rightarrow> actions_state" where
  "recordRestart st name now =
     (let pushed = globalRestarts st @ [now];
          kept = (if length pushed > GLOBAL_LIMIT * 4
                  then filter (\<lambda>t. t \<ge> now - GLOBAL_WINDOW_MS) pushed else pushed)
      in st\<lparr>lastRestartAt := (lastRestartAt st)(name \<mapsto> now), globalRestarts := kept\<rparr>)"

definition audit_row :: "auth_user \<Rightarrow> string \<Rightarrow> string \<Rightarrow> audit_entry" where
  "audit_row user tgt result =
     \<lparr>userSub = nullish (sub user) ''unknown'', userEmail = nullish (email user) ''unknown'',
      audit_role = user_role user, audit_action = ''restart'', target = tgt, audit_result = result\<rparr>"

text \<open>Everything before the Docker call.\<close>

definition admit_restart ::
  "env \<Rightarrow> actions_state \<Rightarrow> string \<Rightarrow> service_state option \<Rightarrow> int \<Rightarrow> int \<Rightarrow> action_error + actions_state" where
  "admit_restart env st name managed c r =
     (case managed of
        None \<Rightarrow> Inl (UnknownContainer name)
      | Some m \<Rightarrow>
          if isProtected env (project m) then Inl (ProtectedProject (project m))
          else (case checkRateLimit st name c of
                  Some e \<Rightarrow> Inl e
                | None \<Rightarrow> Inr (recordRestart st name r)))"

datatype action_effect = DockerRestart string | AuditCreate audit_entry | AuditRejected audit_entry

text \<open>
  The whole handler: new state, effects in order, result.  \<open>docker_ok\<close> and \<open>audit_ok\<close> are the
  outcomes of the awaited Docker restart and of the awaited insert of the audit row; an insert
  that is rejected rejects the handler, also inside its \<open>catch\<close> block.
\<close>

definition restartContainer ::
  "env \<Rightarrow> actions_state \<Rightarrow> string \<Rightarrow> auth_user \<Rightarrow> service_state option \<Rightarrow> int \<Rightarrow> int \<Rightarrow> bool \<Rightarrow> bool
    \<Rightarrow> actions_state \<times> action_effect list \<times> (action_error + string)" where
  "restartContainer env st name user managed c r docker_ok audit_ok =
     (case admit_restart env st name managed c r of
        Inl e \<Rightarrow> (st, [], Inl e)
      | Inr st' \<Rightarrow>
          (let row = audit_row user name (if docker_ok then ''ok'' else ''error'')
           in if \<not> audit_ok then (st', [DockerRestart name, AuditRejected row], Inl AuditFailed)
              else (st', [DockerRestart name, AuditCreate row],
                    if docker_ok then Inr name else Inl (RestartFailed name))))"

section \<open>The cool-down contract\<close>

interpretation restart_gap: cooldown "\<lambda>st k now. \<not> on_cooldown st k now" recordRestart
  lastRestartAt CONTAINER_COOLDOWN_MS
  by unfold_locales
    (auto simp: on_cooldown_def recordRestart_def Let_def action_limits split: option.splits)

section \<open>Runs\<close>

text \<open>
  Any sequence of restart requests on a clock that does not go back; the ghost log holds the
  requests that reached Docker, with the time recorded for them.
\<close>

inductive actions_run :: "env \<Rightarrow> actions_state \<Rightarrow> (string \<times> int) list \<Rightarrow> int \<Rightarrow> bool" for env where
  actions_start: "actions_run env actions_init [] t0"
| actions_admitted: "\<lbrakk>actions_run env st log now; now \<le> c; c \<le> r;
     restartContainer env st name user managed c r ok aok = (st', DockerRestart name # eff, res)\<rbrakk>
    \<Longrightarrow> actions_run env st' (log @ [(name, r)]) r"
| actions_refused: "\<lbrakk>actions_run env st log now; now \<le> c; c \<le> r;
     restartContainer env st name user managed c r ok aok = (st', [], res)\<rbrakk>
    \<Longrightarrow> actions_run env st' log c"

lemma restart_reaches_docker:
  "restartContainer env st name user managed c r ok aok = (st', DockerRestart n # eff, res)
    \<longleftrightarrow> admit_restart env st name managed c r = Inr st' \<and> n = name
      \<and> eff = [(if aok then AuditCreate else AuditRejected) (audit_row user name (if ok then ''ok'' else ''error''))]
      \<and> res = (if \<not> aok then Inl AuditFailed else if ok then Inr name else Inl (RestartFailed name))"
  by (auto simp: restartContainer_def Let_def split: sum.splits if_splits)

lemma restart_refused:
  "restartContainer env st name user managed c r ok aok = (st', [], res)
    \<longleftrightarrow> (\<exists>e. admit_restart env st name managed c r = Inl e \<and> st' = st \<and> res = Inl e)"
  by (auto simp: restartContainer_def Let_def split: sum.splits if_splits)

lemma admit_restart_Inr:
  "admit_restart env st name managed c r = Inr st' \<longleftrightarrow>
     (\<exists>m. managed = Some m \<and> \<not> isProtected env (project m)) \<and> \<not> on_cooldown st name c
     \<and> length (filter (\<lambda>t. c - t < GLOBAL_WINDOW_MS) (globalRestarts st)) < GLOBAL_LIMIT
     \<and> st' = recordRestart st name r"
  by (auto simp: admit_restart_def checkRateLimit_def split: option.splits if_splits)

definition in_window :: "int \<Rightarrow> int list \<Rightarrow> nat" where
  "in_window a ts = length (filter (\<lambda>t. a \<le> t \<and> t < a + GLOBAL_WINDOW_MS) ts)"

definition recent :: "int \<Rightarrow> int list \<Rightarrow> int list" where
  "recent now ts = filter (\<lambda>t. now - t < GLOBAL_WINDOW_MS) ts"

text \<open>How the state relates to the log of the requests that reached Docker.\<close>

definition budget_inv :: "actions_state \<Rightarrow> (string \<times> int) list \<Rightarrow> int \<Rightarrow> bool" where
  "budget_inv st log now \<longleftrightarrow>
     restart_gap.tracks st log
     \<and> (\<forall>t\<in>set (map snd log). t \<le> now)
     \<and> (\<forall>n\<ge>now. recent n (globalRestarts st) = recent n (map snd log))
     \<and> (\<forall>P. length (filter P (globalRestarts st)) \<le> length (filter P (map snd log)))
     \<and> (\<forall>a. in_window a (map snd log) \<le> GLOBAL_LIMIT)"

lemma globalRestarts_record:
  "globalRestarts (recordRestart st name r) = globalRestarts st @ [r]
   \<or> globalRestarts (recordRestart st name r) =
       filter (\<lambda>t. t \<ge> r - GLOBAL_WINDOW_MS) (globalRestarts st @ [r])"
  by (simp add: recordRestart_def Let_def)

lemma recent_record:
  "r \<le> n \<Longrightarrow> recent n (globalRestarts (recordRestart st name r)) = recent n (globalRestarts st @ [r])"
  using globalRestarts_record [of st name r]
proof
  assume r: "r \<le> n" and pruned: "globalRestarts (recordRestart st name r) =
      filter (\<lambda>t. t \<ge> r - GLOBAL_WINDOW_MS) (globalRestarts st @ [r])"
  show ?thesis
    unfolding pruned recent_def filter_filter using r by (intro filter_cong) auto
qed simp

lemma filter_record:
  "length (filter P (globalRestarts (recordRestart st name r))) \<le> length (filter P (globalRestarts st @ [r]))"
  using globalRestarts_record [of st name r]
proof
  assume "globalRestarts (recordRestart st name r) =
      filter (\<lambda>t. t \<ge> r - GLOBAL_WINDOW_MS) (globalRestarts st @ [r])"
  then have "filter P (globalRestarts (recordRestart st name r))
      = filter (\<lambda>t. t \<ge> r - GLOBAL_WINDOW_MS) (filter P (globalRestarts st @ [r]))"
    by (simp only: filter_filter) (simp add: conj_commute)
  then show ?thesis by (simp only: length_filter_le)
qed simp

lemma in_window_recent:
  assumes "c \<le> r" and "a \<le> r" and "r < a + GLOBAL_WINDOW_MS"
  shows "in_window a ts \<le> length (recent c ts)"
proof -
  have "filter (\<lambda>t. a \<le> t \<and> t < a + GLOBAL_WINDOW_MS) ts
      = filter (\<lambda>t. a \<le> t \<and> t < a + GLOBAL_WINDOW_MS) (recent c ts)"
    unfolding recent_def filter_filter using assms by (intro filter_cong) auto
  then show ?thesis by (simp add: in_window_def)
qed

lemma in_window_snoc:
  "in_window a (ts @ [r]) = in_window a ts + (if a \<le> r \<and> r < a + GLOBAL_WINDOW_MS then 1 else 0)"
  by (simp add: in_window_def)

lemma budget_inv_admit:
  assumes inv: "budget_inv st log now" and t: "now \<le> c" "c \<le> r"
    and admit: "admit_restart env st name managed c r = Inr st'"
  shows "budget_inv st' (log @ [(name, r)]) r"
proof -
  from admit have st': "st' = recordRestart st name r" and cool: "\<not> on_cooldown st name c"
    and lim: "length (recent c (globalRestarts st)) < GLOBAL_LIMIT"
    by (auto simp: admit_restart_Inr recent_def)
  have tr: "restart_gap.tracks st' (log @ [(name, r)])"
    unfolding st' using inv cool t(2) by (intro restart_gap.tracks_accept) (auto simp: budget_inv_def)
  have rec: "recent n (globalRestarts st') = recent n (map snd (log @ [(name, r)]))" if "r \<le> n" for n
  proof -
    have "recent n (globalRestarts st @ [r]) = recent n (map snd log @ [r])"
      using inv that t by (auto simp: budget_inv_def recent_def)
    with recent_record [OF that] show ?thesis by (simp add: st')
  qed
  have sub: "length (filter P (globalRestarts st')) \<le> length (filter P (map snd (log @ [(name, r)])))" for P
  proof -
    have "length (filter P (globalRestarts st')) \<le> length (filter P (globalRestarts st @ [r]))"
      unfolding st' by (rule filter_record)
    also have "\<dots> \<le> length (filter P (map snd (log @ [(name, r)])))"
    proof -
      from inv have "length (filter P (globalRestarts st)) \<le> length (filter P (map snd log))"
        by (simp only: budget_inv_def)
      then show ?thesis by simp
    qed
    finally show ?thesis .
  qed
  have win: "in_window a (map snd (log @ [(name, r)])) \<le> GLOBAL_LIMIT" for a
  proof (cases "a \<le> r \<and> r < a + GLOBAL_WINDOW_MS")
    case True
    then have "in_window a (map snd log) \<le> length (recent c (map snd log))"
      using t(2) by (intro in_window_recent) auto
    also have "\<dots> < GLOBAL_LIMIT" using inv lim t(1) by (simp add: budget_inv_def)
    finally show ?thesis using True by (simp add: in_window_snoc)
  next
    case False
    with inv show ?thesis by (auto simp: in_window_snoc budget_inv_def)
  qed
  have "\<forall>u\<in>set (map snd (log @ [(name, r)])). u \<le> r"
    using inv t by (fastforce simp: budget_inv_def)
  with tr rec sub win show ?thesis unfolding budget_inv_def by blast
qed

lemma budget_inv_later: "budget_inv st log now \<Longrightarrow> now \<le> c \<Longrightarrow> budget_inv st log c"
  unfolding budget_inv_def by fastforce

lemma actions_run_inv: "actions_run env st log now \<Longrightarrow> budget_inv st log now"
proof (induction rule: actions_run.induct)
  case (actions_start t0)
  have "restart_gap.tracks actions_init []"
    by (rule restart_gap.tracks_empty) (simp add: actions_init_def)
  then show ?case by (simp add: budget_inv_def actions_init_def recent_def in_window_def)
next
  case (actions_admitted st log now c r name user managed ok aok st' eff res)
  then show ?case using budget_inv_admit restart_reaches_docker by metis
next
  case (actions_refused st log now c r name user managed ok aok st' res)
  then show ?case using budget_inv_later restart_refused by metis
qed

text \<open>The list after a prune: two adjacent windows of the log cover it.\<close>

lemma pruned_small:
  assumes "budget_inv st log r"
  shows "length (filter (\<lambda>t. t \<ge> r - GLOBAL_WINDOW_MS) (globalRestarts st)) \<le> 20"
proof -
  let ?w = "\<lambda>a t. a \<le> t \<and> t < a + GLOBAL_WINDOW_MS"
  let ?P = "\<lambda>t. t \<ge> r - GLOBAL_WINDOW_MS"
  let ?ts = "map snd log"
  have le: "\<forall>t\<in>set ?ts. t \<le> r" and win: "in_window a ?ts \<le> 10" for a
    using assms by (auto simp: budget_inv_def GLOBAL_LIMIT_def)
  have "length (filter ?P (globalRestarts st)) \<le> length (filter ?P ?ts)"
    using assms by (simp only: budget_inv_def)
  also have "filter ?P ?ts = filter (\<lambda>t. ?w (r - GLOBAL_WINDOW_MS) t \<or> ?w r t) ?ts"
    using le by (intro filter_cong) (auto simp: action_limits)
  also have "length \<dots> \<le> length (filter (?w (r - GLOBAL_WINDOW_MS)) ?ts) + length (filter (?w r) ?ts)"
    by (induction log) auto
  also have "\<dots> \<le> 20"
    using win [of "r - GLOBAL_WINDOW_MS"] win [of r] by (simp add: in_window_def)
  finally show ?thesis .
qed

lemma globalRestarts_bounded: "actions_run env st log now \<Longrightarrow> length (globalRestarts st) \<le> 40"
proof (induction rule: actions_run.induct)
  case (actions_admitted st log now c r name user managed ok aok st' eff res)
  have "actions_run env st' (log @ [(name, r)]) r"
    using actions_admitted.hyps by (rule actions_run.actions_admitted)
  then have inv: "budget_inv st' (log @ [(name, r)]) r" by (rule actions_run_inv)
  from actions_admitted.hyps have st': "st' = recordRestart st name r"
    by (auto simp: restart_reaches_docker admit_restart_Inr)
  show ?case
  proof (cases "length (globalRestarts st @ [r]) > GLOBAL_LIMIT * 4")
    case True
    then have "globalRestarts st' = filter (\<lambda>t. t \<ge> r - GLOBAL_WINDOW_MS) (globalRestarts st')"
      by (simp add: st' recordRestart_def Let_def)
    with pruned_small [OF inv] show ?thesis by simp
  next
    case False
    then show ?thesis by (simp add: st' recordRestart_def Let_def GLOBAL_LIMIT_def)
  qed
qed (auto simp: actions_init_def restart_refused)

text \<open>
  Cool-down.  Two restarts of the same container that reach Docker are at least 30 s
  apart, however many requests arrive in between and whatever their outcome.
\<close>

theorem restarts_of_container_spaced:
  assumes "actions_run env st log now" and "i < j" and "j < length log"
    and "fst (log ! i) = fst (log ! j)"
  shows "snd (log ! i) + 30000 \<le> snd (log ! j)"
proof -
  have "spaced CONTAINER_COOLDOWN_MS log"
    using actions_run_inv [OF assms(1)] by (auto simp: budget_inv_def intro: restart_gap.tracks_spaced)
  from spaced_nth [OF this assms(2-4)] show ?thesis by (simp add: action_limits)
qed

text \<open>
  C23: global budget.  Any window of five minutes contains at most ten restarts, whatever the
  containers, and the remembered list never holds more than forty entries.
\<close>

theorem restart_budget:
  assumes "actions_run env st log now"
  shows "length (filter (\<lambda>t. a \<le> t \<and> t < a + 300000) (map snd log)) \<le> 10
    \<and> length (globalRestarts st) \<le> 40"
proof -
  from actions_run_inv [OF assms] have "in_window a (map snd log) \<le> GLOBAL_LIMIT"
    by (simp add: budget_inv_def)
  then show ?thesis
    using globalRestarts_bounded [OF assms] by (simp add: in_window_def action_limits)
qed

text \<open>
  The bounded state decides like the full history.  A request goes through to Docker
  exactly when the container is managed and not protected, it was not restarted in the last
  30 s, and fewer than ten restarts happened in the last five minutes, counted over the whole
  log of the run and not over the pruned list.
\<close>

theorem restart_decided_by_history:
  assumes "actions_run env st log now" and "now \<le> c"
  shows "(\<exists>st'. admit_restart env st name managed c r = Inr st') \<longleftrightarrow>
    (\<exists>m. managed = Some m \<and> \<not> isProtected env (project m))
    \<and> list_all (\<lambda>(n, t). n \<noteq> name \<or> t + 30000 \<le> c) log
    \<and> length (filter (\<lambda>t. c - t < 300000) (map snd log)) < 10"
proof -
  from actions_run_inv [OF assms(1)] have inv: "budget_inv st log now" .
  have cool: "\<not> on_cooldown st name c \<longleftrightarrow> list_all (\<lambda>(n, t). n \<noteq> name \<or> t + 30000 \<le> c) log"
    using inv restart_gap.tracks_ready [of st log name c]
    by (auto simp: budget_inv_def list_all_iff action_limits)
  have "recent c (globalRestarts st) = recent c (map snd log)"
    using inv assms(2) by (simp add: budget_inv_def)
  then have "length (filter (\<lambda>t. c - t < GLOBAL_WINDOW_MS) (globalRestarts st))
      = length (filter (\<lambda>t. c - t < 300000) (map snd log))"
    by (simp add: recent_def action_limits del: filter_map)
  with cool show ?thesis by (auto simp: admit_restart_Inr GLOBAL_LIMIT_def)
qed

text \<open>A run with two restarts of one container and a refused one in between.\<close>

definition web_state :: service_state where
  "web_state = \<lparr>sid = ''1'', sname = ''web'', service = ''web'', project = ''shop'', img = ''i'',
     status = Running, health = NoHealth, startedAt = None, uptimeSec = None\<rparr>"

definition op_user :: auth_user where
  "op_user = \<lparr>sub = Some ''u1'', email = None, user_role = Operator\<rparr>"

lemma web_not_protected [simp]: "\<not> isProtected (\<lambda>_. None) (project web_state)"
  by (simp add: isProtected_def DEFAULT_PROTECTED_PROJECTS_def web_state_def js_trim_def js_space_def)

lemma two_restarts: "\<exists>st. actions_run (\<lambda>_. None) st [(''web'', 5), (''web'', 30007)] 30007"
proof -
  let ?s1 = "recordRestart actions_init ''web'' 5"
  let ?s2 = "recordRestart ?s1 ''web'' 30007"
  have 1: "actions_run (\<lambda>_. None) ?s1 ([] @ [(''web'', 5)]) 5"
    by (rule actions_admitted [OF actions_start [of _ 0], where c = 4 and ok = True and aok = True
          and user = op_user and managed = "Some web_state"])
      (simp_all add: restart_reaches_docker admit_restart_Inr actions_init_def on_cooldown_def
        GLOBAL_LIMIT_def)
  have 2: "actions_run (\<lambda>_. None) ?s1 ([] @ [(''web'', 5)]) 1000"
    by (rule actions_refused [OF 1, where c = 1000 and r = 1000 and ok = True and aok = True
          and user = op_user and managed = "Some web_state" and name = "''web''"])
      (simp_all add: restart_refused admit_restart_def checkRateLimit_def recordRestart_def
        on_cooldown_def actions_init_def action_limits Let_def)
  have "actions_run (\<lambda>_. None) ?s2 (([] @ [(''web'', 5)]) @ [(''web'', 30007)]) 30007"
    by (rule actions_admitted [OF 2, where c = 30006 and ok = False and aok = False
          and user = op_user and managed = "Some web_state"])
      (simp_all add: restart_reaches_docker admit_restart_Inr recordRestart_def on_cooldown_def
        actions_init_def action_limits Let_def)
  then show ?thesis by auto
qed

theorem restarts_of_container_spaced_witness:
  "snd ([(''web'', 5), (''web'', 30007)] ! 0) + 30000 \<le> snd ([(''web'', 5), (''web'', 30007)] ! 1 :: string \<times> int)"
proof -
  from two_restarts obtain st where "actions_run (\<lambda>_. None) st [(''web'', 5), (''web'', 30007)] 30007"
    by blast
  from restarts_of_container_spaced [OF this, of 0 1] show ?thesis by simp
qed

theorem restart_budget_witness:
  "\<exists>st :: actions_state. length (filter (\<lambda>t. 0 \<le> t \<and> t < 0 + 300000)
       (map snd [(''web'', 5), (''web'', 30007 :: int)])) \<le> 10 \<and> length (globalRestarts st) \<le> 40"
proof -
  from two_restarts obtain st where "actions_run (\<lambda>_. None) st [(''web'', 5), (''web'', 30007)] 30007"
    by blast
  from restart_budget [OF this, of 0] show ?thesis by blast
qed

theorem restart_decided_by_history_witness:
  "\<exists>st. \<not> (\<exists>st'. admit_restart (\<lambda>_. None) st ''web'' (Some web_state) 60000 60000 = Inr st')
     \<and> (\<exists>st'. admit_restart (\<lambda>_. None) st ''web'' (Some web_state) 60007 60007 = Inr st')"
proof -
  from two_restarts obtain st where run: "actions_run (\<lambda>_. None) st [(''web'', 5), (''web'', 30007)] 30007"
    by blast
  show ?thesis
    using restart_decided_by_history [OF run, of 60000 "''web''" "Some web_state" 60000]
      restart_decided_by_history [OF run, of 60007 "''web''" "Some web_state" 60007]
    by (intro exI [of _ st]) simp
qed

end
