(* ===== verification/Auth.thy ===== *)
theory Auth
  imports Http Shared
begin

text \<open>
  apps/api/src/auth: token validation (token.service.ts, jwks.provider.ts), the global REST
  guard (auth.guard.ts, roles.decorator.ts), the WebSocket handshake (ws-auth.middleware.ts)
  and the login BFF (auth.controller.ts, auth-proxy.service.ts).

  The packages jsonwebtoken and jwks-rsa are arguments, collected in a record: \<open>jwt_verify\<close>
  (token, key, accepted algorithms, required issuer) is \<open>None\<close> when it throws, \<open>jwt_kid\<close> is
  \<open>jwt.decode(...)\<close> reduced to the key id, \<open>signing_key\<close> is the JWKS lookup.
\<close>

section \<open>TokenService and JwksKeyProvider\<close>

record jwt_lib =
  jwt_verify :: "string \<Rightarrow> string \<Rightarrow> string list \<Rightarrow> string option \<Rightarrow> json option"
  jwt_kid :: "string \<Rightarrow> string option option"
  signing_key :: "string \<Rightarrow> string option \<Rightarrow> string option"

definition DEFAULT_ISSUER :: string where
  "DEFAULT_ISSUER = ''https://auth.corecodeinnovation.com''"

definition getPublicKey :: "jwt_lib \<Rightarrow> env \<Rightarrow> string option \<Rightarrow> string option" where
  "getPublicKey lib env kid =
     (if truthy (env ''AUTH_JWKS_URL'') then signing_key lib (the (env ''AUTH_JWKS_URL'')) kid else None)"

text \<open>\<open>assertPayload\<close>: a string payload throws.\<close>

definition assertPayload :: "json option \<Rightarrow> json option" where
  "assertPayload d = (case d of None \<Rightarrow> None | Some (JStr _) \<Rightarrow> None | Some p \<Rightarrow> Some p)"

definition verify :: "jwt_lib \<Rightarrow> env \<Rightarrow> string \<Rightarrow> json option" where
  "verify lib env token =
     (if truthy (env ''AUTH_JWT_SECRET'')
      then assertPayload (jwt_verify lib token (the (env ''AUTH_JWT_SECRET'')) [''HS256''] None)
      else (case jwt_kid lib token of
              None \<Rightarrow> None
            | Some kid \<Rightarrow>
                (case getPublicKey lib env kid of
                   None \<Rightarrow> None
                 | Some key \<Rightarrow> assertPayload (jwt_verify lib token key [''RS256'']
                     (Some (nullish (env ''AUTH_ISSUER'') DEFAULT_ISSUER))))))"

text \<open>\<open>Array.isArray(roles) ? roles.filter(typeof string) : []\<close>\<close>

definition payload_claims :: "json \<Rightarrow> string list" where
  "payload_claims p = (case jfield ''roles'' p of
     Some (JArr xs) \<Rightarrow> List.map_filter (\<lambda>x. jstring (Some x)) xs
   | _ \<Rightarrow> [])"

definition authenticate :: "jwt_lib \<Rightarrow> env \<Rightarrow> string option \<Rightarrow> auth_user" where
  "authenticate lib env token =
     (if \<not> truthy token then ANONYMOUS
      else (case verify lib env (the token) of
              None \<Rightarrow> ANONYMOUS
            | Some payload \<Rightarrow>
                (case jstring (jfield ''sub'' payload) of
                   None \<Rightarrow> ANONYMOUS
                 | Some s \<Rightarrow>
                     if length s = 0 then ANONYMOUS
                     else \<lparr>sub = Some s, email = jstring (jfield ''email'' payload),
                           user_role = roleFromClaims (payload_claims payload)\<rparr>)))"

lemma authenticate_identified:
  assumes "authenticate lib env token = u" and "u \<noteq> ANONYMOUS"
  obtains t p s where "token = Some t" "t \<noteq> []" "verify lib env t = Some p"
    "jfield ''sub'' p = Some (JStr s)" "s \<noteq> []" "sub u = Some s"
    "user_role u = roleFromClaims (payload_claims p)"
  using assms that by (auto simp: authenticate_def truthy_iff split: if_splits option.splits)

lemma verify_Some:
  assumes "verify lib env t = Some p"
  shows "(\<exists>secret. env ''AUTH_JWT_SECRET'' = Some secret \<and> secret \<noteq> []
            \<and> jwt_verify lib t secret [''HS256''] None = Some p)
       \<or> (\<not> truthy (env ''AUTH_JWT_SECRET'')
            \<and> (\<exists>key. jwt_verify lib t key [''RS256''] (Some (nullish (env ''AUTH_ISSUER'') DEFAULT_ISSUER)) = Some p))"
  using assms
  by (auto simp: verify_def assertPayload_def truthy_iff split: if_splits option.splits json.splits)

section \<open>The contract of an authenticator\<close>

text \<open>
  What guard and handshake rely on: authentication never fails, no token is nobody, and
  nobody has no role above viewer.
\<close>

locale authenticator =
  fixes auth :: "string option \<Rightarrow> auth_user"
  assumes auth_none: "auth None = ANONYMOUS"
    and auth_empty: "auth (Some []) = ANONYMOUS"
    and auth_nobody: "sub (auth t) = None \<Longrightarrow> auth t = ANONYMOUS"
begin

lemma nobody_is_viewer: "sub (auth t) = None \<Longrightarrow> user_role (auth t) = Viewer"
  using auth_nobody [of t] by simp

lemma above_viewer_identified: "user_role (auth t) \<noteq> Viewer \<Longrightarrow> \<exists>s. sub (auth t) = Some s"
  using nobody_is_viewer [of t] by (cases "sub (auth t)") auto

lemma auth_falsy: "\<not> truthy t \<Longrightarrow> auth t = ANONYMOUS"
  by (cases t) (auto simp: auth_none auth_empty)

end

interpretation token_service: authenticator "authenticate lib env" for lib env
proof unfold_locales
  show "authenticate lib env None = ANONYMOUS" "authenticate lib env (Some []) = ANONYMOUS"
    by (simp_all add: authenticate_def)
  show "authenticate lib env t = ANONYMOUS" if "sub (authenticate lib env t) = None" for t
    using that authenticate_identified [of lib env t] by (metis option.distinct(1))
qed

section \<open>AuthGuard\<close>

definition BEARER :: string where "BEARER = ''Bearer ''"

text \<open>\<open>extractToken\<close> of the guard: the authorization header after \<open>"Bearer "\<close>.\<close>

definition bearer_token :: "string option \<Rightarrow> string option" where
  "bearer_token header = (case header of None \<Rightarrow> None
     | Some raw \<Rightarrow> if starts_with raw BEARER then Some (drop (length BEARER) raw) else None)"

lemma bearer_token_Some: "bearer_token h = Some t \<longleftrightarrow> h = Some (BEARER @ t)"
  by (auto simp: bearer_token_def starts_with_iff split: option.splits)

text \<open>\<open>reflector.getAllAndOverride\<close>: the handler's decorator, else the controller's.\<close>

definition min_role :: "role option \<Rightarrow> role option \<Rightarrow> role option" where
  "min_role on_handler on_class = (case on_handler of None \<Rightarrow> on_class | Some r \<Rightarrow> Some r)"

text \<open>\<open>canActivate\<close>: the request's user, or the exception thrown.\<close>

definition canActivate ::
  "(string option \<Rightarrow> auth_user) \<Rightarrow> string option \<Rightarrow> role option \<Rightarrow> http_error + auth_user" where
  "canActivate auth header minRole =
     (let user = auth (bearer_token header)
      in case minRole of
           None \<Rightarrow> Inr user
         | Some r \<Rightarrow>
             if hasRole user r then Inr user
             else if sub user = None then Inl Unauthorized
             else Inl Forbidden)"

text \<open>The controllers and the roles their decorators require.\<close>

datatype route =
  RestartAction | AlertSettingsList | AlertSettingsUpdate | AlertsFeed | AuditLogList
| SecurityAuditList | JobsDemo | JobsList | JobsRefresh | TaskforgeStatus
| MetricsLive | MetricsHistory | Health | HealthDependencies
| AuthLogin | AuthTwoFactor | AuthRefresh | AuthLogout | AuthMe

fun class_role :: "route \<Rightarrow> role option" where
  "class_role RestartAction = Some Operator"
| "class_role AlertSettingsList = Some Admin"
| "class_role AlertSettingsUpdate = Some Admin"
| "class_role AuditLogList = Some Admin"
| "class_role SecurityAuditList = Some Admin"
| "class_role JobsDemo = Some Operator"
| "class_role JobsList = Some Operator"
| "class_role JobsRefresh = Some Operator"
| "class_role TaskforgeStatus = Some Operator"
| "class_role _ = None"

text \<open>No handler of the program carries a decorator of its own.\<close>

definition guard_route ::
  "jwt_lib \<Rightarrow> env \<Rightarrow> string option \<Rightarrow> route \<Rightarrow> http_error + auth_user" where
  "guard_route lib env header r = canActivate (authenticate lib env) header (min_role None (class_role r))"

lemma canActivate_Inr:
  "canActivate auth header m = Inr u \<longleftrightarrow>
     u = auth (bearer_token header) \<and> (\<forall>r. m = Some r \<longrightarrow> r \<le> user_role u)"
  by (auto simp: canActivate_def Let_def hasRole_iff split: option.splits)

context authenticator begin

lemma guard_rejects:
  "canActivate auth header (Some r) = Inl e \<longleftrightarrow>
     \<not> r \<le> user_role (auth (bearer_token header))
     \<and> e = (if auth (bearer_token header) = ANONYMOUS then Unauthorized else Forbidden)"
  using auth_nobody [of "bearer_token header"]
  by (auto simp: canActivate_def Let_def hasRole_iff)

lemma guard_without_token:
  "bearer_token header = None \<Longrightarrow>
    canActivate auth header (Some r) = (if r = Viewer then Inr ANONYMOUS else Inl Unauthorized)"
  by (simp add: canActivate_def auth_none)

end

lemma guard_route_verified:
  assumes "guard_route lib env header r = Inr u" and "class_role r = Some m"
  obtains t p s where "header = Some (BEARER @ t)" "verify lib env t = Some p" "sub u = Some s" "s \<noteq> []"
    "jfield ''sub'' p = Some (JStr s)"
    "''ADMIN'' \<in> set (payload_claims p) \<or> m = Operator \<and> ''OPERATOR'' \<in> set (payload_claims p)"
proof -
  from assms have u: "authenticate lib env (bearer_token header) = u" and m: "m \<le> user_role u"
    by (auto simp: guard_route_def min_role_def canActivate_Inr)
  from assms(2) have op: "m = Operator \<or> m = Admin" by (cases r) auto
  with m have role: "user_role u \<noteq> Viewer" by auto
  then have "u \<noteq> ANONYMOUS" by auto
  from authenticate_identified [OF u this] obtain t p s where
    t: "bearer_token header = Some t" and p: "verify lib env t = Some p"
    and s: "jfield ''sub'' p = Some (JStr s)" "s \<noteq> []" "sub u = Some s"
    and r: "user_role u = roleFromClaims (payload_claims p)" by metis
  have "''ADMIN'' \<in> set (payload_claims p) \<or> m = Operator \<and> ''OPERATOR'' \<in> set (payload_claims p)"
    using op m role r by (cases "payload_claims p" rule: roleFromClaims_cases) auto
  with t s p show ?thesis by (intro that) (auto simp: bearer_token_Some)
qed

text \<open>
  No access without a verified claim.  A request that passes the guard of a route with a
  required role carries a bearer token that the JWT library accepted (HS256 under the shared
  secret if one is configured, otherwise RS256 with the configured issuer and no other
  algorithm), whose subject is a non-empty string and whose roles contain \<open>ADMIN\<close>, or
  \<open>OPERATOR\<close> where that is enough.
\<close>

theorem protected_route_needs_verified_claim:
  assumes "guard_route lib env header r = Inr u" and "class_role r = Some m"
  shows "\<exists>t p s. header = Some (BEARER @ t) \<and> sub u = Some s \<and> s \<noteq> []
    \<and> jfield ''sub'' p = Some (JStr s)
    \<and> (''ADMIN'' \<in> set (payload_claims p) \<or> m = Operator \<and> ''OPERATOR'' \<in> set (payload_claims p))
    \<and> ((\<exists>secret. env ''AUTH_JWT_SECRET'' = Some secret \<and> secret \<noteq> []
            \<and> jwt_verify lib t secret [''HS256''] None = Some p)
       \<or> (\<not> truthy (env ''AUTH_JWT_SECRET'')
            \<and> (\<exists>key. jwt_verify lib t key [''RS256'']
                  (Some (nullish (env ''AUTH_ISSUER'') DEFAULT_ISSUER)) = Some p)))"
proof (rule guard_route_verified [OF assms])
  fix t p s
  assume h: "header = Some (BEARER @ t)" "sub u = Some s" "s \<noteq> []" "jfield ''sub'' p = Some (JStr s)"
    "''ADMIN'' \<in> set (payload_claims p) \<or> m = Operator \<and> ''OPERATOR'' \<in> set (payload_claims p)"
    and v: "verify lib env t = Some p"
  from verify_Some [OF v] show ?thesis
    by (intro exI [of _ t] exI [of _ p] exI [of _ s] conjI h)
qed

text \<open>A library that accepts one token, under the shared secret \<open>k\<close> and HS256 only.\<close>

definition demo_payload :: json where
  "demo_payload = JObj [(''sub'', JStr ''u1''), (''roles'', JArr [JStr ''OPERATOR'', JNull])]"

definition demo_lib :: jwt_lib where
  "demo_lib = \<lparr>jwt_verify = (\<lambda>t k algs iss. if t = ''tok'' \<and> k = ''k'' \<and> algs = [''HS256''] then Some demo_payload else None),
     jwt_kid = (\<lambda>_. None), signing_key = (\<lambda>_ _. None)\<rparr>"

definition demo_env :: env where
  "demo_env = (\<lambda>v. if v = ''AUTH_JWT_SECRET'' then Some ''k'' else None)"

lemma demo_guard:
  "guard_route demo_lib demo_env (Some ''Bearer tok'') RestartAction
    = Inr \<lparr>sub = Some ''u1'', email = None, user_role = Operator\<rparr>"
  by (simp add: guard_route_def min_role_def canActivate_def bearer_token_def starts_with_def BEARER_def
      authenticate_def verify_def demo_env_def demo_lib_def demo_payload_def assertPayload_def
      payload_claims_def map_filter_def roleFromClaims_def hasRole_def)

theorem protected_route_needs_verified_claim_witness:
  "guard_route demo_lib demo_env (Some ''Bearer tok'') RestartAction
     = Inr \<lparr>sub = Some ''u1'', email = None, user_role = Operator\<rparr>
   \<and> (\<exists>t p. ''Bearer tok'' = BEARER @ t \<and> jfield ''sub'' p = Some (JStr ''u1'')
    \<and> jwt_verify demo_lib t ''k'' [''HS256''] None = Some p)"
  using protected_route_needs_verified_claim [OF demo_guard, of Operator] demo_guard
  by (auto simp: demo_env_def)

section \<open>WebSocket handshake\<close>

text \<open>\<open>extractToken\<close> of ws-auth.middleware.ts: \<open>handshake.auth.token\<close>, else the header.\<close>

definition ws_token :: "json option \<Rightarrow> string option \<Rightarrow> string option" where
  "ws_token auth_token header = (case jstring auth_token of
     Some s \<Rightarrow> if length s > 0 then Some s else bearer_token header
   | None \<Rightarrow> bearer_token header)"

text \<open>The middleware: the user stored in \<open>socket.data\<close>, or the error passed to \<open>next\<close>.  The
  promise of \<open>authenticate\<close> never rejects, so the error branch is never taken.\<close>

definition ws_handshake ::
  "(string option \<Rightarrow> auth_user) \<Rightarrow> json option \<Rightarrow> string option \<Rightarrow> http_error + auth_user" where
  "ws_handshake auth auth_token header = Inr (auth (ws_token auth_token header))"

text \<open>
  REST and WebSocket agree on who the caller is.  A token sent in \<open>handshake.auth\<close> or in
  the header of the handshake gives the same user as the same token sent as a bearer token to
  a public route, and a caller without a non-empty token is anonymous on both.
\<close>

theorem handshake_agrees_with_guard:
  shows "\<exists>u. ws_handshake (authenticate lib env) (Some (JStr t)) None = Inr u
      \<and> ws_handshake (authenticate lib env) None (Some (BEARER @ t)) = Inr u
      \<and> guard_route lib env (Some (BEARER @ t)) AuthMe = Inr u
      \<and> (u = ANONYMOUS \<or> t \<noteq> [] \<and> (\<exists>p s. verify lib env t = Some p \<and> sub u = Some s))"
proof -
  let ?u = "authenticate lib env (Some t)"
  have b: "bearer_token (Some (BEARER @ t)) = Some t" by (simp add: bearer_token_Some)
  have n: "bearer_token None = None" by (simp add: bearer_token_def)
  have "ws_handshake (authenticate lib env) (Some (JStr t)) None = Inr ?u"
    by (cases t) (auto simp: ws_handshake_def ws_token_def n token_service.auth_falsy)
  moreover have "?u = ANONYMOUS \<or> t \<noteq> [] \<and> (\<exists>p s. verify lib env t = Some p \<and> sub ?u = Some s)"
    by (metis authenticate_identified option.inject)
  ultimately show ?thesis
    by (auto simp: ws_handshake_def ws_token_def b guard_route_def min_role_def canActivate_def)
qed

end
