(* ===== verification/AuthBff.thy ===== *)
theory AuthBff
  imports Auth
begin

text \<open>
  apps/api/src/auth/auth.controller.ts and auth-proxy.service.ts: the login endpoints that
  forward to cci-auth-service.  \<open>post\<close> stands for the awaited \<open>fetch\<close>; each handler returns
  the requests it sent along with its result, so that "nothing was sent" can be stated.
  A request body that is missing altogether (\<open>None\<close>) makes the property access throw.
\<close>

section \<open>AuthProxyService\<close>

type_synonym auth_call = "string \<times> (string \<times> json) list"
type_synonym auth_post = "string \<Rightarrow> (string \<times> json) list \<Rightarrow> http_outcome"

definition forward :: "env \<Rightarrow> auth_post \<Rightarrow> string \<Rightarrow> (string \<times> json) list \<Rightarrow> auth_call list \<times> (http_error + json)" where
  "forward env post path body =
     (if \<not> truthy (env ''AUTH_SERVICE_URL'')
      then ([], Inl (ServiceUnavailable (NotConfigured ''AUTH_SERVICE_URL'')))
      else ([(path, body)],
            (case post path body of
               NetFail \<Rightarrow> Inl (ServiceUnavailable (Unreachable ''cci-auth-service''))
             | Resp st b \<Rightarrow>
                 if \<not> resp_ok st then Inl (UpstreamError (json_or_empty b) st)
                 else Inr (json_or_empty b))))"

section \<open>AuthController\<close>

fun jtruthy :: "json option \<Rightarrow> bool" where
  "jtruthy None = False"
| "jtruthy (Some JNull) = False"
| "jtruthy (Some (JBool b)) = b"
| "jtruthy (Some (JNum q)) = (q \<noteq> 0)"
| "jtruthy (Some (JStr s)) = (s \<noteq> [])"
| "jtruthy (Some _) = True"

definition missing_fields :: "json \<Rightarrow> string list \<Rightarrow> string list" where
  "missing_fields body fs = filter (\<lambda>f. \<not> jtruthy (jfield f body)) fs"

text \<open>\<open>requireFields\<close> followed by the forwarding of exactly those fields.\<close>

definition require_and_forward ::
  "env \<Rightarrow> auth_post \<Rightarrow> json option \<Rightarrow> string \<Rightarrow> string list \<Rightarrow> auth_call list \<times> (http_error + json)" where
  "require_and_forward env post body path fs =
     (case body of
        None \<Rightarrow> ([], Inl UncheckedError)
      | Some JNull \<Rightarrow> ([], Inl UncheckedError)
      | Some b \<Rightarrow>
          if missing_fields b fs \<noteq> [] then ([], Inl (BadRequest (MissingFields (missing_fields b fs))))
          else forward env post path (map (\<lambda>f. (f, the (jfield f b))) fs))"

definition login :: "env \<Rightarrow> auth_post \<Rightarrow> json option \<Rightarrow> auth_call list \<times> (http_error + json)" where
  "login env post body = require_and_forward env post body ''/auth/login'' [''email'', ''password'']"

definition verifyTwoFactor :: "env \<Rightarrow> auth_post \<Rightarrow> json option \<Rightarrow> auth_call list \<times> (http_error + json)" where
  "verifyTwoFactor env post body = require_and_forward env post body ''/2fa/verify'' [''challengeToken'', ''code'']"

definition refresh :: "env \<Rightarrow> auth_post \<Rightarrow> json option \<Rightarrow> auth_call list \<times> (http_error + json)" where
  "refresh env post body = require_and_forward env post body ''/auth/refresh'' [''refreshToken'']"

text \<open>\<open>logout\<close> swallows whatever the proxy throws; \<open>Inr ()\<close> is the fixed message.\<close>

definition logout :: "env \<Rightarrow> auth_post \<Rightarrow> json option \<Rightarrow> auth_call list \<times> (http_error + unit)" where
  "logout env post body =
     (case body of
        None \<Rightarrow> ([], Inl UncheckedError)
      | Some JNull \<Rightarrow> ([], Inl UncheckedError)
      | Some b \<Rightarrow>
          (if jtruthy (jfield ''refreshToken'' b)
           then fst (forward env post ''/auth/logout'' [(''refreshToken'', the (jfield ''refreshToken'' b))])
           else [], Inr ()))"

lemma missing_fields_Nil: "missing_fields b fs = [] \<longleftrightarrow> (\<forall>f\<in>set fs. jtruthy (jfield f b))"
  by (simp add: missing_fields_def filter_empty_conv)

lemma require_and_forward_calls:
  "fst (require_and_forward env post body path fs) =
     (case body of None \<Rightarrow> [] | Some b \<Rightarrow>
        if b \<noteq> JNull \<and> (\<forall>f\<in>set fs. jtruthy (jfield f b)) \<and> truthy (env ''AUTH_SERVICE_URL'')
        then [(path, map (\<lambda>f. (f, the (jfield f b))) fs)] else [])"
  by (auto simp: require_and_forward_def forward_def missing_fields_Nil [symmetric] split: option.splits json.splits)

text \<open>
  Credentials leave the process only when complete.  Login contacts cci-auth-service at
  most once, exactly when the service is configured and both fields are present and truthy,
  and then with these two fields and nothing else; an error answer of the service reaches the
  caller with the service's own status and body.
\<close>

theorem login_forwards_complete_credentials:
  shows "fst (login env post body) =
      (case body of None \<Rightarrow> [] | Some b \<Rightarrow>
         if jtruthy (jfield ''email'' b) \<and> jtruthy (jfield ''password'' b) \<and> truthy (env ''AUTH_SERVICE_URL'')
         then [(''/auth/login'', [(''email'', the (jfield ''email'' b)), (''password'', the (jfield ''password'' b))])]
         else [])
    \<and> (fst (login env post body) = [c] \<and> post (fst c) (snd c) = Resp st (Some d) \<and> \<not> resp_ok st
        \<longrightarrow> snd (login env post body) = Inl (UpstreamError d st))"
proof
  show "fst (login env post body) =
      (case body of None \<Rightarrow> [] | Some b \<Rightarrow>
         if jtruthy (jfield ''email'' b) \<and> jtruthy (jfield ''password'' b) \<and> truthy (env ''AUTH_SERVICE_URL'')
         then [(''/auth/login'', [(''email'', the (jfield ''email'' b)), (''password'', the (jfield ''password'' b))])]
         else [])"
    by (cases body) (auto simp: login_def require_and_forward_calls)
  show "fst (login env post body) = [c] \<and> post (fst c) (snd c) = Resp st (Some d) \<and> \<not> resp_ok st
        \<longrightarrow> snd (login env post body) = Inl (UpstreamError d st)"
    by (auto simp: login_def require_and_forward_def forward_def split: option.splits json.splits if_splits)
qed

definition demo_login_body :: json where
  "demo_login_body = JObj [(''email'', JStr ''a''), (''password'', JStr ''b'')]"

theorem login_forwards_complete_credentials_witness:
  "snd (login (\<lambda>_. Some ''u'') (\<lambda>_ _. Resp 401 (Some (JStr ''no''))) (Some demo_login_body))
    = Inl (UpstreamError (JStr ''no'') 401)"
proof -
  have c: "fst (login (\<lambda>_. Some ''u'') (\<lambda>_ _. Resp 401 (Some (JStr ''no''))) (Some demo_login_body))
    = [(''/auth/login'', [(''email'', JStr ''a''), (''password'', JStr ''b'')])]"
    using login_forwards_complete_credentials [of "\<lambda>_. Some ''u''" _ "Some demo_login_body"]
    by (simp add: demo_login_body_def)
  show ?thesis
    using login_forwards_complete_credentials [of "\<lambda>_. Some ''u''" "\<lambda>_ _. Resp 401 (Some (JStr ''no''))"
        "Some demo_login_body" "(''/auth/login'', [(''email'', JStr ''a''), (''password'', JStr ''b'')])" 401 "JStr ''no''"] c
    by (simp add: resp_ok_def)
qed

end
