(* ===== verification/JsNumber.thy ===== *)
theory JsNumber
  imports Http "HOL-Library.Log_Nat"
begin

text \<open>
  \<open>Number(s)\<close> of a string and \<open>String(n)\<close> of an integer, as ECMAScript defines them, and the
  query-parameter parsers of the controllers built on them (metrics, audit, security audit,
  alert feed).  A number is NaN, an infinity or a finite value rounded to a double; the two
  zeros are one.
\<close>

section \<open>Doubles\<close>

datatype jsnum = NaN | PosInf | NegInf | Fin rat

definition round_even :: "rat \<Rightarrow> int" where
  "round_even x = (let f = \<lfloor>x\<rfloor>; r = x - of_int f
     in if r < 1/2 then f else if 1/2 < r then f + 1 else if even f then f else f + 1)"

definition pow_int :: "rat \<Rightarrow> int \<Rightarrow> rat" where
  "pow_int b e = (if 0 \<le> e then b ^ nat e else 1 / b ^ nat (- e))"

text \<open>The exponent of the last place of the double next to \<open>q > 0\<close> (never below -1074).\<close>

definition log2_floor :: "rat \<Rightarrow> int" where
  "log2_floor q = (let (n, d) = quotient_of q; k = bitlen n - bitlen d
     in if pow_int 2 k \<le> q then k else k - 1)"

definition last_place :: "rat \<Rightarrow> int" where
  "last_place q = max (-1074) (log2_floor q - 52)"

definition round_pos :: "rat \<Rightarrow> jsnum" where
  "round_pos q = (let e = last_place q; v = of_int (round_even (q / pow_int 2 e)) * pow_int 2 e
     in if 2 ^ 1024 \<le> v then PosInf else Fin v)"

fun neg_num :: "jsnum \<Rightarrow> jsnum" where
  "neg_num NaN = NaN"
| "neg_num PosInf = NegInf"
| "neg_num NegInf = PosInf"
| "neg_num (Fin q) = Fin (- q)"

definition round_double :: "rat \<Rightarrow> jsnum" where
  "round_double q = (if q = 0 then Fin 0 else if 0 < q then round_pos q else neg_num (round_pos (- q)))"

section \<open>Number(s)\<close>

definition digit_val :: "char \<Rightarrow> nat option" where
  "digit_val c = (let n = (of_char c :: nat) in
     if 48 \<le> n \<and> n \<le> 57 then Some (n - 48)
     else if 97 \<le> n \<and> n \<le> 122 then Some (n - 87)
     else if 65 \<le> n \<and> n \<le> 90 then Some (n - 55) else None)"

definition is_digit :: "nat \<Rightarrow> char \<Rightarrow> bool" where
  "is_digit b c = (case digit_val c of None \<Rightarrow> False | Some d \<Rightarrow> d < b)"

definition digits_val :: "nat \<Rightarrow> string \<Rightarrow> nat" where
  "digits_val b s = foldl (\<lambda>acc c. acc * b + nullish (digit_val c) 0) 0 s"

definition exponent_part :: "string \<Rightarrow> int option" where
  "exponent_part s = (case s of [] \<Rightarrow> Some 0
     | c # r \<Rightarrow>
         if c \<notin> {CHR ''e'', CHR ''E''} then None
         else (let (neg, ds) = (case r of [] \<Rightarrow> (False, [])
                  | x # r' \<Rightarrow> if x = CHR ''-'' then (True, r') else if x = CHR ''+'' then (False, r') else (False, r))
               in if ds = [] \<or> \<not> list_all (is_digit 10) ds then None
                  else Some (if neg then - int (digits_val 10 ds) else int (digits_val 10 ds))))"

definition decimal_part :: "string \<Rightarrow> rat option" where
  "decimal_part s =
     (let a = takeWhile (is_digit 10) s; r = dropWhile (is_digit 10) s;
          (b, r2) = (case r of [] \<Rightarrow> ([], r)
             | c # r' \<Rightarrow> if c = CHR ''.'' then (takeWhile (is_digit 10) r', dropWhile (is_digit 10) r') else ([], r))
      in if a = [] \<and> b = [] then None
         else (case exponent_part r2 of None \<Rightarrow> None
           | Some e \<Rightarrow> Some (of_nat (digits_val 10 (a @ b)) * pow_int 10 (e - int (length b)))))"

definition unsigned_num :: "string \<Rightarrow> jsnum" where
  "unsigned_num s =
     (if s = ''Infinity'' then PosInf
      else case decimal_part s of None \<Rightarrow> NaN | Some q \<Rightarrow> round_double q)"

definition prefixed_num :: "nat \<Rightarrow> string \<Rightarrow> jsnum" where
  "prefixed_num b ds =
     (if ds = [] \<or> \<not> list_all (is_digit b) ds then NaN else round_double (of_nat (digits_val b ds)))"

definition radix_of :: "char \<Rightarrow> nat option" where
  "radix_of c = (if c \<in> {CHR ''x'', CHR ''X''} then Some 16
     else if c \<in> {CHR ''o'', CHR ''O''} then Some 8
     else if c \<in> {CHR ''b'', CHR ''B''} then Some 2 else None)"

fun trimmed_num :: "string \<Rightarrow> jsnum" where
  "trimmed_num [] = Fin 0"
| "trimmed_num (c # s) =
     (if c = CHR ''-'' then neg_num (unsigned_num s)
      else if c = CHR ''+'' then unsigned_num s
      else case s of
        x # ds \<Rightarrow> (case (if c = CHR ''0'' then radix_of x else None) of
            Some b \<Rightarrow> prefixed_num b ds | None \<Rightarrow> unsigned_num (c # s))
      | [] \<Rightarrow> unsigned_num (c # s))"

definition js_number :: "string \<Rightarrow> jsnum" where
  "js_number s = trimmed_num (js_trim s)"

section \<open>String(n)\<close>

definition digit_char :: "nat \<Rightarrow> char" where
  "digit_char d = char_of (48 + d)"

fun show_nat :: "nat \<Rightarrow> string" where
  "show_nat n = (if n < 10 then [digit_char n] else show_nat (n div 10) @ [digit_char (n mod 10)])"

declare show_nat.simps [simp del]

definition show_int :: "int \<Rightarrow> string" where
  "show_int i = (if i < 0 then CHR ''-'' # show_nat (nat (- i)) else show_nat (nat i))"

section \<open>Round trip\<close>

lemma digit_char_val [simp]: "d < 10 \<Longrightarrow> digit_val (digit_char d) = Some d"
  by (simp add: digit_val_def digit_char_def)

lemma digit_char_digit [simp]: "d < 10 \<Longrightarrow> is_digit 10 (digit_char d)"
  by (simp add: is_digit_def)

lemma digit_char_eval:
  "digit_char 0 = CHR ''0''"
  "digit_char 1 = CHR ''1''"
  "digit_char 2 = CHR ''2''"
  "digit_char 3 = CHR ''3''"
  "digit_char 4 = CHR ''4''"
  "digit_char 5 = CHR ''5''"
  "digit_char 6 = CHR ''6''"
  "digit_char 7 = CHR ''7''"
  "digit_char 8 = CHR ''8''"
  "digit_char 9 = CHR ''9''"
  by code_simp+

lemma show_nat_digits: "list_all (is_digit 10) (show_nat n)"
  by (induction n rule: show_nat.induct) (subst show_nat.simps, simp)

lemma show_nat_not_Nil [simp]: "show_nat n \<noteq> []"
  by (subst show_nat.simps) simp

lemma digits_val_snoc: "digits_val b (s @ [c]) = digits_val b s * b + nullish (digit_val c) 0"
  by (simp add: digits_val_def)

lemma digits_val_show [simp]: "digits_val 10 (show_nat n) = n"
proof (induction n rule: show_nat.induct)
  case (1 n)
  show ?case
  proof (cases "n < 10")
    case True
    then show ?thesis by (subst show_nat.simps) (simp add: digits_val_def)
  next
    case False
    with 1 show ?thesis by (subst show_nat.simps) (simp add: digits_val_snoc)
  qed
qed

lemma round_even_int [simp]: "round_even (of_int i) = i"
  by (simp add: round_even_def)

lemma round_double_int:
  assumes "0 \<le> i" and "i < 2 ^ 53"
  shows "round_double (of_int i) = Fin (of_int i)"
proof (cases "i = 0")
  case False
  with assms have pos: "0 < i" by simp
  have "quotient_of (rat_of_int i) = (i, 1)" by (simp add: quotient_of_int)
  moreover have "bitlen i \<le> 53" using assms by (simp add: bitlen_le_iff_power)
  moreover have "bitlen 1 = (1::int)" by (simp add: bitlen_def floorlog_def)
  ultimately have e: "last_place (of_int i) \<le> 0" and lb: "-1074 \<le> last_place (of_int i)"
    by (auto simp: last_place_def log2_floor_def Let_def)
  let ?k = "nat (- last_place (rat_of_int i))"
  have p: "pow_int 2 (last_place (rat_of_int i)) = 1 / 2 ^ ?k"
    using e by (auto simp: pow_int_def)
  have "rat_of_int i / pow_int 2 (last_place (rat_of_int i)) = of_int (i * 2 ^ ?k)"
    unfolding p by simp
  then have v: "of_int (round_even (rat_of_int i / pow_int 2 (last_place (rat_of_int i))))
      * pow_int 2 (last_place (rat_of_int i)) = rat_of_int i"
    unfolding p by (simp only: round_even_int) simp
  have "rat_of_int i < of_int (2 ^ 53)" using assms(2) by (simp only: of_int_less_iff)
  also have "of_int (2 ^ 53) = (2 :: rat) ^ 53" by (simp only: of_int_power of_int_numeral)
  also have "\<dots> \<le> 2 ^ 1024" by (rule power_increasing) simp_all
  finally have "\<not> 2 ^ 1024 \<le> rat_of_int i" unfolding not_le .
  with pos show ?thesis by (simp add: round_double_def round_pos_def v Let_def)
qed (simp add: round_double_def)

lemma digit_facts:
  assumes "is_digit 10 c"
  shows "\<not> js_space c" "c \<noteq> CHR ''-''" "c \<noteq> CHR ''+''" "radix_of c = None" "c \<noteq> CHR ''I''"
proof -
  have "48 \<le> (of_char c :: nat)" "(of_char c :: nat) \<le> 57"
    using assms by (auto simp: is_digit_def digit_val_def Let_def split: if_splits)
  then have not_outside: "c \<noteq> d" if "(of_char d :: nat) < 48 \<or> 57 < (of_char d :: nat)" for d
    using that by auto
  show "\<not> js_space c" unfolding js_space_def using not_outside by simp
  show "c \<noteq> CHR ''-''" by (rule not_outside) simp
  show "c \<noteq> CHR ''+''" by (rule not_outside) simp
  show "radix_of c = None" unfolding radix_of_def using not_outside by simp
  show "c \<noteq> CHR ''I''" by (rule not_outside) simp
qed

lemma js_trim_digits: "list_all (is_digit 10) s \<Longrightarrow> js_trim s = s"
proof -
  assume d: "list_all (is_digit 10) s"
  have drop: "dropWhile js_space t = t" if "list_all (is_digit 10) t" for t
    using that by (cases t) (auto simp: digit_facts)
  from d have "list_all (is_digit 10) (rev s)" by (simp add: list_all_iff)
  with d drop show ?thesis by (simp add: js_trim_def)
qed

lemma decimal_part_digits:
  assumes "list_all (is_digit 10) s" and "s \<noteq> []"
  shows "decimal_part s = Some (of_nat (digits_val 10 s))"
proof -
  have t: "takeWhile (is_digit 10) s = s" and d: "dropWhile (is_digit 10) s = []"
    using assms(1) by (auto simp: list_all_iff)
  show ?thesis unfolding decimal_part_def Let_def t d using assms(2) by (simp add: exponent_part_def pow_int_def)
qed

lemma trimmed_num_digits:
  assumes "list_all (is_digit 10) s" and "s \<noteq> []"
  shows "trimmed_num s = round_double (of_nat (digits_val 10 s))"
proof -
  obtain c t where s: "s = c # t" using assms(2) by (cases s) auto
  from assms(1) have c: "is_digit 10 c" and t: "list_all (is_digit 10) t" by (simp_all add: s)
  have "s \<noteq> ''Infinity''" using digit_facts(5) [OF c] by (auto simp: s)
  with decimal_part_digits [OF assms] have u: "unsigned_num s = round_double (of_nat (digits_val 10 s))"
    by (simp add: unsigned_num_def)
  show ?thesis
  proof (cases t)
    case Nil
    with u c show ?thesis by (simp add: s digit_facts)
  next
    case (Cons x ds)
    with t have "radix_of x = None" by (simp add: digit_facts)
    with u c Cons show ?thesis by (auto simp: s digit_facts)
  qed
qed

lemma js_number_show_nat:
  assumes "n < 2 ^ 53"
  shows "js_number (show_nat n) = Fin (of_nat n)"
proof -
  have "int n < 2 ^ 53" using assms by (metis of_nat_less_iff of_nat_numeral of_nat_power)
  with round_double_int [of "int n"] show ?thesis
    by (simp add: js_number_def js_trim_digits show_nat_digits trimmed_num_digits)
qed

section \<open>Query parameters\<close>

text \<open>\<open>Number.isInteger(value)\<close>, with the integer.\<close>

fun num_integer :: "jsnum \<Rightarrow> int option" where
  "num_integer (Fin q) = (if is_integer q then Some \<lfloor>q\<rfloor> else None)"
| "num_integer _ = None"

text \<open>\<open>MetricsController.parsePositiveInt\<close>\<close>

definition parsePositiveInt :: "string option \<Rightarrow> int \<Rightarrow> int \<Rightarrow> string \<Rightarrow> http_error + int" where
  "parsePositiveInt raw fallback mx field =
     (case raw of None \<Rightarrow> Inr fallback
      | Some s \<Rightarrow> (case num_integer (js_number s) of
          None \<Rightarrow> Inl (BadRequest (OutOfRange field (nat mx)))
        | Some v \<Rightarrow> if v \<le> 0 \<or> mx < v then Inl (BadRequest (OutOfRange field (nat mx))) else Inr v))"

text \<open>\<open>parseNonNegativeInt\<close> of the audit, security-audit and alert-feed controllers.\<close>

definition parseNonNegativeInt :: "string option \<Rightarrow> int \<Rightarrow> string \<Rightarrow> http_error + int" where
  "parseNonNegativeInt raw fallback field =
     (case raw of None \<Rightarrow> Inr fallback
      | Some s \<Rightarrow> (case num_integer (js_number s) of
          None \<Rightarrow> Inl (BadRequest (InvalidParam field))
        | Some v \<Rightarrow> if v < 0 then Inl (BadRequest (InvalidParam field)) else Inr v))"

text \<open>The page of a listing: \<open>limit\<close> in \<open>1..200\<close> (default 50), \<open>offset\<close> from 0.\<close>

definition MAX_LIMIT :: int where "MAX_LIMIT = 200"
definition DEFAULT_LIMIT :: int where "DEFAULT_LIMIT = 50"

definition parse_page :: "string option \<Rightarrow> string option \<Rightarrow> http_error + int \<times> int" where
  "parse_page limitRaw offsetRaw =
     ebind (parseNonNegativeInt limitRaw DEFAULT_LIMIT ''limit'') (\<lambda>limit.
       if limit < 1 \<or> MAX_LIMIT < limit then Inl (BadRequest (OutOfRange ''limit'' (nat MAX_LIMIT)))
       else ebind (parseNonNegativeInt offsetRaw 0 ''offset'') (\<lambda>offset. Inr (limit, offset)))"

lemma parsePositiveInt_range:
  "parsePositiveInt (Some s) fb mx f = Inr v \<Longrightarrow> 1 \<le> v \<and> v \<le> mx"
  by (auto simp: parsePositiveInt_def split: option.splits if_splits)

lemma parseNonNegativeInt_range: "parseNonNegativeInt raw fb f = Inr v \<Longrightarrow> 0 \<le> fb \<Longrightarrow> 0 \<le> v"
  by (auto simp: parseNonNegativeInt_def split: option.splits if_splits)

lemma num_integer_nat: "n < 2 ^ 53 \<Longrightarrow> num_integer (js_number (show_nat n)) = Some (int n)"
proof -
  assume n: "n < 2 ^ 53"
  have "rat_of_nat n = rat_of_int (int n)" by simp
  then show ?thesis by (simp only: js_number_show_nat [OF n] num_integer.simps is_integer_of_int if_True floor_of_int)
qed

text \<open>
  Paging parameters are safe and faithful.  Whatever strings a client sends, an accepted
  page has a limit in 1..200 and an offset from 0; and the decimal strings of any such page
  are read back as exactly that page.
\<close>

theorem page_parameters:
  "(\<forall>l p limit offset. parse_page l p = Inr (limit, offset) \<longrightarrow> 1 \<le> limit \<and> limit \<le> 200 \<and> 0 \<le> offset)
   \<and> (\<forall>limit offset. 1 \<le> limit \<and> limit \<le> 200 \<and> offset < 2 ^ 53 \<longrightarrow>
        parse_page (Some (show_nat limit)) (Some (show_nat offset)) = Inr (int limit, int offset))"
proof (intro conjI allI impI)
  fix l p limit offset assume a: "parse_page l p = Inr (limit, offset)"
  then show "1 \<le> limit" "limit \<le> 200" "0 \<le> offset"
    by (auto simp: parse_page_def MAX_LIMIT_def ebind_Inr_iff split: if_splits dest: parseNonNegativeInt_range)
next
  fix limit offset :: nat assume b: "1 \<le> limit \<and> limit \<le> 200 \<and> offset < 2 ^ 53"
  then have "limit < 2 ^ 53" by simp
  with b show "parse_page (Some (show_nat limit)) (Some (show_nat offset)) = Inr (int limit, int offset)"
    by (simp add: parse_page_def parseNonNegativeInt_def num_integer_nat MAX_LIMIT_def del: num_integer.simps)
qed

theorem page_parameters_witness:
  "parse_page (Some (show_nat 20)) (Some (show_nat 40)) = Inr (20, 40)"
proof -
  have "parse_page (Some (show_nat 20)) (Some (show_nat 40)) = Inr (int 20, int 40)"
    by (rule conjunct2 [OF page_parameters, rule_format]) simp
  then show ?thesis by simp
qed

end
