(* ===== verification/Containers.thy ===== *)
theory Containers
  imports Incremental Utf8 Http
begin

text \<open>
  apps/api/src/containers/containers.service.ts: the inventory of the compose stack and the
  subscription to the engine's events.  The engine is a parameter: the list of containers,
  \<open>inspect\<close> (which may throw) and the parsed event lines (\<open>JSON.parse\<close> with the cast to
  \<open>DockerEvent\<close>) come from it; \<open>Date.parse\<close> of a start time is in epoch milliseconds.
\<close>

section \<open>Engine data\<close>

type_synonym labels = "string \<rightharpoonup> string"

record container_info =
  ci_Id :: string
  ci_Names :: "string list"
  ci_Labels :: "labels option"

record inspect_info =
  info_Id :: string
  info_Name :: string
  info_Labels :: "labels option"
  info_Image :: string
  info_StartedAt :: "string option"
  info_Status :: "container_status option"
  info_Health :: "container_health option"
  info_Running :: bool

record docker_event =
  ev_Action :: "string option"
  ev_id :: "string option"
  ev_ActorID :: "string option"
  ev_Attributes :: "labels option"

definition COMPOSE_SERVICE :: string where "COMPOSE_SERVICE = ''com.docker.compose.service''"
definition COMPOSE_PROJECT :: string where "COMPOSE_PROJECT = ''com.docker.compose.project''"

section \<open>Managed containers\<close>

definition no_labels :: labels where "no_labels = Map.empty"

definition isManaged :: "env \<Rightarrow> labels option \<Rightarrow> bool" where
  "isManaged env labels =
     (let l = nullish labels no_labels in
      if \<not> truthy (l COMPOSE_SERVICE) then False
      else case env ''COMPOSE_PROJECTS'' of
        None \<Rightarrow> True
      | Some flt \<Rightarrow> if flt = [] then True
          else nullish (l COMPOSE_PROJECT) [] \<in> set (map js_trim (js_split (CHR '','') flt)))"

text \<open>\<open>Math.round(ms / 1000)\<close> rounds halves up.\<close>

definition round_sec :: "int \<Rightarrow> int" where
  "round_sec ms = (ms + 500) div 1000"

definition strip_slash :: "string \<Rightarrow> string" where
  "strip_slash s = (case s of [] \<Rightarrow> [] | c # cs \<Rightarrow> if c = CHR ''/'' then cs else s)"

definition inspectState :: "(string \<Rightarrow> int) \<Rightarrow> int \<Rightarrow> inspect_info \<Rightarrow> service_state" where
  "inspectState date_parse now info =
     (let labels = nullish (info_Labels info) no_labels;
          started = (case info_StartedAt info of None \<Rightarrow> None
            | Some s \<Rightarrow> if starts_with s ''0001'' then None else Some s);
          up = info_Running info \<and> truthy started
      in \<lparr>sid = take 12 (info_Id info), sname = strip_slash (info_Name info),
          service = nullish (labels COMPOSE_SERVICE) [], project = nullish (labels COMPOSE_PROJECT) [],
          img = info_Image info, status = nullish (info_Status info) Dead,
          health = nullish (info_Health info) NoHealth,
          startedAt = (if up then started else None),
          uptimeSec = (if up then Some (max 0 (round_sec (now - date_parse (the started)))) else None)\<rparr>)"

section \<open>Snapshot and lookup\<close>

text \<open>\<open>inspect\<close> answers by container id, at its own time; \<open>None\<close> when it throws.\<close>

type_synonym inspector = "string \<Rightarrow> (inspect_info \<times> int) option"

definition inspected :: "(string \<Rightarrow> int) \<Rightarrow> inspector \<Rightarrow> string \<Rightarrow> service_state option" where
  "inspected dp inspect cid = (case inspect cid of None \<Rightarrow> None | Some (info, now) \<Rightarrow> Some (inspectState dp now info))"

text \<open>\<open>loc a b\<close> is \<open>a.localeCompare(b) <= 0\<close>; a failed \<open>listContainers\<close> rejects.\<close>

definition getSnapshot ::
  "env \<Rightarrow> (string \<Rightarrow> int) \<Rightarrow> (string \<Rightarrow> string \<Rightarrow> bool) \<Rightarrow> inspector \<Rightarrow> container_info list option \<Rightarrow> int
    \<Rightarrow> state_snapshot option" where
  "getSnapshot env dp loc inspect listing now =
     (case listing of None \<Rightarrow> None
      | Some cs \<Rightarrow>
          (let managed = filter (\<lambda>c. isManaged env (ci_Labels c)) cs;
               states = List.map_filter (\<lambda>c. inspected dp inspect (ci_Id c)) managed
           in Some \<lparr>services = js_sort (\<lambda>a b. loc (sname a) (sname b)) states, generatedAt = now\<rparr>))"

definition findManagedByName ::
  "env \<Rightarrow> (string \<Rightarrow> int) \<Rightarrow> inspector \<Rightarrow> container_info list option \<Rightarrow> string \<Rightarrow> service_state option option" where
  "findManagedByName env dp inspect listing name =
     (case listing of None \<Rightarrow> None
      | Some cs \<Rightarrow>
          (case find (\<lambda>c. isManaged env (ci_Labels c) \<and> (CHR ''/'' # name) \<in> set (ci_Names c)) cs of
             None \<Rightarrow> Some None
           | Some c \<Rightarrow> Some (inspected dp inspect (ci_Id c))))"

section \<open>Events\<close>

fun lifecycle_of :: "string \<Rightarrow> lifecycle_action option" where
  "lifecycle_of s =
     (if s = ''start'' then Some AStart else if s = ''die'' then Some ADie
      else if s = ''stop'' then Some AStop else if s = ''kill'' then Some AKill
      else if s = ''restart'' then Some ARestart else if s = ''pause'' then Some APause
      else if s = ''unpause'' then Some AUnpause else if s = ''health_status'' then Some AHealthStatus
      else None)"

text \<open>\<open>event.Action?.split(":")[0]?.trim()\<close>, then the test against \<open>LIFECYCLE_EVENTS\<close>.\<close>

definition event_action :: "docker_event \<Rightarrow> lifecycle_action option" where
  "event_action ev = (case ev_Action ev of None \<Rightarrow> None
     | Some a \<Rightarrow> lifecycle_of (js_trim (hd (js_split (CHR '':'') a))))"

text \<open>\<open>handleEventLine\<close>: the line that reaches \<open>publishFromEvent\<close>, or nothing.\<close>

definition handleEventLine ::
  "env \<Rightarrow> (utext \<Rightarrow> docker_event option) \<Rightarrow> utext \<Rightarrow> (docker_event \<times> lifecycle_action) option" where
  "handleEventLine env parse line =
     (case parse line of None \<Rightarrow> None
      | Some ev \<Rightarrow>
          (case event_action ev of None \<Rightarrow> None
           | Some a \<Rightarrow> if isManaged env (ev_Attributes ev) then Some (ev, a) else None))"

definition event_subject :: "docker_event \<Rightarrow> string option" where
  "event_subject ev = (case ev_ActorID ev of None \<Rightarrow> ev_id ev | Some i \<Rightarrow> Some i)"

definition synthetic_state :: "string \<Rightarrow> labels \<Rightarrow> service_state" where
  "synthetic_state cid attrs =
     \<lparr>sid = take 12 cid, sname = nullish (attrs ''name'') (take 12 cid),
      service = nullish (attrs COMPOSE_SERVICE) [], project = nullish (attrs COMPOSE_PROJECT) [],
      img = nullish (attrs ''image'') [], status = Exited, health = NoHealth, startedAt = None, uptimeSec = None\<rparr>"

text \<open>
  \<open>publishFromEvent\<close>: \<open>inspect\<close> is awaited, \<open>parse_int\<close> is \<open>Number.parseInt(s, 10)\<close>
  (\<open>None\<close> for NaN, which JSON turns into null).
\<close>

definition publishFromEvent ::
  "(string \<Rightarrow> int) \<Rightarrow> (string \<Rightarrow> int option) \<Rightarrow> docker_event \<Rightarrow> lifecycle_action \<Rightarrow> inspector \<Rightarrow> int
    \<Rightarrow> service_update option" where
  "publishFromEvent dp parse_int ev a inspect now =
     (let attrs = nullish (ev_Attributes ev) no_labels in
      if \<not> truthy (event_subject ev) then None
      else (let cid = the (event_subject ev);
                st = (case inspected dp inspect cid of Some s \<Rightarrow> s | None \<Rightarrow> synthetic_state cid attrs)
            in Some \<lparr>upd_service = serviceKey (project st) (service st), upd_state = st, occurredAt = now,
                 upd_action = a,
                 exitCode = (if a = ADie then (case attrs ''exitCode'' of None \<Rightarrow> None | Some c \<Rightarrow> parse_int c) else None)\<rparr>))"

section \<open>The event subscription\<close>

text \<open>White space and line terminators of ECMAScript, on code units.\<close>

definition unit_space :: "nat \<Rightarrow> bool" where
  "unit_space u \<longleftrightarrow> u \<in> {9, 10, 11, 12, 13, 32, 160, 0x1680, 0x2028, 0x2029, 0x202F, 0x205F, 0x3000, 0xFEFF}
     \<or> (0x2000 \<le> u \<and> u \<le> 0x200A)"

text \<open>\<open>if (line.trim())\<close>\<close>

definition not_blank :: "utext \<Rightarrow> bool" where
  "not_blank line = list_ex (\<lambda>u. \<not> unit_space u) line"

definition event_lines ::
  "env \<Rightarrow> (utext \<Rightarrow> docker_event option) \<Rightarrow> utext \<Rightarrow> (docker_event \<times> lifecycle_action) list" where
  "event_lines env parse line =
     (if not_blank line then (case handleEventLine env parse line of None \<Rightarrow> [] | Some x \<Rightarrow> [x]) else [])"

text \<open>The data handler of one stream, with its own buffer.\<close>

definition event_data ::
  "env \<Rightarrow> (utext \<Rightarrow> docker_event option) \<Rightarrow> utext \<Rightarrow> octets \<Rightarrow> utext \<times> (docker_event \<times> lifecycle_action) list" where
  "event_data env parse buf chunk = line_push 10 (event_lines env parse) buf (utf8_decode chunk)"

record events_state =
  ev_stopped :: bool
  ev_retry :: bool \<comment> \<open>the retry timer is pending\<close>
  ev_connecting :: nat \<comment> \<open>awaited \<open>getEvents\<close> calls\<close>
  ev_live :: "utext list" \<comment> \<open>buffers of the open streams\<close>
  ev_inspecting :: "(docker_event \<times> lifecycle_action) list"

definition subscribeToDockerEvents :: "events_state \<Rightarrow> events_state" where
  "subscribeToDockerEvents st = (if ev_stopped st then st else st\<lparr>ev_connecting := ev_connecting st + 1\<rparr>)"

definition events_init :: events_state where
  "events_init = subscribeToDockerEvents
     \<lparr>ev_stopped = False, ev_retry = False, ev_connecting = 0, ev_live = [], ev_inspecting = []\<rparr>"

definition scheduleRetry :: "events_state \<Rightarrow> events_state" where
  "scheduleRetry st = (if ev_stopped st \<or> ev_retry st then st else st\<lparr>ev_retry := True\<rparr>)"

text \<open>\<open>getEvents\<close> answered or threw.\<close>

definition events_connected :: "events_state \<Rightarrow> bool \<Rightarrow> events_state" where
  "events_connected st ok =
     (let st1 = st\<lparr>ev_connecting := ev_connecting st - 1\<rparr>
      in if ok then st1\<lparr>ev_live := ev_live st1 @ [[]]\<rparr> else scheduleRetry st1)"

definition stream_down :: "events_state \<Rightarrow> nat \<Rightarrow> events_state" where
  "stream_down st k = scheduleRetry (st\<lparr>ev_live := remove_nth k (ev_live st)\<rparr>)"

definition retry_fires :: "events_state \<Rightarrow> events_state" where
  "retry_fires st = subscribeToDockerEvents (st\<lparr>ev_retry := False\<rparr>)"

definition stream_chunk ::
  "env \<Rightarrow> (utext \<Rightarrow> docker_event option) \<Rightarrow> events_state \<Rightarrow> nat \<Rightarrow> octets \<Rightarrow> events_state" where
  "stream_chunk env parse st k chunk =
     (let (buf, evs) = event_data env parse (ev_live st ! k) chunk
      in st\<lparr>ev_live := (ev_live st)[k := buf], ev_inspecting := ev_inspecting st @ evs\<rparr>)"

text \<open>\<open>onModuleDestroy\<close> destroys the stream it knows, the one opened last.\<close>

definition events_destroy :: "events_state \<Rightarrow> events_state" where
  "events_destroy st = st\<lparr>ev_stopped := True, ev_retry := False, ev_live := butlast (ev_live st)\<rparr>"

datatype engine_event =
  Connected bool
| StreamChunk nat octets
| StreamDown nat
| RetryFires
| InspectDone nat inspector int
| EventsDestroy

fun engine_enabled :: "events_state \<Rightarrow> engine_event \<Rightarrow> bool" where
  "engine_enabled st (Connected ok) = (0 < ev_connecting st)"
| "engine_enabled st (StreamChunk k c) = (k < length (ev_live st))"
| "engine_enabled st (StreamDown k) = (k < length (ev_live st))"
| "engine_enabled st RetryFires = ev_retry st"
| "engine_enabled st (InspectDone i f now) = (i < length (ev_inspecting st))"
| "engine_enabled st EventsDestroy = True"

fun engine_step ::
  "env \<Rightarrow> (utext \<Rightarrow> docker_event option) \<Rightarrow> (string \<Rightarrow> int) \<Rightarrow> (string \<Rightarrow> int option)
    \<Rightarrow> events_state \<Rightarrow> engine_event \<Rightarrow> events_state \<times> service_update list" where
  "engine_step env parse dp pint st (Connected ok) = (events_connected st ok, [])"
| "engine_step env parse dp pint st (StreamChunk k c) = (stream_chunk env parse st k c, [])"
| "engine_step env parse dp pint st (StreamDown k) = (stream_down st k, [])"
| "engine_step env parse dp pint st RetryFires = (retry_fires st, [])"
| "engine_step env parse dp pint st (InspectDone i f now) =
     (let (ev, a) = ev_inspecting st ! i
      in (st\<lparr>ev_inspecting := remove_nth i (ev_inspecting st)\<rparr>,
          (case publishFromEvent dp pint ev a f now of None \<Rightarrow> [] | Some u \<Rightarrow> [u])))"
| "engine_step env parse dp pint st EventsDestroy = (events_destroy st, [])"

text \<open>\<open>engine_reach\<close>: the states the subscription reaches from \<open>onModuleInit\<close>.\<close>

inductive engine_reach ::
  "env \<Rightarrow> (utext \<Rightarrow> docker_event option) \<Rightarrow> (string \<Rightarrow> int) \<Rightarrow> (string \<Rightarrow> int option)
    \<Rightarrow> engine_event list \<Rightarrow> events_state \<Rightarrow> service_update list \<Rightarrow> bool" for env parse dp pint where
  engine_start: "engine_reach env parse dp pint [] events_init []"
| engine_more: "\<lbrakk>engine_reach env parse dp pint es st out; engine_enabled st e;
     engine_step env parse dp pint st e = (st1, out1)\<rbrakk>
    \<Longrightarrow> engine_reach env parse dp pint (es @ [e]) st1 (out @ out1)"

text \<open>One attempt, one stream or one timer; after a shutdown no timer and no further attempt.\<close>

definition one_subscription :: "events_state \<Rightarrow> bool" where
  "one_subscription st \<longleftrightarrow>
     (if ev_stopped st then \<not> ev_retry st \<and> ev_connecting st + length (ev_live st) \<le> 1
      else ev_connecting st + length (ev_live st) + (if ev_retry st then 1 else 0) = 1)"

lemma length_remove_nth: "i < length xs \<Longrightarrow> length (remove_nth i xs) = length xs - 1"
  by (simp add: remove_nth.simps)

lemma one_subscription_step:
  assumes "one_subscription st" and "engine_enabled st e"
  shows "one_subscription (fst (engine_step env parse dp pint st e))"
proof (cases e)
  case (Connected ok)
  with assms show ?thesis
    by (cases ok) (auto simp: one_subscription_def events_connected_def scheduleRetry_def Let_def split: if_splits)
next
  case (StreamDown k)
  with assms show ?thesis
    by (auto simp: one_subscription_def stream_down_def scheduleRetry_def length_remove_nth split: if_splits)
next
  case RetryFires
  with assms show ?thesis
    by (auto simp: one_subscription_def retry_fires_def subscribeToDockerEvents_def split: if_splits)
next
  case EventsDestroy
  with assms show ?thesis
    by (auto simp: one_subscription_def events_destroy_def split: if_splits)
qed (use assms in \<open>auto simp: one_subscription_def stream_chunk_def split_beta Let_def split: if_splits\<close>)

lemma one_subscription_reach:
  "engine_reach env parse dp pint es st out \<Longrightarrow> one_subscription st \<and> (ev_stopped st \<longleftrightarrow> EventsDestroy \<in> set es)"
proof (induction rule: engine_reach.induct)
  case engine_start
  show ?case by (simp add: one_subscription_def events_init_def subscribeToDockerEvents_def)
next
  case (engine_more es st out e st1 out1)
  have "ev_stopped (fst (engine_step env parse dp pint st e)) \<longleftrightarrow> ev_stopped st \<or> e = EventsDestroy"
    by (cases e) (auto simp: events_connected_def scheduleRetry_def stream_chunk_def stream_down_def
        retry_fires_def subscribeToDockerEvents_def events_destroy_def split_beta Let_def)
  with one_subscription_step [of st e env parse dp pint] engine_more show ?case by auto
qed

text \<open>
  C27: the dashboard never goes deaf and never hears twice.  As long as the module lives,
  exactly one of these exists: an attempt to open the event stream, an open stream, a pending
  retry timer; after its destruction no timer is left and at most one attempt or stream.
\<close>

theorem event_subscription_recovers:
  assumes "engine_reach env parse dp pint es st out"
  shows "if EventsDestroy \<in> set es then \<not> ev_retry st \<and> ev_connecting st + length (ev_live st) \<le> 1
    else ev_connecting st + length (ev_live st) + (if ev_retry st then 1 else 0) = 1"
  using one_subscription_reach [OF assms] by (auto simp: one_subscription_def split: if_splits)

section \<open>Chunking of the event stream\<close>

lemma event_data_run:
  "run_chunks (event_data env parse) buf cs = run_chunks (line_push 10 (event_lines env parse)) buf (map utf8_decode cs)"
  by (induction cs arbitrary: buf) (simp_all add: event_data_def)

lemma event_lines_filter:
  "concat (map (event_lines env parse) ls) = List.map_filter (handleEventLine env parse) (filter not_blank ls)"
  by (induction ls) (auto simp: event_lines_def List.map_filter_simps split: option.splits)

text \<open>
  C28: events do not depend on how the engine's stream is cut.  However the decoded text
  arrives in chunks, each complete, non-blank line is handled exactly once and in order, and
  the unfinished last line waits in the buffer.
\<close>

theorem events_of_stream:
  assumes "concat (map utf8_decode cs) = concat (map (\<lambda>l. l @ [10]) ls) @ r"
    and "\<forall>l\<in>set ls. 10 \<notin> set l" and "10 \<notin> set r"
  shows "run_chunks (event_data env parse) [] cs
    = (r, List.map_filter (handleEventLine env parse) (filter not_blank ls))"
  using line_push_complete [OF assms(2,3), of "event_lines env parse"]
  by (simp add: event_data_run line.run_chunks_concat assms(1) event_lines_filter)

section \<open>Snapshots\<close>

lemma set_map_filter: "y \<in> set (List.map_filter f xs) \<longleftrightarrow> (\<exists>x\<in>set xs. f x = Some y)"
  by (induction xs) (auto simp: List.map_filter_simps split: option.splits)

lemma total_preorder_on: "total_preorder loc \<Longrightarrow> total_preorder (\<lambda>a b. loc (f a) (f b))"
  unfolding total_preorder_def by blast

text \<open>
  A snapshot is complete and in order.  It contains the state of every managed container
  that can be inspected, nothing else, each as often as it is listed, sorted by name.
\<close>

theorem snapshot_is_inventory:
  assumes "total_preorder loc" and "getSnapshot env dp loc inspect (Some cs) now = Some snap"
  shows "sorted_wrt (\<lambda>a b. loc (sname a) (sname b)) (services snap)
    \<and> mset (services snap) = mset (List.map_filter (\<lambda>c. inspected dp inspect (ci_Id c))
        (filter (\<lambda>c. isManaged env (ci_Labels c)) cs))
    \<and> (\<forall>s. s \<in> set (services snap) \<longleftrightarrow>
        (\<exists>c\<in>set cs. isManaged env (ci_Labels c) \<and> inspected dp inspect (ci_Id c) = Some s))"
  using assms(2) sorted_wrt_js_sort [OF total_preorder_on [OF assms(1), of sname]]
  by (auto simp: getSnapshot_def Let_def set_map_filter)

text \<open>
  C29: updates and snapshots tell the same story.  The update published for an event about a
  listed, managed container carries exactly the state the snapshot shows for it, under the
  same service key; when the container can no longer be inspected, the synthetic state keeps
  its key as long as the event's labels are those of the container.
\<close>

theorem update_agrees_with_snapshot:
  assumes "c \<in> set cs" and "isManaged env (ci_Labels c)" and "event_subject ev = Some (ci_Id c)" and "ci_Id c \<noteq> []"
    and "getSnapshot env dp loc inspect (Some cs) t = Some snap"
  shows "\<exists>u. publishFromEvent dp pint ev a inspect now = Some u
    \<and> upd_service u = serviceKey (project (upd_state u)) (service (upd_state u)) \<and> upd_action u = a
    \<and> (inspect (ci_Id c) \<noteq> None \<longrightarrow> upd_state u \<in> set (services snap))
    \<and> (inspect (ci_Id c) = None \<and> ev_Attributes ev = ci_Labels c \<longrightarrow>
         service (upd_state u) = nullish (nullish (ci_Labels c) no_labels COMPOSE_SERVICE) []
       \<and> project (upd_state u) = nullish (nullish (ci_Labels c) no_labels COMPOSE_PROJECT) []
       \<and> status (upd_state u) = Exited \<and> sid (upd_state u) = take 12 (ci_Id c))"
proof -
  have snap: "services snap = js_sort (\<lambda>a b. loc (sname a) (sname b))
      (List.map_filter (\<lambda>c. inspected dp inspect (ci_Id c)) (filter (\<lambda>c. isManaged env (ci_Labels c)) cs))"
    using assms(5) by (auto simp: getSnapshot_def Let_def)
  have "s \<in> set (services snap)" if "inspected dp inspect (ci_Id c) = Some s" for s
    using that assms(1,2) by (auto simp: snap set_map_filter)
  then show ?thesis
    using assms(3,4) by (cases "inspect (ci_Id c)")
      (auto simp: publishFromEvent_def Let_def inspected_def synthetic_state_def)
qed

section \<open>Witnesses\<close>

definition sample_labels :: labels where
  "sample_labels = [COMPOSE_SERVICE \<mapsto> ''web'', COMPOSE_PROJECT \<mapsto> ''cci'']"

definition sample_inspect :: inspector where
  "sample_inspect cid = (if cid = ''c1''
     then Some (\<lparr>info_Id = ''c1'', info_Name = ''/web'', info_Labels = Some sample_labels, info_Image = ''i'',
        info_StartedAt = Some ''2024'', info_Status = Some Running, info_Health = None, info_Running = True\<rparr>, 5000)
     else None)"

definition sample_listing :: "container_info list" where
  "sample_listing = [\<lparr>ci_Id = ''c1'', ci_Names = [''/web''], ci_Labels = Some sample_labels\<rparr>,
     \<lparr>ci_Id = ''c2'', ci_Names = [''/x''], ci_Labels = None\<rparr>]"

definition sample_event :: docker_event where
  "sample_event = \<lparr>ev_Action = Some ''die'', ev_id = None, ev_ActorID = Some ''c1'', ev_Attributes = Some sample_labels\<rparr>"

definition sample_snapshot :: state_snapshot where
  "sample_snapshot = \<lparr>services = [\<lparr>sid = ''c1'', sname = ''web'', service = ''web'', project = ''cci'', img = ''i'',
     status = Running, health = NoHealth, startedAt = Some ''2024'', uptimeSec = Some 5\<rparr>], generatedAt = 7\<rparr>"

lemma sample_snapshot_taken:
  "getSnapshot (\<lambda>_. None) (\<lambda>_. 0) (\<lambda>_ _. True) sample_inspect (Some sample_listing) 7 = Some sample_snapshot"
  by (simp add: getSnapshot_def sample_listing_def isManaged_def sample_labels_def no_labels_def
      COMPOSE_SERVICE_def COMPOSE_PROJECT_def sample_inspect_def sample_snapshot_def inspected_def
      inspectState_def round_sec_def strip_slash_def starts_with_def List.map_filter_simps Let_def)

theorem snapshot_is_inventory_witness:
  "mset (services sample_snapshot) = mset (List.map_filter (\<lambda>c. inspected (\<lambda>_. 0) sample_inspect (ci_Id c))
     (filter (\<lambda>c. isManaged (\<lambda>_. None) (ci_Labels c)) sample_listing)) \<and> length (services sample_snapshot) = 1"
  using snapshot_is_inventory [OF _ sample_snapshot_taken]
  by (simp add: total_preorder_def sample_snapshot_def)

theorem update_agrees_with_snapshot_witness:
  "\<exists>u. publishFromEvent (\<lambda>_. 0) (\<lambda>_. None) sample_event ADie sample_inspect 9 = Some u
    \<and> upd_state u \<in> set (services sample_snapshot)"
proof -
  let ?c = "hd sample_listing"
  have c: "?c \<in> set sample_listing" "isManaged (\<lambda>_. None) (ci_Labels ?c)"
    "event_subject sample_event = Some (ci_Id ?c)" "ci_Id ?c \<noteq> []" "sample_inspect (ci_Id ?c) \<noteq> None"
    by (simp_all add: sample_listing_def isManaged_def sample_labels_def sample_event_def event_subject_def
        sample_inspect_def)
  from update_agrees_with_snapshot [OF c(1-4) sample_snapshot_taken, of "\<lambda>_. None" ADie 9] c(5)
  show ?thesis by blast
qed

theorem events_of_stream_witness:
  "run_chunks (event_data (\<lambda>_. None) (\<lambda>l. if l = [65] then Some sample_event else None)) [] [[65], [10, 32, 10, 66]]
    = ([66], [(sample_event, ADie)])"
proof -
  have dec: "utf8_decode [65] = [65]" "utf8_decode [10, 32, 10, 66] = [10, 32, 10, 66]"
    by (simp_all add: utf8_decode_ascii)
  have "handleEventLine (\<lambda>_. None) (\<lambda>l. if l = [65] then Some sample_event else None) [65] = Some (sample_event, ADie)"
    by (simp add: handleEventLine_def sample_event_def event_action_def js_trim_def js_space_def isManaged_def
        sample_labels_def)
  with events_of_stream [of "[[65], [10, 32, 10, 66]]" "[[65], [32]]" "[66]" "\<lambda>_. None"
      "\<lambda>l. if l = [65] then Some sample_event else None"]
  show ?thesis by (simp add: dec not_blank_def unit_space_def List.map_filter_simps)
qed

theorem event_subscription_recovers_witness:
  "\<exists>st. engine_reach (\<lambda>_. None) (\<lambda>_. None) (\<lambda>_. 0) (\<lambda>_. None) [Connected True, StreamDown 0] st [] \<and> ev_retry st
    \<and> ev_connecting st + length (ev_live st) = 0"
proof -
  let ?step = "engine_step (\<lambda>_. None) (\<lambda>_. None) (\<lambda>_. 0) (\<lambda>_. None)"
  let ?s1 = "fst (?step events_init (Connected True))"
  let ?s2 = "fst (?step ?s1 (StreamDown 0))"
  note d = events_init_def subscribeToDockerEvents_def events_connected_def stream_down_def scheduleRetry_def remove_nth.simps
  have "engine_reach (\<lambda>_. None) (\<lambda>_. None) (\<lambda>_. 0) (\<lambda>_. None) ([] @ [Connected True]) ?s1 ([] @ [])"
    by (rule engine_more [OF engine_start]) (simp_all add: d)
  from engine_more [OF this, of "StreamDown 0" ?s2 "[]"]
  have run: "engine_reach (\<lambda>_. None) (\<lambda>_. None) (\<lambda>_. 0) (\<lambda>_. None) [Connected True, StreamDown 0] ?s2 []"
    by (simp add: d Let_def)
  have "ev_retry ?s2" by (simp add: d Let_def)
  with run event_subscription_recovers [OF run] show ?thesis by (intro exI [of _ ?s2]) simp
qed

end
