(* ===== verification/AuditTrail.thy ===== *)
theory AuditTrail
  imports Actions JsNumber Auth Containers
begin

text \<open>
  The two logs an admin reads: the dashboard's own audit trail (apps/api/src/audit, written by
  ActionsService) and the security log of cci-auth-service, forwarded by
  apps/api/src/security-audit.
\<close>

section \<open>AuditService and AuditController\<close>

record audit_log =
  entry :: audit_entry
  entered :: int \<comment> \<open>createdAt\<close>

record audit_filters =
  f_action :: "string option"
  f_target :: "string option"
  f_userSub :: "string option"

text \<open>A filter that is absent or empty does not restrict.\<close>

definition audit_matches :: "audit_filters \<Rightarrow> audit_log \<Rightarrow> bool" where
  "audit_matches f r \<longleftrightarrow> (truthy (f_action f) \<longrightarrow> audit_action (entry r) = the (f_action f))
     \<and> (truthy (f_target f) \<longrightarrow> target (entry r) = the (f_target f))
     \<and> (truthy (f_userSub f) \<longrightarrow> userSub (entry r) = the (f_userSub f))"

definition newest_first :: "audit_log list \<Rightarrow> audit_log list" where
  "newest_first rows = js_sort (\<lambda>a b. entered b \<le> entered a) rows"

text \<open>The page and the total, as one query sees the table.\<close>

definition audit_list :: "audit_log list \<Rightarrow> audit_filters \<Rightarrow> nat \<Rightarrow> nat \<Rightarrow> audit_log list \<times> nat" where
  "audit_list table f limit offset =
     (let hits = filter (audit_matches f) table
      in (take limit (drop offset (newest_first hits)), length hits))"

definition audit_controller ::
  "audit_log list \<Rightarrow> audit_filters \<Rightarrow> string option \<Rightarrow> string option \<Rightarrow> http_error + audit_log list \<times> nat" where
  "audit_controller table f limitRaw offsetRaw =
     ebind (parse_page limitRaw offsetRaw) (\<lambda>(limit, offset).
       Inr (audit_list table f (nat limit) (nat offset)))"

text \<open>
  \<open>ActionsController.restart\<close>: the name is checked before the service sees it.  \<open>lookup\<close> is the
  result of \<open>findManagedByName\<close> (\<open>None\<close> when the engine's listing fails).
\<close>

definition restart_endpoint ::
  "env \<Rightarrow> actions_state \<Rightarrow> string \<Rightarrow> auth_user \<Rightarrow> service_state option option \<Rightarrow> int \<Rightarrow> int \<Rightarrow> bool \<Rightarrow> bool
    \<Rightarrow> actions_state \<times> action_effect list \<times> (http_error + (action_error + string))" where
  "restart_endpoint env st name user lookup c r docker_ok audit_ok =
     (if \<not> matches_name 127 name then (st, [], Inl (BadRequest InvalidContainer))
      else (case lookup of
              None \<Rightarrow> (st, [], Inl UncheckedError)
            | Some managed \<Rightarrow>
                (case restartContainer env st name user managed c r docker_ok audit_ok of
                   (st', out, res) \<Rightarrow> (st', out, Inr res))))"

text \<open>A whole request: the guard, then the endpoint on the engine's current containers.\<close>

definition restart_request ::
  "jwt_lib \<Rightarrow> env \<Rightarrow> (string \<Rightarrow> int) \<Rightarrow> inspector \<Rightarrow> container_info list option \<Rightarrow> string option
    \<Rightarrow> actions_state \<Rightarrow> string \<Rightarrow> int \<Rightarrow> int \<Rightarrow> bool \<Rightarrow> bool
    \<Rightarrow> actions_state \<times> action_effect list \<times> (http_error + (action_error + string))" where
  "restart_request lib env dp inspect listing header st name c r docker_ok audit_ok =
     (case guard_route lib env header RestartAction of
        Inl e \<Rightarrow> (st, [], Inl e)
      | Inr user \<Rightarrow> restart_endpoint env st name user (findManagedByName env dp inspect listing name)
          c r docker_ok audit_ok)"

text \<open>The rows the effects of a request add to the table, at time \<open>now\<close>.\<close>

definition audit_store :: "int \<Rightarrow> action_effect list \<Rightarrow> audit_log list" where
  "audit_store now out =
     List.map_filter (\<lambda>x. case x of AuditCreate e \<Rightarrow> Some \<lparr>entry = e, entered = now\<rparr> | _ \<Rightarrow> None) out"

lemma set_newest_first [simp]: "set (newest_first rows) = set rows"
  by (simp add: newest_first_def)

lemma length_newest_first [simp]: "length (newest_first rows) = length rows"
  by (simp add: newest_first_def)

lemma restart_endpoint_cases:
  assumes "restart_endpoint env st name user lookup c r ok aok = (st', out, res)"
  obtains "out = []" "st' = st"
  | m where "lookup = Some m" "matches_name 127 name" "admit_restart env st name m c r = Inr st'"
      "out = [DockerRestart name, (if aok then AuditCreate else AuditRejected) (audit_row user name (if ok then ''ok'' else ''error''))]"
      "res = Inr (if \<not> aok then Inl AuditFailed else if ok then Inr name else Inl (RestartFailed name))"
  using assms
  by (auto simp: restart_endpoint_def restartContainer_def Let_def split: if_splits option.splits sum.splits)

text \<open>
  Every restart leaves its trace: a request either touches Docker not at all and leaves
  no row, or it reaches Docker once; then exactly one row with the container, the requesting
  user and the outcome is written, which the admin's list shows under the container's filter,
  unless the insert itself is rejected, and then the request fails.
\<close>

theorem restart_is_audited:
  assumes "restart_endpoint env st name user lookup c r ok aok = (st', out, res)"
  shows "(out = [] \<and> st' = st)
    \<or> (\<exists>row. filter (\<lambda>x. case x of DockerRestart _ \<Rightarrow> True | _ \<Rightarrow> False) out = [DockerRestart name]
         \<and> target (entry row) = name \<and> audit_result (entry row) = (if ok then ''ok'' else ''error'')
         \<and> userSub (entry row) = nullish (sub user) ''unknown''
         \<and> (if aok then audit_store now out = [row]
              \<and> row \<in> set (newest_first (filter (audit_matches \<lparr>f_action = Some ''restart'', f_target = Some name, f_userSub = None\<rparr>)
                   (table @ audit_store now out)))
            else audit_store now out = [] \<and> res = Inr (Inl AuditFailed)))"
  using assms
proof (cases rule: restart_endpoint_cases)
  case 1
  then show ?thesis by simp
next
  case (2 m)
  let ?row = "\<lparr>entry = audit_row user name (if ok then ''ok'' else ''error''), entered = now\<rparr>"
  show ?thesis
    by (rule disjI2, rule exI [of _ ?row])
      (simp add: 2 audit_store_def List.map_filter_simps audit_row_def audit_matches_def)
qed

text \<open>
  Nobody restarts what they may not.  If a request makes the engine restart a container,
  then it is the named one, once; the caller's bearer token was verified and carries the
  operator or admin role; the engine lists a managed container of that name; and its compose
  project is not protected.
\<close>

theorem restart_request_authorised:
  assumes "restart_request lib env dp inspect listing header st name c r ok aok = (st', out, res)"
    and "DockerRestart n \<in> set out"
  shows "n = name \<and> count_list out (DockerRestart n) = 1
    \<and> (\<exists>t p. header = Some (BEARER @ t) \<and> verify lib env t = Some p
         \<and> set (payload_claims p) \<inter> {''ADMIN'', ''OPERATOR''} \<noteq> {})
    \<and> (\<exists>ci m. ci \<in> set (nullish listing []) \<and> isManaged env (ci_Labels ci) \<and> (CHR ''/'' # name) \<in> set (ci_Names ci)
         \<and> inspected dp inspect (ci_Id ci) = Some m \<and> \<not> isProtected env (project m))"
proof (cases "guard_route lib env header RestartAction")
  case (Inl e)
  with assms show ?thesis by (auto simp: restart_request_def)
next
  case (Inr user)
  with assms(1) have e: "restart_endpoint env st name user (findManagedByName env dp inspect listing name) c r ok aok = (st', out, res)"
    by (simp add: restart_request_def)
  from e show ?thesis
  proof (cases rule: restart_endpoint_cases)
    case 1
    with assms(2) show ?thesis by simp
  next
    case (2 m)
    from 2(3) obtain s where s: "m = Some s" "\<not> isProtected env (project s)" by (auto simp: admit_restart_Inr)
    with 2(1) obtain cs ci where "listing = Some cs"
      "find (\<lambda>c. isManaged env (ci_Labels c) \<and> (CHR ''/'' # name) \<in> set (ci_Names c)) cs = Some ci"
      "inspected dp inspect (ci_Id ci) = Some s"
      by (auto simp: findManagedByName_def split: option.splits)
    with s have "\<exists>ci m. ci \<in> set (nullish listing []) \<and> isManaged env (ci_Labels ci) \<and> (CHR ''/'' # name) \<in> set (ci_Names ci)
         \<and> inspected dp inspect (ci_Id ci) = Some m \<and> \<not> isProtected env (project m)"
      by (auto simp: find_Some_iff in_set_conv_nth)
    moreover have "\<exists>t p. header = Some (BEARER @ t) \<and> verify lib env t = Some p
         \<and> set (payload_claims p) \<inter> {''ADMIN'', ''OPERATOR''} \<noteq> {}"
      by (rule guard_route_verified [OF Inr, of Operator]) auto
    ultimately show ?thesis using 2(4) assms(2) by (auto split: if_splits)
  qed
qed

lemma take_drop_pages: "concat (map (\<lambda>k. take n (drop (k * n) xs)) [0..<m]) = take (m * n) xs"
proof (induction m)
  case (Suc m)
  then show ?case by (simp add: take_add [of "m * n" n xs, symmetric] add.commute take_add)
qed simp

text \<open>
  Paging through the audit log reads it exactly once: the pages of one size, taken at their
  offsets, are together all matching entries, newest first, and each page reports how many
  there are.
\<close>

theorem audit_pages_complete:
  assumes "0 < limit" and "snd (audit_list table f limit 0) \<le> m * limit"
  shows "concat (map (\<lambda>k. fst (audit_list table f limit (k * limit))) [0..<m]) = newest_first (filter (audit_matches f) table)
    \<and> (\<forall>k. snd (audit_list table f limit (k * limit)) = length (newest_first (filter (audit_matches f) table)))
    \<and> sorted_wrt (\<lambda>a b. entered b \<le> entered a) (newest_first (filter (audit_matches f) table))"
proof -
  let ?all = "newest_first (filter (audit_matches f) table)"
  have "total_preorder (\<lambda>a b. entered b \<le> entered a)" by (auto simp: total_preorder_def)
  then have "sorted_wrt (\<lambda>a b. entered b \<le> entered a) ?all"
    unfolding newest_first_def by (rule sorted_wrt_js_sort)
  moreover have "length ?all \<le> m * limit" using assms(2) by (simp add: audit_list_def Let_def)
  ultimately show ?thesis by (simp add: audit_list_def Let_def take_drop_pages)
qed

section \<open>SecurityAudit\<close>

definition security_audit_list ::
  "env \<Rightarrow> ((string \<times> string) list \<Rightarrow> string \<Rightarrow> http_outcome) \<Rightarrow> string option \<Rightarrow> string option \<Rightarrow> int \<Rightarrow> int \<Rightarrow> string
    \<Rightarrow> http_error + json" where
  "security_audit_list env http action userId skip tk token =
     (if \<not> truthy (env ''AUTH_SERVICE_URL'') then Inl (ServiceUnavailable (NotConfigured ''AUTH_SERVICE_URL''))
      else (case http ([(''skip'', show_int skip), (''take'', show_int tk)]
                @ (if truthy action then [(''action'', the action)] else [])
                @ (if truthy userId then [(''userId'', the userId)] else [])) (BEARER @ token) of
          NetFail \<Rightarrow> Inl (ServiceUnavailable (Unreachable ''cci-auth-service''))
        | Resp s b \<Rightarrow> if resp_ok s then Inr (json_or_empty b) else Inl (UpstreamError (json_or_empty b) s)))"

text \<open>The controller: skip first, then take; then the caller's own bearer token.\<close>

definition security_audit ::
  "env \<Rightarrow> ((string \<times> string) list \<Rightarrow> string \<Rightarrow> http_outcome) \<Rightarrow> string option \<Rightarrow> string option \<Rightarrow> string option
    \<Rightarrow> string option \<Rightarrow> string option \<Rightarrow> http_error + json" where
  "security_audit env http authorization action userId skipRaw takeRaw =
     ebind (parseNonNegativeInt skipRaw 0 ''skip'') (\<lambda>skip.
       ebind (parseNonNegativeInt takeRaw DEFAULT_LIMIT ''take'') (\<lambda>tk.
         if tk < 1 \<or> MAX_LIMIT < tk then Inl (BadRequest (OutOfRange ''take'' (nat MAX_LIMIT)))
         else (case bearer_token authorization of
             None \<Rightarrow> Inl Unauthorized
           | Some token \<Rightarrow> security_audit_list env http action userId skip tk token)))"

section \<open>Witnesses\<close>

definition sample_log :: "audit_log list" where
  "sample_log = map (\<lambda>t. \<lparr>entry = \<lparr>userSub = ''u'', userEmail = ''e'', audit_role = Admin, audit_action = ''restart'',
     target = ''web'', audit_result = ''ok''\<rparr>, entered = t\<rparr>) [1, 2, 3]"

definition no_filters :: audit_filters where
  "no_filters = \<lparr>f_action = None, f_target = None, f_userSub = None\<rparr>"

theorem audit_pages_complete_witness:
  "concat (map (\<lambda>k. fst (audit_list sample_log no_filters 2 (k * 2))) [0..<2])
    = newest_first (filter (audit_matches no_filters) sample_log)"
proof -
  have "snd (audit_list sample_log no_filters 2 0) \<le> 2 * 2"
    by (simp add: audit_list_def sample_log_def audit_matches_def no_filters_def)
  from audit_pages_complete [OF _ this] show ?thesis by simp
qed

theorem restart_is_audited_witness:
  "\<exists>st out res. restart_endpoint (\<lambda>_. None) actions_init ''web'' op_user (Some (Some web_state)) 0 0 True True = (st, out, res)
    \<and> length (audit_store 5 out) = 1"
proof -
  let ?r = "restart_endpoint (\<lambda>_. None) actions_init ''web'' op_user (Some (Some web_state)) 0 0 True True"
  obtain st out res where e: "?r = (st, out, res)" by (metis prod_cases3)
  have "fst (snd ?r) \<noteq> []"
    by (simp add: restart_endpoint_def ascii_alnum_def name_char_def restartContainer_def admit_restart_def
        web_state_def isProtected_def DEFAULT_PROTECTED_PROJECTS_def js_trim_def js_space_def
        checkRateLimit_def on_cooldown_def actions_init_def action_limits Let_def)
  with restart_is_audited [OF e, of 5 "[]"] e show ?thesis by auto
qed

definition restart_info :: inspect_info where
  "restart_info = \<lparr>info_Id = ''1'', info_Name = ''/web'',
     info_Labels = Some [COMPOSE_SERVICE \<mapsto> ''web'', COMPOSE_PROJECT \<mapsto> ''shop''],
     info_Image = ''i'', info_StartedAt = None, info_Status = Some Running, info_Health = None, info_Running = True\<rparr>"

definition restart_listing :: "container_info list" where
  "restart_listing = [\<lparr>ci_Id = ''1'', ci_Names = [''/web''], ci_Labels = info_Labels restart_info\<rparr>]"

lemma sample_request:
  "restart_request demo_lib demo_env (\<lambda>_. 0) (\<lambda>_. Some (restart_info, 0)) (Some restart_listing) (Some ''Bearer tok'')
     actions_init ''web'' 0 0 True True
   = (recordRestart actions_init ''web'' 0,
      [DockerRestart ''web'', AuditCreate (audit_row \<lparr>sub = Some ''u1'', email = None, user_role = Operator\<rparr> ''web'' ''ok'')],
      Inr (Inr ''web''))"
proof -
  have "findManagedByName demo_env (\<lambda>_. 0) (\<lambda>_. Some (restart_info, 0)) (Some restart_listing) ''web''
    = Some (Some (inspectState (\<lambda>_. 0) 0 restart_info))"
    by (simp add: findManagedByName_def restart_listing_def restart_info_def isManaged_def demo_env_def inspected_def)
  moreover have "project (inspectState (\<lambda>_. 0) 0 restart_info) = ''shop''"
    by (simp add: inspectState_def restart_info_def Let_def)
  moreover have "\<not> isProtected demo_env ''shop''"
    by (simp add: isProtected_def DEFAULT_PROTECTED_PROJECTS_def js_trim_def js_space_def demo_env_def)
  moreover have "matches_name 127 ''web''" by (simp add: ascii_alnum_def name_char_def)
  ultimately show ?thesis
    by (simp add: restart_request_def demo_guard restart_endpoint_def restartContainer_def admit_restart_def
        checkRateLimit_def on_cooldown_def actions_init_def GLOBAL_LIMIT_def Let_def)
qed

theorem restart_request_authorised_witness:
  "\<exists>t p. ''Bearer tok'' = BEARER @ t \<and> verify demo_lib demo_env t = Some p
    \<and> set (payload_claims p) \<inter> {''ADMIN'', ''OPERATOR''} \<noteq> {}"
  using restart_request_authorised [OF sample_request, of "''web''"] by auto

end
