(* ===== verification/Gateway.thy ===== *)
theory Gateway
  imports Http Shared
begin

text \<open>
  apps/api/src/gateway/live.gateway.ts: rooms and broadcasts of the /live namespace.  The
  state is the set of (socket, room) memberships Socket.IO keeps; a broadcast is the set of
  sockets it reaches.  The log handlers only call LogsService (theory LogsService), the resync
  handler only calls \<open>getSnapshot\<close> (theory Containers).
\<close>

section \<open>Requests\<close>

definition MAX_ROOMS_PER_REQUEST :: nat where "MAX_ROOMS_PER_REQUEST = 50"

definition SERVICE_NAME :: "string \<Rightarrow> bool" where
  "SERVICE_NAME s = matches_name 63 s"

fun valid_service :: "json \<Rightarrow> string option" where
  "valid_service (JStr s) = (if SERVICE_NAME s then Some s else None)"
| "valid_service _ = None"

definition sanitizeServices :: "json \<Rightarrow> string list" where
  "sanitizeServices req =
     (case req of JArr xs \<Rightarrow> take MAX_ROOMS_PER_REQUEST (js_uniq (List.map_filter valid_service xs)) | _ \<Rightarrow> [])"

definition corsOrigins :: "env \<Rightarrow> string list option" where
  "corsOrigins env = (if truthy (env ''CORS_ORIGIN'')
     then Some (map js_trim (js_split (CHR '','') (the (env ''CORS_ORIGIN'')))) else None)"

section \<open>Rooms\<close>

type_synonym memberships = "(string \<times> string) set"

definition onSubscribe :: "memberships \<Rightarrow> string \<Rightarrow> json \<Rightarrow> memberships \<times> string list" where
  "onSubscribe rooms socket req =
     (let valid = sanitizeServices req in (rooms \<union> (\<lambda>s. (socket, serviceRoom s)) ` set valid, valid))"

definition onUnsubscribe :: "memberships \<Rightarrow> string \<Rightarrow> json \<Rightarrow> memberships \<times> string list" where
  "onUnsubscribe rooms socket req =
     (let valid = sanitizeServices req in (rooms - (\<lambda>s. (socket, serviceRoom s)) ` set valid, valid))"

text \<open>Socket.IO takes a disconnected socket out of all rooms.\<close>

definition leave_all :: "memberships \<Rightarrow> string \<Rightarrow> memberships" where
  "leave_all rooms socket = {m \<in> rooms. fst m \<noteq> socket}"

text \<open>Who gets a message; before the server is up, nobody.\<close>

definition publishUpdate :: "bool \<Rightarrow> memberships \<Rightarrow> service_update \<Rightarrow> string set" where
  "publishUpdate server rooms u =
     (if \<not> server then {} else fst ` {m \<in> rooms. snd m = serviceRoom (upd_service u)})"

definition publishAlert :: "bool \<Rightarrow> string set \<Rightarrow> alert_type \<Rightarrow> (string \<times> alert_type) set" where
  "publishAlert server clients t = (if \<not> server then {} else (\<lambda>s. (s, t)) ` clients)"

section \<open>The gateway as a machine\<close>

datatype room_request = RoomsSubscribe string json | RoomsUnsubscribe string json | Disconnected string

fun room_step :: "memberships \<Rightarrow> room_request \<Rightarrow> memberships" where
  "room_step rooms (RoomsSubscribe s req) = fst (onSubscribe rooms s req)"
| "room_step rooms (RoomsUnsubscribe s req) = fst (onUnsubscribe rooms s req)"
| "room_step rooms (Disconnected s) = leave_all rooms s"

definition rooms_after :: "room_request list \<Rightarrow> memberships" where
  "rooms_after reqs = foldl room_step {} reqs"

section \<open>Sanitized requests\<close>

lemma sanitize_valid: "s \<in> set (sanitizeServices req) \<Longrightarrow> SERVICE_NAME s"
  by (auto simp: sanitizeServices_def List.map_filter_def split: json.splits if_splits
      dest!: in_set_takeD elim!: valid_service.elims)

lemma sanitize_distinct: "distinct (sanitizeServices req)"
  by (auto simp: sanitizeServices_def split: json.splits)

lemma sanitize_bound: "length (sanitizeServices req) \<le> 50"
  by (auto simp: sanitizeServices_def MAX_ROOMS_PER_REQUEST_def split: json.splits)

lemma map_filter_valid: "list_all SERVICE_NAME keys \<Longrightarrow> List.map_filter valid_service (map JStr keys) = keys"
  by (induction keys) (simp_all add: List.map_filter_simps)

lemma sanitize_keys:
  "list_all SERVICE_NAME keys \<Longrightarrow> sanitizeServices (JArr (map JStr keys)) = take 50 (js_uniq keys)"
  by (simp add: sanitizeServices_def map_filter_valid MAX_ROOMS_PER_REQUEST_def)

section \<open>Selective broadcast\<close>

text \<open>
  Specification: a socket wants the updates of a service when the last of its requests that
  names the service (or its disconnection) was an accepted subscription.  Latest first.
\<close>

fun decides :: "string \<Rightarrow> string \<Rightarrow> room_request \<Rightarrow> bool option" where
  "decides socket key (RoomsSubscribe s req) =
     (if s = socket \<and> key \<in> set (sanitizeServices req) then Some True else None)"
| "decides socket key (RoomsUnsubscribe s req) =
     (if s = socket \<and> key \<in> set (sanitizeServices req) then Some False else None)"
| "decides socket key (Disconnected s) = (if s = socket then Some False else None)"

definition wants :: "room_request list \<Rightarrow> string \<Rightarrow> string \<Rightarrow> bool" where
  "wants reqs socket key = (case List.map_filter (decides socket key) (rev reqs) of [] \<Rightarrow> False | b # _ \<Rightarrow> b)"

lemma room_step_mem:
  "(socket, serviceRoom key) \<in> room_step rooms r \<longleftrightarrow>
     (case decides socket key r of Some b \<Rightarrow> b | None \<Rightarrow> (socket, serviceRoom key) \<in> rooms)"
  by (cases r) (auto simp: onSubscribe_def onUnsubscribe_def leave_all_def Let_def)

lemma rooms_after_wants: "(socket, serviceRoom key) \<in> rooms_after reqs \<longleftrightarrow> wants reqs socket key"
proof (induction reqs rule: rev_induct)
  case (snoc r reqs)
  then show ?case
    by (auto simp: rooms_after_def wants_def room_step_mem List.map_filter_simps split: option.splits)
qed (simp add: rooms_after_def wants_def List.map_filter_simps)

lemma published_wants: "publishUpdate True (rooms_after reqs) u = {s. wants reqs s (upd_service u)}"
  by (force simp: publishUpdate_def simp flip: rooms_after_wants)

text \<open>
  Selective broadcast.  An update goes to exactly the sockets whose last word about its
  service was an accepted subscription; every acknowledged service is valid, listed once, at
  most 50 per request, and from then on delivered.
\<close>

theorem updates_reach_subscribers:
  shows "publishUpdate True (rooms_after reqs) u = {s. wants reqs s (upd_service u)}
    \<and> (let (rooms, ack) = onSubscribe (rooms_after reqs) socket req
       in length ack \<le> 50 \<and> distinct ack \<and> list_all SERVICE_NAME ack
        \<and> list_all (\<lambda>key. socket \<in> publishUpdate True rooms (u\<lparr>upd_service := key\<rparr>)) ack)"
proof -
  have "publishUpdate True (rooms_after reqs) u = {s. wants reqs s (upd_service u)}"
    by (rule published_wants)
  moreover have "socket \<in> publishUpdate True (fst (onSubscribe (rooms_after reqs) socket req)) (u\<lparr>upd_service := key\<rparr>)"
    if "key \<in> set (sanitizeServices req)" for key
    using that by (force simp: publishUpdate_def onSubscribe_def Let_def)
  ultimately show ?thesis
    by (auto simp: onSubscribe_def Let_def list_all_iff sanitize_bound sanitize_distinct sanitize_valid)
qed

text \<open>
  A dashboard with more than 50 services is only partly live.  The web client subscribes
  to every service of the snapshot in one request; of distinct valid keys only the first 50
  are joined, and an update of any later one does not reach the client.
\<close>

theorem oversized_request_truncated:
  assumes "list_all SERVICE_NAME keys" and "distinct keys" and "50 \<le> i" and "i < length keys"
    and "upd_service u = keys ! i"
  shows "socket \<notin> publishUpdate True (rooms_after [RoomsSubscribe socket (JArr (map JStr keys))]) u"
proof -
  have "keys ! i \<notin> set (take 50 keys)"
    using assms(2-4) by (auto simp: in_set_conv_nth nth_eq_iff_index_eq)
  then have "\<not> wants [RoomsSubscribe socket (JArr (map JStr keys))] socket (upd_service u)"
    using sanitize_keys [OF assms(1)] assms(2,5)
    by (simp add: wants_def List.map_filter_simps js_uniq_distinct)
  then show ?thesis by (simp add: published_wants)
qed

text \<open>Fifty-one services \<open>s\<close>, \<open>ss\<close>, \<open>sss\<close>, ...\<close>

definition sample_keys :: "string list" where
  "sample_keys = map (\<lambda>n. replicate (Suc n) (CHR ''s'')) [0..<51]"

theorem oversized_request_truncated_witness:
  "list_all SERVICE_NAME sample_keys
    \<and> ''c'' \<notin> publishUpdate True (rooms_after [RoomsSubscribe ''c'' (JArr (map JStr sample_keys))])
        \<lparr>upd_service = sample_keys ! 50,
         upd_state = \<lparr>sid = [], sname = [], service = [], project = [], img = [], status = Running, health = NoHealth,
           startedAt = None, uptimeSec = None\<rparr>, occurredAt = 0, upd_action = AStart, exitCode = None\<rparr>"
proof -
  have "ascii_alnum (CHR ''s'')" by (simp add: ascii_alnum_def)
  then have v: "list_all SERVICE_NAME sample_keys"
    by (auto simp: sample_keys_def list_all_iff SERVICE_NAME_def name_char_def)
  have d: "distinct sample_keys"
    by (auto simp: sample_keys_def distinct_map inj_on_def)
  have l: "length sample_keys = 51" by (simp add: sample_keys_def)
  show ?thesis
    by (rule conjI [OF v], rule oversized_request_truncated [OF v d, of 50]) (simp_all add: l)
qed

end
