(* ===== verification/NotifyBot.thy ===== *)
theory NotifyBot
  imports JsNumber Shared
begin

text \<open>
  The rest of apps/api/src/alerts: the client of ops-notify-bot (notify-bot.client.ts), the
  poller of its alert feed (alerts-poller.service.ts), the feed endpoint
  (alerts-feed.controller.ts) and the alert settings (alerts.controller.ts).
\<close>

section \<open>NotifyBotClient\<close>

datatype webhook_event = ContainerDownEvent string "int option" | ContainerRestartedEvent string

record alerts_query =
  q_limit :: "int option"
  q_offset :: "int option"
  q_type :: "string option"

text \<open>A query of \<open>URLSearchParams\<close>: names and values in order, encoded by the library.\<close>

type_synonym query = "(string \<times> string) list"

definition alerts_search :: "alerts_query \<Rightarrow> query" where
  "alerts_search p =
     (case q_limit p of None \<Rightarrow> [] | Some n \<Rightarrow> [(''limit'', show_int n)])
   @ (case q_offset p of None \<Rightarrow> [] | Some n \<Rightarrow> [(''offset'', show_int n)])
   @ (if truthy (q_type p) then [(''type'', the (q_type p))] else [])"

text \<open>\<open>listAlerts\<close>: \<open>http\<close> is the bot's answer to the request with that query.\<close>

definition listAlerts :: "env \<Rightarrow> (query \<Rightarrow> http_outcome) \<Rightarrow> alerts_query \<Rightarrow> http_error + json" where
  "listAlerts env http p =
     (if \<not> truthy (env ''NOTIFY_BOT_URL'') \<or> \<not> truthy (env ''NOTIFY_BOT_WEBHOOK_SECRET'')
      then Inl (ServiceUnavailable (NotConfigured ''NOTIFY_BOT_URL/NOTIFY_BOT_WEBHOOK_SECRET''))
      else case http (alerts_search p) of
        NetFail \<Rightarrow> Inl (ServiceUnavailable (Unreachable ''ops-notify-bot''))
      | Resp s b \<Rightarrow>
          (let data = json_or_empty b in
           if \<not> resp_ok s
           then (case jfield ''error'' data of
               Some e \<Rightarrow> if e = JNull then Inl (ServiceUnavailable (UpstreamStatus s))
                         else Inl (ServiceUnavailable (UpstreamSaid e))
             | None \<Rightarrow> Inl (ServiceUnavailable (UpstreamStatus s)))
           else Inr data))"

text \<open>\<open>send\<close> posts the event when configured, and returns normally whatever happens.\<close>

datatype send_log = Skipped | Delivered | BotAnswered nat | BotUnreachable

definition send_event :: "env \<Rightarrow> (webhook_event \<Rightarrow> http_outcome) \<Rightarrow> webhook_event \<Rightarrow> send_log" where
  "send_event env http ev =
     (if \<not> truthy (env ''NOTIFY_BOT_URL'') \<or> \<not> truthy (env ''NOTIFY_BOT_WEBHOOK_SECRET'') then Skipped
      else case http ev of NetFail \<Rightarrow> BotUnreachable
        | Resp s b \<Rightarrow> if resp_ok s then Delivered else BotAnswered s)"

section \<open>AlertsFeedController\<close>

definition feed_list ::
  "env \<Rightarrow> (query \<Rightarrow> http_outcome) \<Rightarrow> string option \<Rightarrow> string option \<Rightarrow> string option \<Rightarrow> http_error + json" where
  "feed_list env http type limitRaw offsetRaw =
     ebind (parse_page limitRaw offsetRaw) (\<lambda>(limit, offset).
       listAlerts env http \<lparr>q_limit = Some limit, q_offset = Some offset, q_type = type\<rparr>)"

section \<open>AlertsPollerService\<close>

record alert_item =
  alert_id :: string
  alert_kind :: alert_type

record poller_state =
  lastSeenId :: "string option"
  initialized :: bool

definition POLL_LIMIT :: nat where "POLL_LIMIT = 20"

definition poller_init :: poller_state where
  "poller_init = \<lparr>lastSeenId = None, initialized = False\<rparr>"

definition head_id :: "alert_item list \<Rightarrow> string option" where
  "head_id items = (case items of [] \<Rightarrow> None | x # _ \<Rightarrow> Some (alert_id x))"

text \<open>\<open>findIndex\<close> with the cut at the boundary: all items when it is not found.\<close>

definition fresh_items :: "string option \<Rightarrow> alert_item list \<Rightarrow> alert_item list" where
  "fresh_items seen items = takeWhile (\<lambda>x. Some (alert_id x) \<noteq> seen) items"

text \<open>One poll from the answer on; the published types, in order.  \<open>None\<close>: the bot failed.\<close>

definition poll :: "poller_state \<Rightarrow> alert_item list option \<Rightarrow> poller_state \<times> alert_type list" where
  "poll st answer =
     (case answer of None \<Rightarrow> (st, [])
      | Some items \<Rightarrow>
          if \<not> initialized st then (\<lparr>lastSeenId = head_id items, initialized = True\<rparr>, [])
          else if items = [] then (st, [])
          else (let fresh = fresh_items (lastSeenId st) items in
                if fresh = [] then (st, [])
                else (st\<lparr>lastSeenId := head_id items\<rparr>, map alert_kind (rev fresh))))"

text \<open>
  The bot's feed, newest first: \<open>tick hist\<close> is one poll of it, with the 20 newest items when
  the bot answers.
\<close>

type_synonym tick = "alert_item list \<times> bool" \<comment> \<open>items new since the last tick, bot answers\<close>

fun poller_run :: "poller_state \<Rightarrow> alert_item list \<Rightarrow> tick list \<Rightarrow> poller_state \<times> alert_type list" where
  "poller_run st hist [] = (st, [])"
| "poller_run st hist ((new, ok) # ts) =
     (let hist' = new @ hist;
          (st1, out1) = poll st (if ok then Some (take POLL_LIMIT hist') else None);
          (st2, out2) = poller_run st1 hist' ts
      in (st2, out1 @ out2))"

text \<open>What is new since the last successful poll, and the bound under which nothing is lost.\<close>

fun backlog :: "alert_item list \<Rightarrow> tick list \<Rightarrow> alert_item list" where
  "backlog pend [] = pend"
| "backlog pend ((new, ok) # ts) = backlog (if ok then [] else new @ pend) ts"

fun bursts_ok :: "nat \<Rightarrow> tick list \<Rightarrow> bool" where
  "bursts_ok n [] = True"
| "bursts_ok n ((new, ok) # ts) = (n + length new \<le> 20 \<and> bursts_ok (if ok then 0 else n + length new) ts)"

definition arrivals :: "tick list \<Rightarrow> alert_item list" where
  "arrivals ts = concat (rev (map fst ts))"

lemma fresh_boundary:
  assumes "Some (alert_id s) = seen" and "\<forall>x\<in>set pend. Some (alert_id x) \<noteq> seen"
  shows "fresh_items seen (pend @ s # rest) = pend"
  using assms by (simp add: fresh_items_def takeWhile_tail)

lemma poll_up_to_date:
  assumes "initialized st" and "lastSeenId st = head_id seen" and "distinct (map alert_id (pend @ seen))"
    and "length pend \<le> 20"
  shows "poll st (Some (take POLL_LIMIT (pend @ seen)))
    = (\<lparr>lastSeenId = head_id (pend @ seen), initialized = True\<rparr>, map alert_kind (rev pend))"
proof -
  have new: "\<forall>x\<in>set pend. alert_id x \<notin> alert_id ` set seen" using assms(3) by auto
  have fresh: "fresh_items (lastSeenId st) (take 20 (pend @ seen)) = pend"
  proof (cases "seen = [] \<or> length pend = 20")
    case True
    have "\<forall>x\<in>set pend. Some (alert_id x) \<noteq> lastSeenId st"
      using assms(2) new by (cases seen) (auto simp: head_id_def)
    with True assms(4) show ?thesis by (auto simp: fresh_items_def takeWhile_eq_all_conv)
  next
    case False
    then obtain s rest where s: "seen = s # rest" by (cases seen) auto
    with False assms(4) obtain k where "20 - length pend = Suc k" by (cases "20 - length pend") auto
    then have "take 20 (pend @ seen) = pend @ s # take k rest" using assms(4) s by simp
    moreover have "\<forall>x\<in>set pend. Some (alert_id x) \<noteq> lastSeenId st" "Some (alert_id s) = lastSeenId st"
      using assms(2) new by (auto simp: s head_id_def)
    ultimately show ?thesis using fresh_boundary by metis
  qed
  have hd: "head_id (take 20 (pend @ seen)) = head_id (pend @ seen)"
    by (cases "pend @ seen") (auto simp: head_id_def)
  show ?thesis
  proof (cases pend)
    case Nil
    have "st = \<lparr>lastSeenId = head_id seen, initialized = True\<rparr>" using assms(1,2) by simp
    with fresh Nil show ?thesis
      by (cases seen) (simp_all add: poll_def assms(1) POLL_LIMIT_def Let_def)
  next
    case (Cons p ps)
    with fresh hd assms(1) show ?thesis
      by (simp add: poll_def POLL_LIMIT_def Let_def del: append_Cons take_Suc_Cons)
  qed
qed



text \<open>
  A longer burst is cut.  If more than 20 alerts arrive between two successful polls, the
  older ones are never published: the poll emits the 20 newest and moves its mark past all.
\<close>

theorem poller_drops_long_burst:
  assumes "initialized st" and "lastSeenId st = head_id seen" and "20 < length new"
    and "distinct (map alert_id (new @ seen))"
  shows "snd (poller_run st seen [(new, True)]) = map alert_kind (rev (take 20 new))
    \<and> lastSeenId (fst (poller_run st seen [(new, True)])) = head_id (new @ seen)"
proof -
  have n: "take POLL_LIMIT (new @ seen) = take 20 new" using assms(3) by (simp add: POLL_LIMIT_def)
  have "\<forall>x\<in>set new. alert_id x \<notin> alert_id ` set seen" using assms(4) by auto
  then have "\<forall>x\<in>set (take 20 new). Some (alert_id x) \<noteq> lastSeenId st"
    using assms(2) by (cases seen) (auto simp: head_id_def dest: in_set_takeD)
  then have f: "fresh_items (lastSeenId st) (take 20 new) = take 20 new"
    by (simp add: fresh_items_def takeWhile_eq_all_conv)
  obtain x xs where c: "take 20 new = x # xs" "head_id (new @ seen) = Some (alert_id x)"
    using assms(3) by (cases new) (auto simp: head_id_def)
  have "poll st (Some (take 20 new)) = (st\<lparr>lastSeenId := head_id (new @ seen)\<rparr>, map alert_kind (rev (take 20 new)))"
    unfolding poll_def using f c assms(1) by (simp add: Let_def head_id_def)
  then show ?thesis by (simp add: n del: take_append)
qed

section \<open>AlertsController\<close>

definition ALERT_KEYS :: "string list" where
  "ALERT_KEYS = [''container_down'', ''container_restarted'']"

record alert_setting =
  set_key :: string
  set_enabled :: bool
  set_threshold :: "rat option"
  set_updatedBy :: "string option"

definition default_setting :: "string \<Rightarrow> alert_setting" where
  "default_setting key = \<lparr>set_key = key, set_enabled = True, set_threshold = None, set_updatedBy = None\<rparr>"

text \<open>\<open>list\<close>: the rows of the table with a default for every known key without one.\<close>

definition settings_list :: "(string \<Rightarrow> string \<Rightarrow> bool) \<Rightarrow> alert_setting list \<Rightarrow> alert_setting list" where
  "settings_list loc rows =
     js_sort (\<lambda>a b. loc (set_key a) (set_key b))
       (rows @ map default_setting (filter (\<lambda>k. \<not> list_ex (\<lambda>s. set_key s = k) rows) ALERT_KEYS))"

record setting_patch =
  patch_enabled :: "bool option"
  patch_threshold :: "rat option option" \<comment> \<open>\<open>Some None\<close> is an explicit null\<close>

definition upsert_setting :: "alert_setting list \<Rightarrow> string \<Rightarrow> setting_patch \<Rightarrow> string option \<Rightarrow> alert_setting list \<times> alert_setting" where
  "upsert_setting rows key p by_sub =
     (case find (\<lambda>s. set_key s = key) rows of
        None \<Rightarrow> (let s = \<lparr>set_key = key, set_enabled = nullish (patch_enabled p) True,
                     set_threshold = nullish (patch_threshold p) None, set_updatedBy = by_sub\<rparr>
                in (rows @ [s], s))
      | Some s0 \<Rightarrow>
          (let s = s0\<lparr>set_enabled := nullish (patch_enabled p) (set_enabled s0),
                      set_threshold := nullish (patch_threshold p) (set_threshold s0),
                      set_updatedBy := by_sub\<rparr>
           in (map (\<lambda>x. if set_key x = key then s else x) rows, s)))"

definition settings_update ::
  "alert_setting list \<Rightarrow> string \<Rightarrow> setting_patch \<Rightarrow> auth_user \<Rightarrow> http_error + alert_setting list \<times> alert_setting" where
  "settings_update rows key p user =
     (if key \<notin> set ALERT_KEYS then Inl (BadRequest (UnknownAlertKey key))
      else if patch_enabled p = None \<and> patch_threshold p = None then Inl (BadRequest NothingToUpdate)
      else Inr (upsert_setting rows key p (sub user)))"

text \<open>What AlertsService reads: the row of the key, if any, and its flag.\<close>

definition setting_flag :: "alert_setting list \<Rightarrow> string \<Rightarrow> bool option" where
  "setting_flag rows key = map_option set_enabled (find (\<lambda>s. set_key s = key) rows)"

lemma find_key: "find (\<lambda>s. set_key s = key) rows = Some s \<Longrightarrow> set_key s = key \<and> s \<in> set rows"
  by (auto simp: find_Some_iff)

lemma settings_list_key:
  assumes "k \<in> set ALERT_KEYS" and "\<forall>s\<in>set rows. set_key s \<in> set ALERT_KEYS"
    and "distinct (map set_key rows)"
  shows "\<exists>!s. s \<in> set (settings_list loc rows) \<and> set_key s = k"
proof (cases "\<exists>s\<in>set rows. set_key s = k")
  case True
  then obtain s where s: "s \<in> set rows" "set_key s = k" by blast
  show ?thesis
  proof (rule ex1I [of _ s])
    show "s \<in> set (settings_list loc rows) \<and> set_key s = k" using s by (simp add: settings_list_def)
    fix t assume t: "t \<in> set (settings_list loc rows) \<and> set_key t = k"
    with s have "t \<in> set rows" by (auto simp: settings_list_def default_setting_def list_ex_iff)
    with s t assms(3) show "t = s" by (auto simp: distinct_map inj_on_def)
  qed
next
  case False
  with assms(1) show ?thesis
    by (intro ex1I [of _ "default_setting k"])
       (auto simp: settings_list_def default_setting_def list_ex_iff)
qed

text \<open>
  The settings page and the alert decision agree.  For every known key the admin's list
  has exactly one entry, and its flag is the one AlertsService acts on (no row means on); a
  successful update of a key sets exactly the given fields of that entry.
\<close>

theorem settings_agree_with_decision:
  assumes "\<forall>s\<in>set rows. set_key s \<in> set ALERT_KEYS" and "distinct (map set_key rows)" and "k \<in> set ALERT_KEYS"
  shows "(\<exists>!s. s \<in> set (settings_list loc rows) \<and> set_key s = k)
    \<and> (\<forall>s \<in> set (settings_list loc rows). set_key s = k \<longrightarrow> set_enabled s = nullish (setting_flag rows k) True)
    \<and> (\<forall>p user rows' s. settings_update rows k p user = Inr (rows', s) \<longrightarrow>
         setting_flag rows' k = Some (nullish (patch_enabled p) (nullish (setting_flag rows k) True))
       \<and> (\<forall>k'. k' \<noteq> k \<longrightarrow> setting_flag rows' k' = setting_flag rows k'))"
proof (intro conjI)
  show one: "\<exists>!s. s \<in> set (settings_list loc rows) \<and> set_key s = k"
    by (rule settings_list_key [OF assms(3,1,2)])
  show "\<forall>s \<in> set (settings_list loc rows). set_key s = k \<longrightarrow> set_enabled s = nullish (setting_flag rows k) True"
  proof (intro ballI impI)
    fix s assume s: "s \<in> set (settings_list loc rows)" "set_key s = k"
    show "set_enabled s = nullish (setting_flag rows k) True"
    proof (cases "find (\<lambda>s. set_key s = k) rows")
      case None
      then have "s \<notin> set rows" using s(2) by (auto simp: find_None_iff)
      with s have "set_enabled s" by (auto simp: settings_list_def default_setting_def)
      with None show ?thesis by (simp add: setting_flag_def)
    next
      case (Some t)
      from find_key [OF this] have "t \<in> set (settings_list loc rows) \<and> set_key t = k" by (simp add: settings_list_def)
      with one s have "s = t" by blast
      with Some show ?thesis by (simp add: setting_flag_def)
    qed
  qed
  have map_find: "find (\<lambda>s. set_key s = k') (map (\<lambda>x. if set_key x = k then t else x) rows)
      = (if k' = k then (if find (\<lambda>s. set_key s = k) rows = None then None else Some t) else find (\<lambda>s. set_key s = k') rows)"
    if "set_key t = k" for t k' using that by (induction rows) auto
  have app_find: "find p (rows @ [s]) = (case find p rows of None \<Rightarrow> (if p s then Some s else None) | Some x \<Rightarrow> Some x)"
    for p and s :: alert_setting by (induction rows) auto
  show "\<forall>p user rows' s. settings_update rows k p user = Inr (rows', s) \<longrightarrow>
         setting_flag rows' k = Some (nullish (patch_enabled p) (nullish (setting_flag rows k) True))
       \<and> (\<forall>k'. k' \<noteq> k \<longrightarrow> setting_flag rows' k' = setting_flag rows k')"
  proof (intro allI impI)
    fix p user rows' s assume "settings_update rows k p user = Inr (rows', s)"
    then have u: "upsert_setting rows k p (sub user) = (rows', s)"
      by (auto simp: settings_update_def split: if_splits)
    show "setting_flag rows' k = Some (nullish (patch_enabled p) (nullish (setting_flag rows k) True))
       \<and> (\<forall>k'. k' \<noteq> k \<longrightarrow> setting_flag rows' k' = setting_flag rows k')"
    proof (cases "find (\<lambda>s. set_key s = k) rows")
      case None
      with u show ?thesis by (auto simp: upsert_setting_def setting_flag_def app_find Let_def split: option.splits)
    next
      case (Some t)
      with u have rows': "rows' = map (\<lambda>x. if set_key x = k then s else x) rows"
        and s: "set_enabled s = nullish (patch_enabled p) (set_enabled t)" "set_key s = set_key t"
        by (auto simp: upsert_setting_def Let_def)
      have "set_key s = k" using find_key [OF Some] s(2) by simp
      from map_find [OF this] Some s(1) show ?thesis by (simp add: setting_flag_def rows')
    qed
  qed
qed

theorem settings_agree_with_decision_witness:
  "\<exists>!s. s \<in> set (settings_list (\<lambda>_ _. True) [\<lparr>set_key = ''container_down'', set_enabled = False,
      set_threshold = None, set_updatedBy = None\<rparr>]) \<and> set_key s = ''container_restarted''"
  using settings_agree_with_decision [of "[\<lparr>set_key = ''container_down'', set_enabled = False,
      set_threshold = None, set_updatedBy = None\<rparr>]" "''container_restarted''" "\<lambda>_ _. True"]
  by (simp add: ALERT_KEYS_def)

theorem poller_drops_long_burst_witness:
  "length (snd (poller_run \<lparr>lastSeenId = None, initialized = True\<rparr> []
      [(map (\<lambda>n. \<lparr>alert_id = show_nat n, alert_kind = Deploy\<rparr>) [0..<21], True)])) = 20"
proof -
  let ?new = "map (\<lambda>n. \<lparr>alert_id = show_nat n, alert_kind = Deploy\<rparr>) [0..<21]"
  have "inj show_nat" by (metis digits_val_show injI)
  then have "distinct (map alert_id (?new @ []))"
    by (simp add: distinct_map comp_def inj_on_def inj_def)
  from poller_drops_long_burst [OF _ _ _ this, of "\<lparr>lastSeenId = None, initialized = True\<rparr>"]
  show ?thesis by (simp add: head_id_def del: upt_rec_numeral)
qed

end
