(* ===== verification/Taskforge.thy ===== *)
theory Taskforge
  imports JsNumber Shared
begin

text \<open>
  The delegation of work to taskforge: apps/api/src/jobs (the client with its token cache,
  the job runs), apps/api/src/taskforge-status (the queue overview) and the dependency checks
  of apps/api/src/health.
\<close>

section \<open>The token cache of TaskforgeClient\<close>

definition TOKEN_REFRESH_MARGIN_MS :: int where "TOKEN_REFRESH_MARGIN_MS = 30000"

text \<open>\<open>expiresAt\<close> is \<open>None\<close> when the arithmetic gave NaN (no \<open>expires_in\<close>).\<close>

record cached_token =
  accessToken :: string
  expiresAt :: "rat option"

text \<open>\<open>waiters\<close>: the callers that await \<open>pendingToken\<close>.\<close>

record token_state =
  cachedToken :: "cached_token option"
  pendingToken :: "int option" \<comment> \<open>the \<open>now\<close> of the call that started it\<close>
  waiters :: "nat list"

definition token_init :: token_state where
  "token_init = \<lparr>cachedToken = None, pendingToken = None, waiters = []\<rparr>"

datatype token_result = GotToken string "rat option" | TokenError http_error

datatype token_effect = PostToken | Answered nat "http_error + string"

definition token_configured :: "env \<Rightarrow> bool" where
  "token_configured env = (truthy (env ''TASKFORGE_CLIENT_ID'') \<and> truthy (env ''TASKFORGE_CLIENT_SECRET'')
     \<and> truthy (env ''AUTH_SERVICE_URL''))"

definition token_valid :: "cached_token \<Rightarrow> int \<Rightarrow> bool" where
  "token_valid t now = (case expiresAt t of None \<Rightarrow> False
     | Some e \<Rightarrow> of_int TOKEN_REFRESH_MARGIN_MS < e - of_int now)"

definition getAccessToken :: "env \<Rightarrow> token_state \<Rightarrow> nat \<Rightarrow> int \<Rightarrow> token_state \<times> token_effect list" where
  "getAccessToken env st caller now =
     (case cachedToken st of
        Some t \<Rightarrow>
          if token_valid t now then (st, [Answered caller (Inr (accessToken t))])
          else (case pendingToken st of
              Some _ \<Rightarrow> (st\<lparr>waiters := waiters st @ [caller]\<rparr>, [])
            | None \<Rightarrow> (st\<lparr>pendingToken := Some now, waiters := [caller]\<rparr>,
                if token_configured env then [PostToken] else []))
      | None \<Rightarrow>
          (case pendingToken st of
              Some _ \<Rightarrow> (st\<lparr>waiters := waiters st @ [caller]\<rparr>, [])
            | None \<Rightarrow> (st\<lparr>pendingToken := Some now, waiters := [caller]\<rparr>,
                if token_configured env then [PostToken] else [])))"

text \<open>\<open>fetchAccessToken\<close> from the answer of the auth service.\<close>

definition fetchAccessToken :: "env \<Rightarrow> http_outcome \<Rightarrow> token_result" where
  "fetchAccessToken env http =
     (if \<not> token_configured env
      then TokenError (ServiceUnavailable (NotConfigured ''TASKFORGE_CLIENT_ID/TASKFORGE_CLIENT_SECRET/AUTH_SERVICE_URL''))
      else case http of
        NetFail \<Rightarrow> TokenError (ServiceUnavailable (Unreachable ''cci-auth-service''))
      | Resp s b \<Rightarrow>
          if \<not> resp_ok s then TokenError (ServiceUnavailable (UpstreamStatus s))
          else (case b of None \<Rightarrow> TokenError UncheckedError
            | Some data \<Rightarrow>
                GotToken (case jfield ''access_token'' data of Some (JStr t) \<Rightarrow> t | _ \<Rightarrow> ''undefined'')
                  (case jfield ''expires_in'' data of Some (JNum q) \<Rightarrow> Some q | _ \<Rightarrow> None)))"

text \<open>The promise settles: the cache is filled, every waiter is answered, the slot is freed.\<close>

definition token_settled :: "token_state \<Rightarrow> token_result \<Rightarrow> token_state \<times> token_effect list" where
  "token_settled st res =
     (case res of
        GotToken t e \<Rightarrow>
          (st\<lparr>cachedToken := Some \<lparr>accessToken = t,
                expiresAt = map_option (\<lambda>q. of_int (the (pendingToken st)) + q * 1000) e\<rparr>,
              pendingToken := None, waiters := []\<rparr>,
           map (\<lambda>w. Answered w (Inr t)) (waiters st))
      | TokenError err \<Rightarrow>
          (st\<lparr>pendingToken := None, waiters := []\<rparr>, map (\<lambda>w. Answered w (Inl err)) (waiters st)))"

datatype token_event = Call nat int | Settled http_outcome

fun token_enabled :: "token_state \<Rightarrow> token_event \<Rightarrow> bool" where
  "token_enabled st (Call c now) = True"
| "token_enabled st (Settled h) = (pendingToken st \<noteq> None)"

fun token_step :: "env \<Rightarrow> token_state \<Rightarrow> token_event \<Rightarrow> token_state \<times> token_effect list" where
  "token_step env st (Call c now) = getAccessToken env st c now"
| "token_step env st (Settled h) = token_settled st (fetchAccessToken env h)"

inductive token_reach :: "env \<Rightarrow> token_event list \<Rightarrow> token_state \<Rightarrow> token_effect list \<Rightarrow> bool" for env where
  token_start: "token_reach env [] token_init []"
| token_more: "\<lbrakk>token_reach env es st out; token_enabled st e; token_step env st e = (st1, out1)\<rbrakk>
    \<Longrightarrow> token_reach env (es @ [e]) st1 (out @ out1)"

section \<open>Single flight\<close>

fun answers :: "token_effect list \<Rightarrow> nat list" where
  "answers [] = []"
| "answers (Answered c r # out) = c # answers out"
| "answers (PostToken # out) = answers out"

fun callers :: "token_event list \<Rightarrow> nat list" where
  "callers [] = []"
| "callers (Call c now # es) = c # callers es"
| "callers (Settled h # es) = callers es"

fun settlements :: "token_event list \<Rightarrow> nat" where
  "settlements [] = 0"
| "settlements (Call c now # es) = settlements es"
| "settlements (Settled h # es) = Suc (settlements es)"

lemma answers_append [simp]: "answers (xs @ ys) = answers xs @ answers ys"
  by (induction xs rule: answers.induct) auto

lemma answers_map [simp]: "answers (map (\<lambda>w. Answered w r) ws) = ws"
  by (induction ws) auto

lemma callers_append [simp]: "callers (xs @ ys) = callers xs @ callers ys"
  by (induction xs rule: callers.induct) auto

lemma settlements_append [simp]: "settlements (xs @ ys) = settlements xs + settlements ys"
  by (induction xs rule: settlements.induct) auto

definition posts :: "token_effect list \<Rightarrow> nat" where
  "posts out = count_list out PostToken"

lemma posts_simps [simp]:
  "posts [] = 0" "posts (xs @ ys) = posts xs + posts ys" "posts [PostToken] = 1"
  "posts (map (\<lambda>w. Answered w r) ws) = 0" "posts [Answered c r] = 0"
  by (auto simp: posts_def count_list_0_iff)

definition flight_inv :: "env \<Rightarrow> token_event list \<Rightarrow> token_state \<Rightarrow> token_effect list \<Rightarrow> bool" where
  "flight_inv env es st out \<longleftrightarrow>
     (token_configured env \<longrightarrow> posts out = settlements es + (if pendingToken st = None then 0 else 1))
   \<and> (\<not> token_configured env \<longrightarrow> posts out = 0)
   \<and> mset (callers es) = mset (answers out) + mset (waiters st)
   \<and> (pendingToken st = None \<longrightarrow> waiters st = [])"

lemma flight_step:
  assumes "flight_inv env es st out" and "token_enabled st e" and "token_step env st e = (st1, out1)"
  shows "flight_inv env (es @ [e]) st1 (out @ out1)"
proof (cases e)
  case (Call c now)
  with assms show ?thesis
    by (auto simp: flight_inv_def getAccessToken_def split: option.splits if_splits)
next
  case (Settled h)
  with assms show ?thesis
    by (auto simp: flight_inv_def token_settled_def split: token_result.splits)
qed

lemma flight_reach: "token_reach env es st out \<Longrightarrow> flight_inv env es st out"
proof (induction rule: token_reach.induct)
  case token_start
  show ?case by (simp add: flight_inv_def token_init_def)
next
  case (token_more es st out e st1 out1)
  from flight_step [OF token_more.IH token_more.hyps(2,3)] show ?case .
qed

text \<open>
  Single flight.  The requests sent to the auth service are one per settled answer plus
  the one in flight, if any: however many callers ask at once, one request is out at a time.
  Every caller is answered exactly once or still waits, and nobody waits without a request.
\<close>

theorem token_single_flight:
  assumes "token_reach env es st out" and "token_configured env"
  shows "posts out = settlements es + (if pendingToken st = None then 0 else 1)
    \<and> mset (callers es) = mset (answers out) + mset (waiters st)
    \<and> (pendingToken st = None \<longrightarrow> waiters st = [])"
  using flight_reach [OF assms(1)] assms(2) by (simp add: flight_inv_def)

section \<open>Freshness\<close>

definition started :: "token_event list \<Rightarrow> int \<Rightarrow> bool" where
  "started es now \<longleftrightarrow> (\<exists>c. Call c now \<in> set es)"

definition token_origin :: "env \<Rightarrow> token_event list \<Rightarrow> cached_token \<Rightarrow> bool" where
  "token_origin env es t \<longleftrightarrow> (\<exists>start h e. started es start \<and> Settled h \<in> set es
     \<and> fetchAccessToken env h = GotToken (accessToken t) e
     \<and> expiresAt t = map_option (\<lambda>q. of_int start + q * 1000) e)"

definition cached_from :: "env \<Rightarrow> token_event list \<Rightarrow> token_state \<Rightarrow> bool" where
  "cached_from env es st \<longleftrightarrow>
     (\<forall>t. cachedToken st = Some t \<longrightarrow> token_origin env es t)
   \<and> (\<forall>now. pendingToken st = Some now \<longrightarrow> started es now)"

lemma started_mono: "started es now \<Longrightarrow> started (es @ fs) now"
  by (auto simp: started_def)

lemma origin_mono: "token_origin env es t \<Longrightarrow> token_origin env (es @ fs) t"
  unfolding token_origin_def by (metis Un_iff set_append started_mono)

lemma cached_mono: "cached_from env es st \<Longrightarrow> cached_from env (es @ fs) st"
  by (auto simp: cached_from_def origin_mono started_mono)

lemma getAccessToken_frame:
  assumes "getAccessToken env st c now = (st1, out1)"
  shows "cachedToken st1 = cachedToken st" "pendingToken st1 = pendingToken st \<or> pendingToken st1 = Some now"
  using assms by (auto simp: getAccessToken_def split: option.splits if_splits)

lemma cached_step:
  assumes "cached_from env es st" and "token_enabled st e" and "token_step env st e = (st1, out1)"
  shows "cached_from env (es @ [e]) st1"
proof (cases e)
  case (Call c now)
  with assms(3) have f: "getAccessToken env st c now = (st1, out1)" by simp
  have "started (es @ [e]) now" by (auto simp: started_def Call)
  with cached_mono [OF assms(1), of "[e]"] getAccessToken_frame [OF f] show ?thesis
    by (auto simp: cached_from_def)
next
  case (Settled h)
  with assms(2) obtain start where p: "pendingToken st = Some start" by auto
  with assms(1) have c: "started (es @ [e]) start" by (auto simp: cached_from_def started_mono)
  show ?thesis
  proof (cases "fetchAccessToken env h")
    case (GotToken t q)
    with assms(3) have st1: "cachedToken st1 = Some \<lparr>accessToken = t, expiresAt = map_option (\<lambda>q. of_int start + q * 1000) q\<rparr>"
      "pendingToken st1 = None" by (auto simp: Settled token_settled_def p)
    have "Settled h \<in> set (es @ [e])" by (simp add: Settled)
    with c GotToken have "token_origin env (es @ [e]) \<lparr>accessToken = t, expiresAt = map_option (\<lambda>q. of_int start + q * 1000) q\<rparr>"
      unfolding token_origin_def by auto
    with st1 show ?thesis by (simp add: cached_from_def)
  next
    case (TokenError err)
    with cached_mono [OF assms(1), of "[e]"] assms(3) show ?thesis
      by (auto simp: Settled token_settled_def cached_from_def)
  qed
qed

lemma cached_reach: "token_reach env es st out \<Longrightarrow> cached_from env es st"
proof (induction rule: token_reach.induct)
  case token_start
  show ?case by (simp add: cached_from_def token_init_def)
next
  case (token_more es st out e st1 out1)
  from cached_step [OF token_more.IH token_more.hyps(2,3)] show ?case .
qed


theorem token_single_flight_witness:
  "\<exists>st out. token_reach (\<lambda>_. Some ''x'') [Call 1 0, Call 2 5, Call 3 9] st out \<and> posts out = 1"
proof -
  let ?env = "\<lambda>_. Some ''x''"
  let ?s = "\<lambda>ws. \<lparr>cachedToken = None, pendingToken = Some 0, waiters = ws\<rparr>"
  have c: "token_configured ?env" by (simp add: token_configured_def)
  have "token_reach ?env ([] @ [Call 1 0]) (?s [1]) ([] @ [PostToken])"
    by (rule token_more [OF token_start]) (simp_all add: token_init_def getAccessToken_def c)
  then have "token_reach ?env (([] @ [Call 1 0]) @ [Call 2 5]) (?s [1, 2]) (([] @ [PostToken]) @ [])"
    by (rule token_more) (simp_all add: getAccessToken_def)
  then have "token_reach ?env ((([] @ [Call 1 0]) @ [Call 2 5]) @ [Call 3 9]) (?s [1, 2, 3]) ((([] @ [PostToken]) @ []) @ [])"
    by (rule token_more) (simp_all add: getAccessToken_def)
  then have r: "token_reach ?env [Call 1 0, Call 2 5, Call 3 9] (?s [1, 2, 3]) [PostToken]" by simp
  from token_single_flight [OF r c] r show ?thesis
    by (intro exI [of _ "?s [1, 2, 3]"] exI [of _ "[PostToken]"]) simp
qed

definition token_answer :: http_outcome where
  "token_answer = Resp 200 (Some (JObj [(''access_token'', JStr ''t''), (''expires_in'', JNum 60)]))"


section \<open>Requests to taskforge\<close>

text \<open>\<open>request\<close> with a token; the method, the path and its query are the argument of \<open>http\<close>.\<close>

definition taskforge_request :: "env \<Rightarrow> (string \<Rightarrow> http_outcome) \<Rightarrow> string \<Rightarrow> http_error + json" where
  "taskforge_request env http path =
     (if \<not> truthy (env ''TASKFORGE_URL'') then Inl (ServiceUnavailable (NotConfigured ''TASKFORGE_URL''))
      else case http path of
        NetFail \<Rightarrow> Inl (ServiceUnavailable (Unreachable ''taskforge''))
      | Resp s b \<Rightarrow>
          (let data = json_or_empty b in
           if resp_ok s then Inr data
           else (case jfield ''message'' data of
               Some m \<Rightarrow> if m = JNull then Inl (ServiceUnavailable (UpstreamStatus s))
                         else Inl (ServiceUnavailable (UpstreamSaid m))
             | None \<Rightarrow> Inl (ServiceUnavailable (UpstreamStatus s)))))"

datatype taskforge_state = Queued | Active | Delayed | Completed | Failed | Dlq

definition TASKFORGE_JOB_STATES :: "taskforge_state list" where
  "TASKFORGE_JOB_STATES = [Queued, Active, Delayed, Completed, Failed, Dlq]"

fun state_name :: "taskforge_state \<Rightarrow> string" where
  "state_name Queued = ''queued''"
| "state_name Active = ''active''"
| "state_name Delayed = ''delayed''"
| "state_name Completed = ''completed''"
| "state_name Failed = ''failed''"
| "state_name Dlq = ''dlq''"

definition jobs_search :: "taskforge_state option \<Rightarrow> int option \<Rightarrow> (string \<times> string) list" where
  "jobs_search st limit =
     (case st of None \<Rightarrow> [] | Some x \<Rightarrow> [(''state'', state_name x)])
   @ (case limit of None \<Rightarrow> [] | Some n \<Rightarrow> [(''limit'', show_int n)])"

section \<open>JobsService\<close>

datatype job_status = PENDING | RUNNING | COMPLETED | FAILED

definition mapState :: "string \<Rightarrow> job_status" where
  "mapState s = (if s = ''active'' then RUNNING else if s = ''completed'' then COMPLETED
     else if s = ''failed'' \<or> s = ''dlq'' then FAILED else PENDING)"

definition DEFAULT_STEPS :: int where "DEFAULT_STEPS = 5"
definition MAX_STEPS :: int where "MAX_STEPS = 20"

text \<open>The body's \<open>steps\<close> may be any JSON value.\<close>

definition clampSteps :: "json option \<Rightarrow> int" where
  "clampSteps v = (case v of
     Some (JNum q) \<Rightarrow> if \<not> is_integer q \<or> q < 1 then DEFAULT_STEPS else min \<lfloor>q\<rfloor> MAX_STEPS
   | _ \<Rightarrow> DEFAULT_STEPS)"

record job_run =
  job_id :: string
  externalId :: string
  job_state :: job_status
  requestedBy :: string
  createdAt :: int

text \<open>
  \<open>triggerDemo\<close>: \<open>enqueue steps\<close> is the client's answer (job id and state), \<open>insert_ok\<close> whether the
  insert succeeds; \<open>fresh\<close> and \<open>now\<close> are filled in by the database.
\<close>

definition triggerDemo ::
  "(int \<Rightarrow> http_error + string \<times> string) \<Rightarrow> bool \<Rightarrow> string \<Rightarrow> int \<Rightarrow> job_run list \<Rightarrow> auth_user \<Rightarrow> json option
    \<Rightarrow> http_error + job_run list \<times> job_run" where
  "triggerDemo enqueue insert_ok fresh now rows user steps =
     ebind (enqueue (clampSteps steps)) (\<lambda>(jid, state).
       if \<not> insert_ok then Inl UncheckedError
       else (let r = \<lparr>job_id = fresh, externalId = jid, job_state = mapState state,
                      requestedBy = nullish (sub user) ''unknown'', createdAt = now\<rparr>
             in Inr (rows @ [r], r)))"

definition jobs_list :: "job_run list \<Rightarrow> job_run list" where
  "jobs_list rows = take 100 (js_sort (\<lambda>a b. createdAt b \<le> createdAt a) rows)"

text \<open>\<open>refreshStatus\<close>: \<open>ask jid\<close> is taskforge's answer, \<open>update_ok\<close> whether the update succeeds.\<close>

definition refreshStatus ::
  "(string \<Rightarrow> http_error + string) \<Rightarrow> bool \<Rightarrow> job_run list \<Rightarrow> string \<Rightarrow> http_error + job_run list \<times> job_run" where
  "refreshStatus ask update_ok rows i =
     (case find (\<lambda>r. job_id r = i) rows of
        None \<Rightarrow> Inl (NotFound i)
      | Some r \<Rightarrow>
          (case ask (externalId r) of
             Inl e \<Rightarrow> Inr (rows, r)
           | Inr s \<Rightarrow>
               if mapState s = job_state r then Inr (rows, r)
               else if \<not> update_ok then Inr (rows, r)
               else (let r' = r\<lparr>job_state := mapState s\<rparr>
                     in Inr (map (\<lambda>x. if job_id x = i then r' else x) rows, r'))))"

section \<open>TaskforgeStatusService\<close>

record job_record =
  jr_id :: string
  updatedAt :: string

definition FAILURE_STATES :: "taskforge_state list" where "FAILURE_STATES = [Failed, Dlq]"
definition RECENT_FAILURES_LIMIT :: nat where "RECENT_FAILURES_LIMIT = 10"

text \<open>
  \<open>totals s\<close> and \<open>page s n\<close> are the total and the items of \<open>listJobs({state: s, limit: n})\<close>;
  \<open>loc a b\<close> is \<open>a.localeCompare(b) <= 0\<close>.
\<close>

definition getStatus ::
  "(string \<Rightarrow> string \<Rightarrow> bool) \<Rightarrow> (taskforge_state \<Rightarrow> nat) \<Rightarrow> (taskforge_state \<Rightarrow> nat \<Rightarrow> job_record list)
    \<Rightarrow> (taskforge_state \<times> nat) list \<times> job_record list" where
  "getStatus loc totals page =
     (map (\<lambda>s. (s, totals s)) TASKFORGE_JOB_STATES,
      take RECENT_FAILURES_LIMIT
        (js_sort (\<lambda>a b. loc (updatedAt b) (updatedAt a))
          (concat (map (\<lambda>s. page s RECENT_FAILURES_LIMIT) FAILURE_STATES))))"

section \<open>DependenciesHealthService\<close>

definition CHECK_TIMEOUT_MS :: int where "CHECK_TIMEOUT_MS = 3000"

datatype dependency_status = Up | Down

text \<open>\<open>answer\<close> is the outcome and the time it took; the abort at 3 s makes a slow one fail.\<close>

definition checkHttpHealth :: "string option \<Rightarrow> http_outcome \<times> int \<Rightarrow> dependency_status \<times> int" where
  "checkHttpHealth baseUrl answer =
     (if \<not> truthy baseUrl then (Down, 0)
      else (let (outcome, ms) = answer in
        if CHECK_TIMEOUT_MS \<le> ms then (Down, CHECK_TIMEOUT_MS)
        else (case outcome of NetFail \<Rightarrow> (Down, ms)
          | Resp s b \<Rightarrow> (if resp_ok s then Up else Down, ms))))"

text \<open>No timeout here: the check lasts as long as taskforge does.\<close>

definition checkTaskforge :: "(http_error + json) \<times> int \<Rightarrow> dependency_status \<times> int" where
  "checkTaskforge answer = (case fst answer of Inl e \<Rightarrow> (Down, snd answer) | Inr j \<Rightarrow> (Up, snd answer))"

definition dependencies_check ::
  "env \<Rightarrow> http_outcome \<times> int \<Rightarrow> (http_error + json) \<times> int \<Rightarrow> http_outcome \<times> int
    \<Rightarrow> (string \<times> dependency_status \<times> int) list" where
  "dependencies_check env auth_answer tf_answer bot_answer =
     [(''cci-auth-service'', checkHttpHealth (env ''AUTH_SERVICE_URL'') auth_answer),
      (''taskforge'', checkTaskforge tf_answer),
      (''ops-notify-bot'', checkHttpHealth (env ''NOTIFY_BOT_URL'') bot_answer)]"

section \<open>Job runs\<close>

lemma clampSteps_range: "1 \<le> clampSteps v \<and> clampSteps v \<le> 20"
  by (auto simp: clampSteps_def DEFAULT_STEPS_def MAX_STEPS_def le_floor_iff split: option.splits json.splits)

text \<open>
  A refresh mirrors taskforge or changes nothing.  The answer is "not found" exactly for
  an unknown id; otherwise, when taskforge answers and the update succeeds, the returned and
  the stored run have the mapped state and every other run is as before; on any failure the
  table is unchanged and the stored run is returned.
\<close>

theorem refresh_mirrors_taskforge:
  assumes "distinct (map job_id rows)"
  shows "(refreshStatus ask ok rows i = Inl (NotFound i) \<longleftrightarrow> i \<notin> job_id ` set rows)
    \<and> (\<forall>r \<in> set rows. job_id r = i \<longrightarrow>
         (\<exists>rows' r'. refreshStatus ask ok rows i = Inr (rows', r') \<and> r' \<in> set rows' \<and> job_id r' = i
            \<and> map job_id rows' = map job_id rows
            \<and> {x \<in> set rows'. job_id x \<noteq> i} = {x \<in> set rows. job_id x \<noteq> i}
            \<and> (case ask (externalId r) of
                 Inr s \<Rightarrow> if ok then r' = r\<lparr>job_state := mapState s\<rparr> else rows' = rows \<and> r' = r
               | Inl e \<Rightarrow> rows' = rows \<and> r' = r)))"
proof (intro conjI ballI impI)
  show "refreshStatus ask ok rows i = Inl (NotFound i) \<longleftrightarrow> i \<notin> job_id ` set rows"
  proof (cases "find (\<lambda>r. job_id r = i) rows")
    case None
    then have "i \<notin> job_id ` set rows" by (auto simp: find_None_iff)
    with None show ?thesis by (simp add: refreshStatus_def)
  next
    case (Some r)
    then have "i \<in> job_id ` set rows" by (auto simp: find_Some_iff)
    with Some show ?thesis by (auto simp: refreshStatus_def Let_def split: sum.splits)
  qed
next
  fix r assume r: "r \<in> set rows" "job_id r = i"
  obtain r0 where f: "find (\<lambda>r. job_id r = i) rows = Some r0" using r by (cases "find (\<lambda>r. job_id r = i) rows") (auto simp: find_None_iff)
  then have "r0 \<in> set rows" "job_id r0 = i" by (auto simp: find_Some_iff)
  with r assms have "r0 = r" by (auto simp: distinct_map inj_on_def)
  with f have f: "find (\<lambda>r. job_id r = i) rows = Some r" by simp
  have same: "r\<lparr>job_state := job_state r\<rparr> = r" by simp
  show "\<exists>rows' r'. refreshStatus ask ok rows i = Inr (rows', r') \<and> r' \<in> set rows' \<and> job_id r' = i
            \<and> map job_id rows' = map job_id rows
            \<and> {x \<in> set rows'. job_id x \<noteq> i} = {x \<in> set rows. job_id x \<noteq> i}
            \<and> (case ask (externalId r) of
                 Inr s \<Rightarrow> if ok then r' = r\<lparr>job_state := mapState s\<rparr> else rows' = rows \<and> r' = r
               | Inl e \<Rightarrow> rows' = rows \<and> r' = r)"
  proof (cases "\<exists>s. ask (externalId r) = Inr s \<and> ok \<and> mapState s \<noteq> job_state r")
    case False
    then have "refreshStatus ask ok rows i = Inr (rows, r)"
      by (auto simp: refreshStatus_def f split: sum.splits)
    with False r same show ?thesis by (auto split: sum.splits)
  next
    case True
    then obtain s where s: "ask (externalId r) = Inr s" "ok" "mapState s \<noteq> job_state r" by blast
    let ?r = "r\<lparr>job_state := mapState s\<rparr>"
    let ?rows = "map (\<lambda>x. if job_id x = i then ?r else x) rows"
    have "refreshStatus ask ok rows i = Inr (?rows, ?r)"
      using s by (simp add: refreshStatus_def f Let_def)
    moreover have "?r \<in> set ?rows" using r by force
    moreover have "map job_id ?rows = map job_id rows" using r(2) by auto
    moreover have "{x \<in> set ?rows. job_id x \<noteq> i} = {x \<in> set rows. job_id x \<noteq> i}" using r(2) by auto
    ultimately show ?thesis using s r(2) by auto
  qed
qed

section \<open>Recent failures\<close>

text \<open>Stable merge of two lists sorted by \<open>le\<close>; the sort of their concatenation is it.\<close>

fun merge :: "('a \<Rightarrow> 'a \<Rightarrow> bool) \<Rightarrow> 'a list \<Rightarrow> 'a list \<Rightarrow> 'a list" where
  "merge le [] ys = ys"
| "merge le xs [] = xs"
| "merge le (x # xs) (y # ys) = (if le x y then x # merge le xs (y # ys) else y # merge le (x # xs) ys)"

lemma merge_Nil2 [simp]: "merge le xs [] = xs"
  by (cases xs) auto

lemma js_insert_merge:
  assumes "total_preorder le" and "\<forall>a\<in>set xs. le x a"
  shows "js_insert le x (merge le xs ys) = merge le (x # xs) ys"
  using assms
proof (induction le xs ys rule: merge.induct)
  case (1 le ys)
  show ?case by (induction ys) auto
next
  case (2 le a xs)
  then show ?case by (simp add: js_insert_sorted)
next
  case (3 le a xs y ys)
  show ?case
  proof (cases "le x y")
    case True
    with "3.prems" show ?thesis by simp
  next
    case False
    with "3.prems" have "\<not> le a y" unfolding total_preorder_def by (meson list.set_intros(1))
    with False "3.IH"(2) "3.prems" show ?thesis by simp
  qed
qed

lemma js_sort_merge:
  assumes "total_preorder le" and "sorted_wrt le xs" and "sorted_wrt le ys"
  shows "js_sort le (xs @ ys) = merge le xs ys"
  using assms(2)
proof (induction xs)
  case Nil
  with assms(3) show ?case by (simp add: js_sort_id)
next
  case (Cons x xs)
  with js_insert_merge [OF assms(1), of xs x ys] show ?case by simp
qed

lemma take_merge:
  "n \<le> p \<Longrightarrow> n \<le> q \<Longrightarrow> take n (merge le (take p xs) (take q ys)) = take n (merge le xs ys)"
proof (induction le xs ys arbitrary: n p q rule: merge.induct)
  case (1 le ys)
  then show ?case by (simp add: min_absorb1)
next
  case (2 le x xs)
  then show ?case by (simp add: min_absorb1 del: take_Suc_Cons)
next
  case (3 le x xs y ys)
  note prems = "3.prems" and IH = "3.IH"
  show ?case
  proof (cases n)
    case 0
    then show ?thesis by simp
  next
    case (Suc k)
    obtain p' where p: "p = Suc p'" "k \<le> p'" using Suc prems(1) by (cases p) auto
    obtain q' where q: "q = Suc q'" "k \<le> q'" using Suc prems(2) by (cases q) auto
    show ?thesis
    proof (cases "le x y")
      case True
      with IH(1) [OF True, of k p' q] p q Suc show ?thesis by simp
    next
      case False
      with IH(2) [OF False, of k p q'] p q Suc show ?thesis by simp
    qed
  qed
qed

text \<open>
  The queue overview shows the real latest failures.  taskforge lists a state's jobs with
  the latest update first; asking for 10 failed and 10 dead-lettered jobs and merging them
  gives exactly the 10 latest of all failed and dead-lettered jobs together.
\<close>

theorem recent_failures_exact:
  assumes "total_preorder loc"
    and "\<And>s. sorted_wrt (\<lambda>a b. loc (updatedAt b) (updatedAt a)) (jobs s)"
    and "\<And>s n. page s n = take n (jobs s)"
  shows "snd (getStatus loc totals page)
    = take 10 (js_sort (\<lambda>a b. loc (updatedAt b) (updatedAt a)) (jobs Failed @ jobs Dlq))"
proof -
  let ?le = "\<lambda>a b. loc (updatedAt b) (updatedAt a)"
  have tp: "total_preorder ?le" using assms(1) unfolding total_preorder_def by blast
  have st: "sorted_wrt ?le (take 10 (jobs s))" for s
    using assms(2) [of s] by (rule sorted_wrt_take)
  have "snd (getStatus loc totals page) = take 10 (js_sort ?le (take 10 (jobs Failed) @ take 10 (jobs Dlq)))"
    by (simp add: getStatus_def FAILURE_STATES_def RECENT_FAILURES_LIMIT_def assms(3))
  also have "\<dots> = take 10 (merge ?le (take 10 (jobs Failed)) (take 10 (jobs Dlq)))"
    by (simp add: js_sort_merge [OF tp st st])
  also have "\<dots> = take 10 (merge ?le (jobs Failed) (jobs Dlq))"
    by (simp add: take_merge)
  also have "\<dots> = take 10 (js_sort ?le (jobs Failed @ jobs Dlq))"
    by (simp add: js_sort_merge [OF tp assms(2,2)])
  finally show ?thesis .
qed

definition sample_jobs :: "taskforge_state \<Rightarrow> job_record list" where
  "sample_jobs s = (if s = Failed then [\<lparr>jr_id = ''f'', updatedAt = ''2''\<rparr>]
     else if s = Dlq then [\<lparr>jr_id = ''d'', updatedAt = ''3''\<rparr>, \<lparr>jr_id = ''e'', updatedAt = ''1''\<rparr>] else [])"

definition sample_order :: "string \<Rightarrow> string \<Rightarrow> bool" where
  "sample_order a b = (a = ''1'' \<or> b = ''3'' \<or> a \<noteq> ''3'' \<and> b \<noteq> ''1'')"

theorem recent_failures_exact_witness:
  "map jr_id (snd (getStatus sample_order (\<lambda>_. 0) (\<lambda>s n. take n (sample_jobs s)))) = [''d'', ''f'', ''e'']"
proof -
  have tp: "total_preorder sample_order" by (auto simp: total_preorder_def sample_order_def)
  have so: "sorted_wrt (\<lambda>a b. sample_order (updatedAt b) (updatedAt a)) (sample_jobs s)" for s
    by (simp add: sample_jobs_def sample_order_def)
  have e: "snd (getStatus sample_order (\<lambda>_. 0) (\<lambda>s n. take n (sample_jobs s)))
      = take 10 (js_sort (\<lambda>a b. sample_order (updatedAt b) (updatedAt a)) (sample_jobs Failed @ sample_jobs Dlq))"
    by (rule recent_failures_exact [where jobs = sample_jobs, OF tp so refl])
  show ?thesis unfolding e by (simp add: sample_jobs_def sample_order_def)
qed

theorem refresh_mirrors_taskforge_witness:
  "refreshStatus (\<lambda>_. Inr ''dlq'') True [\<lparr>job_id = ''1'', externalId = ''x'', job_state = RUNNING,
      requestedBy = ''u'', createdAt = 0\<rparr>] ''2'' = Inl (NotFound ''2'')"
  using refresh_mirrors_taskforge [of "[\<lparr>job_id = ''1'', externalId = ''x'', job_state = RUNNING,
      requestedBy = ''u'', createdAt = 0\<rparr>]" "\<lambda>_. Inr ''dlq''" True "''2''"]
  by simp

end
