(* ===== verification/Metrics.thy ===== *)
theory Metrics
  imports JsNumber Shared
begin

text \<open>
  apps/api/src/metrics: the Prometheus client, the live and the historic series, the five
  minute rollups and their validation in the controller; apps/api/src/retention: the purge of
  the other tables.  Prometheus is a parameter (the answers to its queries), the tables are
  lists of rows; times are epoch milliseconds unless named seconds.
\<close>

section \<open>Validation (metrics.controller.ts)\<close>

datatype metric_kind = CPU | MEMORY | NETWORK_RX | NETWORK_TX

definition METRIC_KINDS :: "(string \<times> metric_kind) list" where
  "METRIC_KINDS = [(''CPU'', CPU), (''MEMORY'', MEMORY), (''NETWORK_RX'', NETWORK_RX), (''NETWORK_TX'', NETWORK_TX)]"

text \<open>The names every object inherits, which the \<open>in\<close> operator also finds.\<close>

definition OBJECT_PROTOTYPE :: "string list" where
  "OBJECT_PROTOTYPE = [''constructor'', ''__defineGetter__'', ''__defineSetter__'', ''hasOwnProperty'',
     ''__lookupGetter__'', ''__lookupSetter__'', ''isPrototypeOf'', ''propertyIsEnumerable'', ''toString'',
     ''valueOf'', ''__proto__'', ''toLocaleString'']"

definition in_MetricKind :: "string \<Rightarrow> bool" where
  "in_MetricKind s = (s \<in> fst ` set METRIC_KINDS \<or> s \<in> set OBJECT_PROTOTYPE)"

definition parseCommon :: "string option \<Rightarrow> string option \<Rightarrow> http_error + string \<times> string" where
  "parseCommon c m =
     (if \<not> truthy c \<or> \<not> matches_name 127 (the c) then Inl (BadRequest InvalidContainer)
      else if \<not> truthy m \<or> \<not> in_MetricKind (the m) then Inl (BadRequest InvalidMetric)
      else Inr (the c, the m))"

section \<open>Prometheus (prometheus.service.ts)\<close>

record vector_sample =
  sample_name :: "string option"
  sample_value :: string

text \<open>\<open>body\<close> of an answered request: \<open>None\<close> when it is no JSON (\<open>response.json()\<close> throws).\<close>

definition prometheus_request :: "http_outcome \<Rightarrow> http_error + json" where
  "prometheus_request http =
     (case http of NetFail \<Rightarrow> Inl UncheckedError
      | Resp s b \<Rightarrow>
          if \<not> resp_ok s then Inl UncheckedError
          else (case b of None \<Rightarrow> Inl UncheckedError
            | Some body \<Rightarrow>
                if jfield ''status'' body \<noteq> Some (JStr ''success'') then Inl UncheckedError
                else (case jfield ''data'' body of
                    None \<Rightarrow> Inr (JArr [])
                  | Some d \<Rightarrow> (case jfield ''result'' d of
                        None \<Rightarrow> Inr (JArr []) | Some r \<Rightarrow> Inr (if r = JNull then JArr [] else r)))))"

section \<open>Queries (metrics.service.ts)\<close>

definition BUCKET_SEC :: int where "BUCKET_SEC = 300"
definition MAX_RANGE_POINTS :: int where "MAX_RANGE_POINTS = 240"
definition RETENTION_MS :: int where "RETENTION_MS = 30 * 24 * 3600000"

text \<open>\<open>JSON.stringify\<close> of a container name: the pattern leaves nothing to escape.\<close>

definition quoted :: "string \<Rightarrow> string" where
  "quoted s = CHR 0x22 # s @ [CHR 0x22]"

definition liveQuery :: "string \<Rightarrow> string \<Rightarrow> string option" where
  "liveQuery kind container =
     (let c = quoted container in
      case map_of METRIC_KINDS kind of
        None \<Rightarrow> None
      | Some CPU \<Rightarrow> Some (''rate(container_cpu_usage_seconds_total{name='' @ c @ '',cpu='' @ quoted ''total'' @ ''}[1m])'')
      | Some MEMORY \<Rightarrow> Some (''container_memory_working_set_bytes{name='' @ c @ ''}'')
      | Some NETWORK_RX \<Rightarrow> Some (''rate(container_network_receive_bytes_total{name='' @ c @ '',interface='' @ quoted ''eth0'' @ ''}[1m])'')
      | Some NETWORK_TX \<Rightarrow> Some (''rate(container_network_transmit_bytes_total{name='' @ c @ '',interface='' @ quoted ''eth0'' @ ''}[1m])''))"

definition rollup_scope :: "env \<Rightarrow> string" where
  "rollup_scope env =
     (let projects = (case env ''COMPOSE_PROJECTS'' of None \<Rightarrow> []
            | Some s \<Rightarrow> js_join ''|'' (filter (\<lambda>p. p \<noteq> []) (map js_trim (js_split (CHR '','') s))))
      in if projects \<noteq> [] then ''name!='' @ quoted [] @ '',container_label_com_docker_compose_project=~'' @ quoted projects
         else ''name!='' @ quoted [])"

definition rollupQuery :: "env \<Rightarrow> metric_kind \<Rightarrow> string" where
  "rollupQuery env kind =
     (case kind of
        CPU \<Rightarrow> ''rate(container_cpu_usage_seconds_total{'' @ rollup_scope env @ '',cpu='' @ quoted ''total'' @ ''}[5m])''
      | MEMORY \<Rightarrow> ''avg_over_time(container_memory_working_set_bytes{'' @ rollup_scope env @ ''}[5m])''
      | NETWORK_RX \<Rightarrow> ''rate(container_network_receive_bytes_total{'' @ rollup_scope env @ '',interface='' @ quoted ''eth0'' @ ''}[5m])''
      | NETWORK_TX \<Rightarrow> ''rate(container_network_transmit_bytes_total{'' @ rollup_scope env @ '',interface='' @ quoted ''eth0'' @ ''}[5m])'')"

record range_query =
  rq_query :: "string option"
  rq_start :: int
  rq_end :: int
  rq_step :: int

definition ceil_div :: "int \<Rightarrow> int \<Rightarrow> int" where
  "ceil_div a b = - ((- a) div b)"

definition live_range :: "string \<Rightarrow> string \<Rightarrow> int \<Rightarrow> int \<Rightarrow> range_query" where
  "live_range container kind minutes now =
     (let endSec = now div 1000
      in \<lparr>rq_query = liveQuery kind container, rq_start = endSec - minutes * 60, rq_end = endSec,
          rq_step = max 30 (ceil_div (minutes * 60) MAX_RANGE_POINTS)\<rparr>)"

text \<open>\<open>getLiveSeries\<close>: the first series of the answer (seconds, text), as points.\<close>

definition getLiveSeries ::
  "(range_query \<Rightarrow> http_error + (rat \<times> string) list list) \<Rightarrow> string \<Rightarrow> string \<Rightarrow> int \<Rightarrow> int
    \<Rightarrow> http_error + (rat \<times> jsnum) list" where
  "getLiveSeries prom container kind minutes now =
     ebind (prom (live_range container kind minutes now)) (\<lambda>result.
       Inr (map (\<lambda>(t, v). (t * 1000, js_number v)) (case result of [] \<Rightarrow> [] | s # _ \<Rightarrow> s)))"

definition live ::
  "(range_query \<Rightarrow> http_error + (rat \<times> string) list list) \<Rightarrow> int \<Rightarrow> string option \<Rightarrow> string option \<Rightarrow> string option
    \<Rightarrow> http_error + string \<times> string \<times> (rat \<times> jsnum) list" where
  "live prom now container metric minutes =
     ebind (parseCommon container metric) (\<lambda>(c, m).
       ebind (parsePositiveInt minutes 60 360 ''minutes'') (\<lambda>window.
         ebind (getLiveSeries prom c m window now) (\<lambda>points. Inr (c, m, points))))"

section \<open>Rollups\<close>

record rollup_row =
  containerName :: string
  metric :: metric_kind
  avgValue :: rat
  bucketStart :: int

definition rollup_key :: "rollup_row \<Rightarrow> string \<times> metric_kind \<times> int" where
  "rollup_key r = (containerName r, metric r, bucketStart r)"

text \<open>\<open>createMany\<close> with \<open>skipDuplicates\<close> under the unique index.\<close>

fun createMany :: "rollup_row list \<Rightarrow> rollup_row list \<Rightarrow> rollup_row list \<times> nat" where
  "createMany table [] = (table, 0)"
| "createMany table (r # rs) =
     (if rollup_key r \<in> rollup_key ` set table then createMany table rs
      else (let (t, n) = createMany (table @ [r]) rs in (t, Suc n)))"

definition bucket_end :: "int \<Rightarrow> int" where
  "bucket_end now = now div (1000 * BUCKET_SEC) * BUCKET_SEC"

definition rollup_rows :: "int \<Rightarrow> metric_kind \<Rightarrow> vector_sample list \<Rightarrow> rollup_row list" where
  "rollup_rows start kind samples =
     List.map_filter (\<lambda>s. if \<not> truthy (sample_name s) then None
       else (case js_number (sample_value s) of
           Fin q \<Rightarrow> Some \<lparr>containerName = the (sample_name s), metric = kind, avgValue = q, bucketStart = start\<rparr>
         | _ \<Rightarrow> None)) samples"

text \<open>
  \<open>runRollup\<close>, kind after kind: a failing query throws and leaves what was inserted before.
  \<open>prom q at\<close> is the answer of the instant query, \<open>now\<close> the one clock reading.
\<close>

fun rollup_kinds ::
  "(string \<Rightarrow> int \<Rightarrow> http_error + vector_sample list) \<Rightarrow> env \<Rightarrow> int \<Rightarrow> rollup_row list \<Rightarrow> metric_kind list
    \<Rightarrow> rollup_row list \<times> (http_error + nat)" where
  "rollup_kinds prom env bend table [] = (table, Inr 0)"
| "rollup_kinds prom env bend table (k # ks) =
     (case prom (rollupQuery env k) bend of
        Inl e \<Rightarrow> (table, Inl e)
      | Inr samples \<Rightarrow>
          (let rows = rollup_rows ((bend - BUCKET_SEC) * 1000) k samples;
               (table1, n) = createMany table rows;
               (table2, res) = rollup_kinds prom env bend table1 ks
           in (table2, ebind res (\<lambda>m. Inr (n + m)))))"

definition runRollup ::
  "(string \<Rightarrow> int \<Rightarrow> http_error + vector_sample list) \<Rightarrow> env \<Rightarrow> int \<Rightarrow> rollup_row list \<Rightarrow> rollup_row list \<times> (http_error + nat)" where
  "runRollup prom env now table = rollup_kinds prom env (bucket_end now) table (map snd METRIC_KINDS)"

definition purgeOldRollups :: "int \<Rightarrow> rollup_row list \<Rightarrow> rollup_row list" where
  "purgeOldRollups now table = filter (\<lambda>r. \<not> bucketStart r < now - RETENTION_MS) table"

text \<open>\<open>rollupTick\<close>: the purge only after a rollup that did not throw; errors are logged.\<close>

definition rollupTick ::
  "(string \<Rightarrow> int \<Rightarrow> http_error + vector_sample list) \<Rightarrow> env \<Rightarrow> int \<Rightarrow> int \<Rightarrow> rollup_row list \<Rightarrow> rollup_row list" where
  "rollupTick prom env now now2 table =
     (case runRollup prom env now table of
        (t, Inl e) \<Rightarrow> t
      | (t, Inr n) \<Rightarrow> purgeOldRollups now2 t)"

definition getHistory :: "rollup_row list \<Rightarrow> string \<Rightarrow> metric_kind \<Rightarrow> int \<Rightarrow> int \<Rightarrow> (int \<times> rat) list" where
  "getHistory table container kind hours now =
     map (\<lambda>r. (bucketStart r, avgValue r))
       (js_sort (\<lambda>a b. bucketStart a \<le> bucketStart b)
         (filter (\<lambda>r. containerName r = container \<and> metric r = kind \<and> now - hours * 3600000 \<le> bucketStart r) table))"

text \<open>\<open>history\<close>: the database rejects a metric that is no \<open>MetricKind\<close>.\<close>

definition history ::
  "rollup_row list \<Rightarrow> int \<Rightarrow> string option \<Rightarrow> string option \<Rightarrow> string option
    \<Rightarrow> http_error + string \<times> string \<times> (int \<times> rat) list" where
  "history table now container m hours =
     ebind (parseCommon container m) (\<lambda>(c, k).
       ebind (parsePositiveInt hours 24 720 ''hours'') (\<lambda>window.
         case map_of METRIC_KINDS k of None \<Rightarrow> Inl UncheckedError
         | Some kind \<Rightarrow> Inr (c, k, getHistory table c kind window now)))"

section \<open>Retention (retention.service.ts)\<close>

definition retention_cutoff :: "int \<Rightarrow> int" where
  "retention_cutoff now = now - RETENTION_MS"

definition purge_rows :: "('r \<Rightarrow> int) \<Rightarrow> int \<Rightarrow> 'r list \<Rightarrow> 'r list \<times> nat" where
  "purge_rows created now rows =
     (let keep = filter (\<lambda>r. \<not> created r < retention_cutoff now) rows in (keep, length rows - length keep))"

section \<open>The live window\<close>

lemma ceil_div_ge: "0 < b \<Longrightarrow> a \<le> ceil_div a b * b"
proof -
  assume b: "0 < b"
  have "(- a) div b * b + (- a) mod b = - a" by (rule div_mult_mod_eq)
  moreover have "0 \<le> (- a) mod b" using b by simp
  ultimately show ?thesis unfolding ceil_div_def mult_minus_left by linarith
qed

text \<open>
  A live series stays small.  For every accepted window the range query covers exactly
  the asked minutes, its step is at least the 30 s of a scrape, and Prometheus evaluates it at
  no more than 241 instants.
\<close>

theorem live_range_bounded:
  assumes "parsePositiveInt raw 60 360 ''minutes'' = Inr minutes"
  shows "30 \<le> rq_step (live_range c k minutes now)
    \<and> rq_end (live_range c k minutes now) - rq_start (live_range c k minutes now) = minutes * 60
    \<and> minutes * 60 div rq_step (live_range c k minutes now) + 1 \<le> 241"
proof -
  have m: "1 \<le> minutes" "minutes \<le> 360"
    using assms parsePositiveInt_range [of _ 60 360] by (cases raw; auto simp: parsePositiveInt_def)+
  let ?step = "rq_step (live_range c k minutes now)"
  have s30: "30 \<le> ?step" by (simp add: live_range_def Let_def)
  have "ceil_div (minutes * 60) 240 \<le> ?step" by (simp add: live_range_def MAX_RANGE_POINTS_def Let_def)
  moreover have "minutes * 60 \<le> ceil_div (minutes * 60) 240 * 240"
    by (rule ceil_div_ge) simp
  ultimately have "minutes * 60 \<le> 240 * ?step" by linarith
  then have "minutes * 60 div ?step \<le> 240 * ?step div ?step"
    using s30 by (intro zdiv_mono1) auto
  with s30 show ?thesis by (simp add: live_range_def Let_def)
qed

theorem live_range_bounded_witness:
  "(360 * 60) div rq_step (live_range ''web'' ''CPU'' 360 1000000) + 1 \<le> 241
    \<and> parsePositiveInt (Some (show_nat 360)) 60 360 ''minutes'' = Inr 360"
proof -
  have p: "parsePositiveInt (Some (show_nat 360)) 60 360 ''minutes'' = Inr 360"
  proof -
    have "(360 :: nat) < 2 ^ 53" by simp
    from num_integer_nat [OF this] show ?thesis by (simp add: parsePositiveInt_def)
  qed
  from live_range_bounded [OF p, of "''web''" "''CPU''" 1000000] p show ?thesis by simp
qed

section \<open>Rollups are idempotent\<close>

lemma createMany_Cons:
  "createMany table (r # rs) = (if rollup_key r \<in> rollup_key ` set table then createMany table rs
     else (fst (createMany (table @ [r]) rs), Suc (snd (createMany (table @ [r]) rs))))"
  by (simp add: split_beta Let_def)

lemma createMany_prefix: "prefix table (fst (createMany table rows))"
proof (induction rows arbitrary: table)
  case (Cons r rs)
  have "prefix table (fst (createMany (table @ [r]) rs))"
    using Cons.IH [of "table @ [r]"] by (meson append_prefixD)
  with Cons.IH [of table] show ?case by (simp only: createMany_Cons split: if_split) simp
qed simp

lemma createMany_count: "length (fst (createMany table rows)) = length table + snd (createMany table rows)"
proof (induction rows arbitrary: table)
  case (Cons r rs)
  from Cons.IH [of table] Cons.IH [of "table @ [r]"] show ?case by (simp only: createMany_Cons split: if_split) simp
qed simp

lemma createMany_distinct:
  "distinct (map rollup_key table) \<Longrightarrow> distinct (map rollup_key (fst (createMany table rows)))"
proof (induction rows arbitrary: table)
  case (Cons r rs)
  from Cons.IH [of table] Cons.IH [of "table @ [r]"] Cons.prems
  show ?case by (simp only: createMany_Cons split: if_split) simp
qed simp

lemma prefix_keys: "prefix t u \<Longrightarrow> rollup_key ` set t \<subseteq> rollup_key ` set u"
  by (meson image_mono set_mono_prefix)

lemma createMany_keys: "rollup_key ` set rows \<subseteq> rollup_key ` set (fst (createMany table rows))"
proof (induction rows arbitrary: table)
  case (Cons r rs)
  have "rollup_key r \<in> rollup_key ` set (fst (createMany (table @ [r]) rs))"
    using prefix_keys [OF createMany_prefix [of "table @ [r]" rs]] by auto
  moreover have "rollup_key r \<in> rollup_key ` set (fst (createMany table rs))" if "rollup_key r \<in> rollup_key ` set table"
    using that prefix_keys [OF createMany_prefix [of table rs]] by auto
  ultimately show ?case
    using Cons.IH [of table] Cons.IH [of "table @ [r]"] by (simp only: createMany_Cons split: if_split) simp
qed simp

lemma createMany_noop: "rollup_key ` set rows \<subseteq> rollup_key ` set table \<Longrightarrow> createMany table rows = (table, 0)"
  by (induction rows) auto

text \<open>All rows a rollup of these kinds wants to store.\<close>

fun wanted_keys ::
  "(string \<Rightarrow> int \<Rightarrow> http_error + vector_sample list) \<Rightarrow> env \<Rightarrow> int \<Rightarrow> metric_kind list \<Rightarrow> (string \<times> metric_kind \<times> int) set" where
  "wanted_keys prom env bend [] = {}"
| "wanted_keys prom env bend (k # ks) =
     (case prom (rollupQuery env k) bend of Inl e \<Rightarrow> {}
      | Inr samples \<Rightarrow> rollup_key ` set (rollup_rows ((bend - BUCKET_SEC) * 1000) k samples)) \<union> wanted_keys prom env bend ks"

lemma rollup_kinds_run:
  assumes "rollup_kinds prom env bend table ks = (t, Inr n)"
  shows "prefix table t \<and> length t = length table + n \<and> wanted_keys prom env bend ks \<subseteq> rollup_key ` set t
    \<and> (distinct (map rollup_key table) \<longrightarrow> distinct (map rollup_key t))"
  using assms
proof (induction ks arbitrary: table n)
  case (Cons k ks)
  from Cons.prems obtain samples where s: "prom (rollupQuery env k) bend = Inr samples"
    by (auto split: sum.splits)
  let ?rows = "rollup_rows ((bend - BUCKET_SEC) * 1000) k samples"
  let ?t1 = "fst (createMany table ?rows)"
  from Cons.prems obtain m where m: "rollup_kinds prom env bend ?t1 ks = (t, Inr m)"
    and n: "n = snd (createMany table ?rows) + m"
    by (auto simp: s Let_def split_beta prod_eq_iff ebind_Inr_iff)
  from Cons.IH [OF m] have IH: "prefix ?t1 t" "length t = length ?t1 + m"
    "wanted_keys prom env bend ks \<subseteq> rollup_key ` set t"
    "distinct (map rollup_key ?t1) \<longrightarrow> distinct (map rollup_key t)" by simp_all
  have "prefix table t" using createMany_prefix IH(1) by (rule prefix_order.trans)
  moreover have "rollup_key ` set ?rows \<subseteq> rollup_key ` set t"
    using createMany_keys prefix_keys [OF IH(1)] by blast
  ultimately show ?case using IH createMany_count [of table ?rows] createMany_distinct [of table ?rows] n s
    by simp
qed simp

lemma rollup_kinds_noop:
  assumes "\<forall>k\<in>set ks. \<exists>samples. prom (rollupQuery env k) bend = Inr samples"
    and "wanted_keys prom env bend ks \<subseteq> rollup_key ` set table"
  shows "rollup_kinds prom env bend table ks = (table, Inr 0)"
  using assms by (induction ks) (auto simp: createMany_noop Let_def)

lemma rollup_kinds_answers:
  "rollup_kinds prom env bend table ks = (t, Inr n) \<Longrightarrow> \<forall>k\<in>set ks. \<exists>samples. prom (rollupQuery env k) bend = Inr samples"
proof (induction ks arbitrary: table n)
  case (Cons k ks)
  then show ?case by (fastforce simp: Let_def split_beta prod_eq_iff ebind_Inr_iff split: sum.splits)
qed simp

lemma rollup_kinds_total:
  "\<forall>k\<in>set ks. \<exists>samples. prom (rollupQuery env k) bend = Inr samples \<Longrightarrow>
    \<exists>t n. rollup_kinds prom env bend table ks = (t, Inr n)"
proof (induction ks arbitrary: table)
  case (Cons k ks)
  then obtain samples where s: "prom (rollupQuery env k) bend = Inr samples" by auto
  from Cons.IH [of "fst (createMany table (rollup_rows ((bend - BUCKET_SEC) * 1000) k samples))"] Cons.prems
  show ?case by (auto simp: s Let_def split_beta)
qed simp

text \<open>
  C32: rollups are idempotent and append-only.  A successful rollup adds exactly the counted
  rows behind the old ones, keeps one row per container, metric and bucket, and running again
  within the same five minutes with the same answers stores nothing (the job also runs at
  every restart of the process).
\<close>

theorem rollup_idempotent:
  assumes "runRollup prom env now table = (t, Inr n)" and "distinct (map rollup_key table)"
    and "now' div 300000 = now div 300000"
  shows "prefix table t \<and> length t = length table + n \<and> distinct (map rollup_key t)
    \<and> runRollup prom env now' t = (t, Inr 0)"
proof -
  have b: "bucket_end now' = bucket_end now" using assms(3) by (simp add: bucket_end_def BUCKET_SEC_def)
  note r = assms(1) [unfolded runRollup_def]
  from rollup_kinds_run [OF r] assms(2)
    rollup_kinds_noop [where ks = "map snd METRIC_KINDS" and table = t and prom = prom and env = env
        and bend = "bucket_end now", OF rollup_kinds_answers [OF r]]
  show ?thesis by (simp add: runRollup_def b)
qed

text \<open>
  Retention.  After a tick whose rollup succeeded no row older than 30 days is left; rows
  within the 30 days are never lost, whether the tick failed or not.
\<close>

theorem tick_keeps_thirty_days:
  "(\<forall>r\<in>set table. now2 - 30 * 86400000 \<le> bucketStart r \<longrightarrow> r \<in> set (rollupTick prom env now now2 table))
   \<and> (\<forall>t n. runRollup prom env now table = (t, Inr n) \<longrightarrow>
        (\<forall>r\<in>set (rollupTick prom env now now2 table). now2 - 30 * 86400000 \<le> bucketStart r))"
proof -
  have pre: "prefix table (fst (rollup_kinds prom env bend table ks))" for bend ks
  proof (induction ks arbitrary: table)
    case (Cons k ks)
    show ?case
    proof (cases "prom (rollupQuery env k) bend")
      case (Inr samples)
      let ?rows = "rollup_rows ((bend - BUCKET_SEC) * 1000) k samples"
      from prefix_order.trans [OF createMany_prefix Cons.IH [of "fst (createMany table ?rows)"]]
      show ?thesis by (simp add: Inr Let_def split_beta)
    qed simp
  qed simp
  have "set table \<subseteq> set (fst (runRollup prom env now table))"
    unfolding runRollup_def by (rule set_mono_prefix [OF pre])
  then show ?thesis
    by (cases "runRollup prom env now table"; cases "snd (runRollup prom env now table)")
       (auto simp: rollupTick_def purgeOldRollups_def RETENTION_MS_def)
qed

text \<open>
  The metric check lets inherited names through.  \<open>metric in MetricKind\<close> is true for
  \<open>toString\<close>, so the request is not answered with 400: the live query is built from no
  expression at all, and the history request ends in a database error.
\<close>

theorem inherited_metric_accepted:
  "parseCommon (Some ''web'') (Some ''toString'') = Inr (''web'', ''toString'')
   \<and> liveQuery ''toString'' ''web'' = None
   \<and> history table now (Some ''web'') (Some ''toString'') None = Inl UncheckedError"
proof -
  have p: "parseCommon (Some ''web'') (Some ''toString'') = Inr (''web'', ''toString'')"
    by (simp add: parseCommon_def in_MetricKind_def OBJECT_PROTOTYPE_def ascii_alnum_def name_char_def)
  have "map_of METRIC_KINDS ''toString'' = None" by (simp add: METRIC_KINDS_def)
  with p show ?thesis by (simp add: liveQuery_def history_def parsePositiveInt_def Let_def)
qed

definition sample_prom :: "string \<Rightarrow> int \<Rightarrow> http_error + vector_sample list" where
  "sample_prom q t = Inr (if q = rollupQuery (\<lambda>_. None) MEMORY then [\<lparr>sample_name = Some ''web'', sample_value = show_nat 7\<rparr>] else [])"

theorem rollup_idempotent_witness:
  "\<exists>t n. runRollup sample_prom (\<lambda>_. None) 600000 [] = (t, Inr n) \<and> length t = n
    \<and> runRollup sample_prom (\<lambda>_. None) 650000 t = (t, Inr 0)"
proof -
  have "\<exists>t n. rollup_kinds sample_prom (\<lambda>_. None) (bucket_end 600000) [] (map snd METRIC_KINDS) = (t, Inr n)"
    by (rule rollup_kinds_total) (simp add: sample_prom_def)
  then obtain t n where r: "runRollup sample_prom (\<lambda>_. None) 600000 [] = (t, Inr n)"
    unfolding runRollup_def by blast
  from rollup_idempotent [OF r, of 650000] r show ?thesis by simp
qed

end
