(* ===== verification/LiveServer.thy ===== *)
theory LiveServer
  imports Containers Alerts Gateway LogsService
begin

text \<open>
  The live side of the API process as one machine: the engine subscription
  (containers.service.ts) with its two listeners, the gateway (live.gateway.ts) and the alerts
  (alerts.service.ts), and the log streams (logs.service.ts).  \<open>ContainersService.onUpdate\<close>
  registers the listeners; the emitter calls them synchronously for every published update.
\<close>

section \<open>State, events, effects\<close>

text \<open>What the machine uses of the platform: \<open>JSON.parse\<close> of an event line, \<open>Date.parse\<close>,
  \<open>Number.parseInt\<close>, and the dates of log lines.\<close>

record server_lib =
  lib_parse :: "utext \<Rightarrow> docker_event option"
  lib_date :: "string \<Rightarrow> int"
  lib_int :: "string \<Rightarrow> int option"
  lib_is_date :: "utext \<Rightarrow> bool"

record live_server =
  srv_engine :: events_state
  srv_alerts :: alerts_state
  srv_rooms :: memberships
  srv_logs :: logs_state

definition server_init :: live_server where
  "server_init = \<lparr>srv_engine = events_init, srv_alerts = alerts_init, srv_rooms = rooms_after [], srv_logs = logs_init\<rparr>"

datatype server_event =
  FromEngine engine_event int
| FromAlerts alert_event
| FromClient room_request
| FromLogs logs_event
| HandleDisconnect string

datatype server_effect =
  SendUpdate service_update "string set"
| AlertDid alert_effect
| LogsDid logs_effect

section \<open>Steps\<close>

text \<open>\<open>emitter.emit("update", update)\<close>: both listeners, at the time of the clock.\<close>

definition emit_update :: "int \<Rightarrow> service_update \<Rightarrow> live_server \<Rightarrow> live_server \<times> server_effect list" where
  "emit_update now u st =
     (st\<lparr>srv_alerts := handleUpdate (srv_alerts st) u now\<rparr>, [SendUpdate u (publishUpdate True (srv_rooms st) u)])"

fun emit_updates :: "int \<Rightarrow> service_update list \<Rightarrow> live_server \<Rightarrow> live_server \<times> server_effect list" where
  "emit_updates now [] st = (st, [])"
| "emit_updates now (u # us) st =
     (let (st1, out1) = emit_update now u st; (st2, out2) = emit_updates now us st1 in (st2, out1 @ out2))"

text \<open>\<open>handleDisconnect\<close>, after Socket.IO has taken the socket out of its rooms.\<close>

definition handleDisconnect :: "live_server \<Rightarrow> string \<Rightarrow> live_server \<times> server_effect list" where
  "handleDisconnect st socket =
     (let (l, out) = destroyForSocket (srv_logs st) socket
      in (st\<lparr>srv_rooms := leave_all (srv_rooms st) socket, srv_logs := l\<rparr>, map LogsDid out))"

fun server_step :: "env \<Rightarrow> server_lib \<Rightarrow> live_server \<Rightarrow> server_event \<Rightarrow> live_server \<times> server_effect list" where
  "server_step env lib st (FromEngine e now) =
     (let (g, us) = engine_step env (lib_parse lib) (lib_date lib) (lib_int lib) (srv_engine st) e
      in emit_updates now us (st\<lparr>srv_engine := g\<rparr>))"
| "server_step env lib st (FromAlerts e) =
     (let (a, out) = alert_step (srv_alerts st) e in (st\<lparr>srv_alerts := a\<rparr>, map AlertDid out))"
| "server_step env lib st (FromClient r) = (st\<lparr>srv_rooms := room_step (srv_rooms st) r\<rparr>, [])"
| "server_step env lib st (FromLogs e) =
     (let (l, out) = logs_step (lib_is_date lib) (srv_logs st) e in (st\<lparr>srv_logs := l\<rparr>, map LogsDid out))"
| "server_step env lib st (HandleDisconnect s) = handleDisconnect st s"

text \<open>Updates come from the engine only, disconnections to both listeners together.\<close>

fun server_enabled :: "int \<Rightarrow> live_server \<Rightarrow> server_event \<Rightarrow> bool" where
  "server_enabled now st (FromEngine e t) = (now \<le> t \<and> engine_enabled (srv_engine st) e)"
| "server_enabled now st (FromAlerts e) =
     (now \<le> event_time e \<and> alert_enabled (srv_alerts st) e \<and> (case e of Update u t \<Rightarrow> False | _ \<Rightarrow> True))"
| "server_enabled now st (FromClient r) = (case r of Disconnected s \<Rightarrow> False | _ \<Rightarrow> True)"
| "server_enabled now st (FromLogs e) =
     (logs_enabled (srv_logs st) e \<and> (case e of Disconnect s \<Rightarrow> False | _ \<Rightarrow> True))"
| "server_enabled now st (HandleDisconnect s) = (CHR ''|'' \<notin> set s)"

fun server_clock :: "int \<Rightarrow> server_event \<Rightarrow> int" where
  "server_clock now (FromEngine e t) = t"
| "server_clock now (FromAlerts e) = event_end e"
| "server_clock now _ = now"

inductive server_run ::
  "env \<Rightarrow> server_lib \<Rightarrow> int \<Rightarrow> server_event list \<Rightarrow> int \<Rightarrow> live_server \<Rightarrow> server_effect list \<Rightarrow> bool"
  for env lib t0 where
  server_start: "server_run env lib t0 [] t0 server_init []"
| server_more: "\<lbrakk>server_run env lib t0 es now st out; server_enabled now st e; server_step env lib st e = (st1, out1)\<rbrakk>
    \<Longrightarrow> server_run env lib t0 (es @ [e]) (server_clock now e) st1 (out @ out1)"

section \<open>The components inside the process\<close>

fun engine_part :: "server_event \<Rightarrow> engine_event option" where
  "engine_part (FromEngine e t) = Some e"
| "engine_part _ = None"

fun room_part :: "server_event \<Rightarrow> room_request option" where
  "room_part (FromClient r) = Some r"
| "room_part (HandleDisconnect s) = Some (Disconnected s)"
| "room_part _ = None"

fun logs_part :: "server_event \<Rightarrow> logs_event option" where
  "logs_part (FromLogs e) = Some e"
| "logs_part (HandleDisconnect s) = Some (Disconnect s)"
| "logs_part _ = None"

fun sent_update :: "server_effect \<Rightarrow> service_update option" where
  "sent_update (SendUpdate u ss) = Some u"
| "sent_update _ = None"

fun alert_done :: "server_effect \<Rightarrow> alert_effect option" where
  "alert_done (AlertDid a) = Some a"
| "alert_done _ = None"

fun logs_done_by :: "server_effect \<Rightarrow> logs_effect option" where
  "logs_done_by (LogsDid l) = Some l"
| "logs_done_by _ = None"

fun seen_update :: "alert_event \<Rightarrow> service_update option" where
  "seen_update (Update u t) = Some u"
| "seen_update _ = None"

lemma parts_of_maps [simp]:
  "List.map_filter sent_update (map AlertDid as) = []" "List.map_filter sent_update (map LogsDid ls) = []"
  "List.map_filter alert_done (map AlertDid as) = as" "List.map_filter alert_done (map LogsDid ls) = []"
  "List.map_filter logs_done_by (map AlertDid as) = []" "List.map_filter logs_done_by (map LogsDid ls) = ls"
  by (simp_all add: map_filter_none map_filter_some [where h = "\<lambda>x. x", simplified])

lemma emit_updates_frame:
  "srv_engine (fst (emit_updates now us st)) = srv_engine st"
  "srv_rooms (fst (emit_updates now us st)) = srv_rooms st"
  "srv_logs (fst (emit_updates now us st)) = srv_logs st"
  "srv_alerts (fst (emit_updates now us st)) = foldl (\<lambda>a u. handleUpdate a u now) (srv_alerts st) us"
  "snd (emit_updates now us st) = map (\<lambda>u. SendUpdate u (publishUpdate True (srv_rooms st) u)) us"
  by (induction us arbitrary: st) (simp_all add: emit_update_def split_beta Let_def)

lemma parts_of_updates [simp]:
  "List.map_filter sent_update (map (\<lambda>u. SendUpdate u (f u)) us) = us"
  "List.map_filter alert_done (map (\<lambda>u. SendUpdate u (f u)) us) = []"
  "List.map_filter logs_done_by (map (\<lambda>u. SendUpdate u (f u)) us) = []"
  by (simp_all add: map_filter_none map_filter_some [where h = "\<lambda>x. x", simplified])

text \<open>The updates of one emission, seen by the alerts.\<close>

lemma alerts_of_updates:
  "n \<le> t \<Longrightarrow> \<exists>n'\<le>t. alerts_run n st (map (\<lambda>u. Update u t) us) n' (foldl (\<lambda>a u. handleUpdate a u t) st us) []"
proof (induction us arbitrary: n st)
  case (Cons u us)
  from Cons.IH [of t "handleUpdate st u t"] Cons.prems show ?case by (simp add: alerts_run_Cons)
qed auto

lemma seen_updates [simp]: "List.map_filter seen_update (map (\<lambda>u. Update u t) us) = us"
  by (simp add: map_filter_some [where h = "\<lambda>x. x", simplified])

text \<open>Only engine events publish, with the rooms of before and after the step.\<close>

lemma published_rooms:
  assumes "server_step env lib st e = (st1, out)" and "SendUpdate u ss \<in> set out"
  shows "\<exists>t g. e = FromEngine g t"
  using assms by (cases e) (auto simp: handleDisconnect_def split_beta Let_def)

lemma step_rooms:
  assumes "server_step env lib st (FromEngine g t) = (st1, out)"
  shows "srv_rooms st1 = srv_rooms st"
proof -
  obtain g1 us where g: "engine_step env (lib_parse lib) (lib_date lib) (lib_int lib) (srv_engine st) g = (g1, us)"
    by fastforce
  with assms have "st1 = fst (emit_updates t us (st\<lparr>srv_engine := g1\<rparr>))" by simp
  then show ?thesis by (simp add: emit_updates_frame)
qed

definition alerts_follow :: "int \<Rightarrow> int \<Rightarrow> live_server \<Rightarrow> server_effect list \<Rightarrow> alert_event list \<Rightarrow> bool" where
  "alerts_follow t0 now st out aes \<longleftrightarrow>
     (\<exists>n\<le>now. alerts_run t0 alerts_init aes n (srv_alerts st) (List.map_filter alert_done out))
   \<and> List.map_filter seen_update aes = List.map_filter sent_update out"

lemma alerts_follow_step:
  assumes "alerts_follow t0 now st out aes" and "server_enabled now st e" and "server_step env lib st e = (st1, out1)"
  shows "\<exists>aes'. alerts_follow t0 (server_clock now e) st1 (out @ out1) aes'"
proof -
  from assms(1) obtain n where n: "n \<le> now"
      "alerts_run t0 alerts_init aes n (srv_alerts st) (List.map_filter alert_done out)"
    and u: "List.map_filter seen_update aes = List.map_filter sent_update out"
    by (auto simp: alerts_follow_def)
  show ?thesis
  proof (cases e)
    case (FromEngine g t)
    obtain g1 us where g: "engine_step env (lib_parse lib) (lib_date lib) (lib_int lib) (srv_engine st) g = (g1, us)"
      by fastforce
    from assms(3) have st1: "srv_alerts st1 = foldl (\<lambda>a u. handleUpdate a u t) (srv_alerts st) us"
      and out1: "out1 = map (\<lambda>u. SendUpdate u (publishUpdate True (srv_rooms st) u)) us"
      using emit_updates_frame [of t us "st\<lparr>srv_engine := g1\<rparr>"] by (simp_all add: FromEngine g)
    from assms(2) n(1) have "n \<le> t" by (simp add: FromEngine)
    then obtain n' where n': "n' \<le> t" "alerts_run n (srv_alerts st) (map (\<lambda>u. Update u t) us) n' (srv_alerts st1) []"
      using alerts_of_updates [of n t "srv_alerts st" us] by (auto simp: st1)
    from alerts_run_join [OF n(2) n'(2)] n'(1) u
    have "alerts_follow t0 t st1 (out @ out1) (aes @ map (\<lambda>u. Update u t) us)"
      by (auto simp: alerts_follow_def out1)
    then show ?thesis by (auto simp: FromEngine)
  next
    case (FromAlerts a)
    obtain a1 o1 where a: "alert_step (srv_alerts st) a = (a1, o1)" by fastforce
    with assms(3) have st1: "srv_alerts st1 = a1" "out1 = map AlertDid o1" by (auto simp: FromAlerts)
    have "alerts_run n (srv_alerts st) [a] (event_end a) a1 o1"
      using assms(2) n(1) by (simp add: FromAlerts alerts_run_Cons a)
    from alerts_run_join [OF n(2) this] u assms(2)
    have "alerts_follow t0 (event_end a) st1 (out @ out1) (aes @ [a])"
      by (cases a) (auto simp: alerts_follow_def st1 FromAlerts List.map_filter_simps)
    then show ?thesis by (auto simp: FromAlerts)
  qed (use assms(3) n u in \<open>auto simp: alerts_follow_def handleDisconnect_def split_beta Let_def List.map_filter_simps
        intro!: exI [of _ aes]\<close>)
qed

lemma logs_run_snoc:
  assumes "logs_run d st es s out" and "logs_enabled s e"
  shows "logs_run d st (es @ [e]) (fst (logs_step d s e)) (out @ snd (logs_step d s e))"
  using assms by (induction rule: logs_run.induct) (simp_all add: logs_run_Cons logs_more)

text \<open>Who gets an update: the sockets that want its service when it is published.\<close>

definition sent_to_subscribers :: "server_event list \<Rightarrow> server_effect list \<Rightarrow> bool" where
  "sent_to_subscribers es out \<longleftrightarrow> (\<forall>u ss. SendUpdate u ss \<in> set out \<longrightarrow>
     (\<exists>past future. es = past @ future \<and> ss = {s. wants (List.map_filter room_part past) s (upd_service u)}))"

lemma sent_to_subscribers_snoc:
  "sent_to_subscribers es out \<Longrightarrow> sent_to_subscribers (es @ [e]) out"
  unfolding sent_to_subscribers_def by (metis append.assoc)

lemma rooms_after_snoc: "rooms_after (rs @ [r]) = room_step (rooms_after rs) r"
  by (simp add: rooms_after_def)

lemma sent_step:
  assumes "srv_rooms st = rooms_after (List.map_filter room_part es)" and "server_step env lib st e = (st1, out1)"
  shows "sent_to_subscribers (es @ [e]) out1"
proof (cases e)
  case (FromEngine g t)
  obtain g1 us where g: "engine_step env (lib_parse lib) (lib_date lib) (lib_int lib) (srv_engine st) g = (g1, us)"
    by fastforce
  from assms(2) have "out1 = map (\<lambda>u. SendUpdate u (publishUpdate True (srv_rooms st) u)) us"
    using emit_updates_frame(5) [of t us "st\<lparr>srv_engine := g1\<rparr>"] by (simp add: FromEngine g)
  then show ?thesis by (auto simp: sent_to_subscribers_def assms(1) published_wants)
qed (use assms(2) in \<open>auto simp: sent_to_subscribers_def handleDisconnect_def split_beta Let_def\<close>)

lemma server_components:
  assumes "server_run env lib t0 es now st out"
  shows "engine_reach env (lib_parse lib) (lib_date lib) (lib_int lib)
        (List.map_filter engine_part es) (srv_engine st) (List.map_filter sent_update out)
    \<and> (\<exists>aes. alerts_follow t0 now st out aes)
    \<and> srv_rooms st = rooms_after (List.map_filter room_part es)
    \<and> logs_run (lib_is_date lib) logs_init (List.map_filter logs_part es) (srv_logs st)
        (List.map_filter logs_done_by out)
    \<and> sent_to_subscribers es out"
  using assms
proof (induction rule: server_run.induct)
  case server_start
  then show ?case
    by (auto simp: server_init_def engine_start alerts_follow_def List.map_filter_simps sent_to_subscribers_def
        intro!: exI [of _ t0] exI [of _ "[]"])
next
  case (server_more es now st out e st1 out1)
  then have rooms: "srv_rooms st = rooms_after (List.map_filter room_part es)"
    and sent: "sent_to_subscribers es out" by blast+
  from server_more obtain aes where "alerts_follow t0 now st out aes" by blast
  note alerts = alerts_follow_step [OF this server_more.hyps(2,3)]
  have subs: "sent_to_subscribers (es @ [e]) (out @ out1)"
    using sent_to_subscribers_snoc [OF sent, of e] sent_step [OF rooms server_more.hyps(3)]
    by (auto simp: sent_to_subscribers_def)
  have engine: "engine_reach env (lib_parse lib) (lib_date lib) (lib_int lib)
      (List.map_filter engine_part (es @ [e])) (srv_engine st1) (List.map_filter sent_update (out @ out1))"
  proof (cases e)
    case (FromEngine g t)
    obtain g1 us where g: "engine_step env (lib_parse lib) (lib_date lib) (lib_int lib) (srv_engine st) g = (g1, us)"
      by fastforce
    from server_more.hyps(3) have "srv_engine st1 = g1" "List.map_filter sent_update out1 = us"
      using emit_updates_frame [of t us "st\<lparr>srv_engine := g1\<rparr>"] by (simp_all add: FromEngine g)
    with engine_more [OF _ _ g] server_more.IH server_more.hyps(2) show ?thesis
      by (simp add: FromEngine List.map_filter_simps)
  qed (use server_more in \<open>auto simp: handleDisconnect_def split_beta Let_def List.map_filter_simps\<close>)
  from server_more.hyps(3) have st1: "st1 = fst (server_step env lib st e)" "out1 = snd (server_step env lib st e)"
    by simp_all
  have room: "srv_rooms st1 = rooms_after (List.map_filter room_part (es @ [e]))"
    unfolding st1
    by (cases e) (simp_all add: rooms rooms_after_snoc handleDisconnect_def split_beta Let_def List.map_filter_simps
        emit_updates_frame)
  have logs: "logs_run (lib_is_date lib) logs_init (List.map_filter logs_part (es @ [e])) (srv_logs st1)
      (List.map_filter logs_done_by (out @ out1))"
  proof (cases "logs_part e")
    case None
    with server_more.IH show ?thesis unfolding st1
      by (cases e) (simp_all add: split_beta Let_def List.map_filter_simps emit_updates_frame)
  next
    case (Some l)
    then have "logs_enabled (srv_logs st) l" "srv_logs st1 = fst (logs_step (lib_is_date lib) (srv_logs st) l)"
      "List.map_filter logs_done_by out1 = snd (logs_step (lib_is_date lib) (srv_logs st) l)"
      using server_more.hyps(2,3) by (cases e; auto simp: handleDisconnect_def split_beta Let_def)+
    with server_more.IH logs_run_snoc Some show ?thesis by (auto simp: List.map_filter_simps)
  qed
  from engine alerts room logs subs show ?case by blast
qed

section \<open>The whole behaves as its parts\<close>


section \<open>From an event line to an alert\<close>

text \<open>An event that came in a line of the engine's stream and passed the filter.\<close>

definition heard :: "env \<Rightarrow> (utext \<Rightarrow> docker_event option) \<Rightarrow> docker_event \<Rightarrow> lifecycle_action \<Rightarrow> bool" where
  "heard env parse ev a \<longleftrightarrow> event_action ev = Some a \<and> isManaged env (ev_Attributes ev)
     \<and> (\<exists>line. not_blank line \<and> parse line = Some ev)"

lemma handled_heard:
  assumes "not_blank line" and "handleEventLine env parse line = Some (ev, a)"
  shows "heard env parse ev a"
proof -
  from assms(2) obtain ev' where p: "parse line = Some ev'" by (cases "parse line") (simp_all add: handleEventLine_def)
  with assms(2) obtain a' where a: "event_action ev' = Some a'"
    by (cases "event_action ev'") (simp_all add: handleEventLine_def)
  with assms(2) p have "isManaged env (ev_Attributes ev')" "ev' = ev" "a' = a"
    by (simp_all add: handleEventLine_def split: if_split_asm)
  with p a assms(1) show ?thesis by (auto simp: heard_def)
qed

lemma event_lines_heard: "(ev, a) \<in> set (event_lines env parse line) \<Longrightarrow> heard env parse ev a"
  by (cases "not_blank line"; cases "handleEventLine env parse line") (auto simp: event_lines_def handled_heard)

lemma event_data_heard: "(ev, a) \<in> set (snd (event_data env parse buf chunk)) \<Longrightarrow> heard env parse ev a"
  by (auto simp: event_data_def line_push_def Let_def split_beta event_lines_heard)

lemma inspecting_frame:
  "ev_inspecting (events_connected st ok) = ev_inspecting st" "ev_inspecting (stream_down st k) = ev_inspecting st"
  "ev_inspecting (retry_fires st) = ev_inspecting st" "ev_inspecting (events_destroy st) = ev_inspecting st"
  by (simp_all add: events_connected_def stream_down_def scheduleRetry_def retry_fires_def
      subscribeToDockerEvents_def events_destroy_def Let_def)

lemma engine_reach_heard:
  assumes "engine_reach env parse dp pint es st out"
  shows "(\<forall>(ev, a)\<in>set (ev_inspecting st). heard env parse ev a)
    \<and> (\<forall>u\<in>set out. \<exists>ev a f t. heard env parse ev a \<and> publishFromEvent dp pint ev a f t = Some u)"
  using assms
proof (induction rule: engine_reach.induct)
  case engine_start
  show ?case by (simp add: events_init_def subscribeToDockerEvents_def)
next
  case (engine_more es st out e st1 out1)
  show ?case
  proof (cases e)
    case (StreamChunk k c)
    have "\<forall>(ev, a)\<in>set (snd (event_data env parse (ev_live st ! k) c)). heard env parse ev a"
      using event_data_heard by fast
    then show ?thesis using engine_more StreamChunk by (auto simp: stream_chunk_def Let_def split: prod.splits)
  next
    case (InspectDone i f now)
    have "ev_inspecting st ! i \<in> set (ev_inspecting st)" using engine_more.hyps(2) InspectDone by simp
    with engine_more.IH have "heard env parse (fst (ev_inspecting st ! i)) (snd (ev_inspecting st ! i))"
      by (auto simp: split_beta)
    with engine_more InspectDone remove_nth_subset [of i "ev_inspecting st"] show ?thesis
      by (fastforce simp: split_beta Let_def split: option.splits)
  qed (use engine_more in \<open>auto simp: inspecting_frame\<close>)
qed


section \<open>Concrete runs\<close>

fun server_exec :: "env \<Rightarrow> server_lib \<Rightarrow> int \<Rightarrow> live_server \<Rightarrow> server_event list
    \<Rightarrow> (int \<times> live_server \<times> server_effect list) option" where
  "server_exec env lib now st [] = Some (now, st, [])"
| "server_exec env lib now st (e # es) =
     (if server_enabled now st e
      then map_option (\<lambda>(n, s, out). (n, s, snd (server_step env lib st e) @ out))
             (server_exec env lib (server_clock now e) (fst (server_step env lib st e)) es)
      else None)"

lemma server_exec_run:
  assumes "server_exec env lib now st es = Some (now', st', out')" and "server_run env lib t0 past now st out"
  shows "server_run env lib t0 (past @ es) now' st' (out @ out')"
  using assms
proof (induction es arbitrary: now st past out out')
  case (Cons e es)
  from Cons.prems(1) obtain o2 where en: "server_enabled now st e"
    and ex: "server_exec env lib (server_clock now e) (fst (server_step env lib st e)) es = Some (now', st', o2)"
    and out': "out' = snd (server_step env lib st e) @ o2"
    by (auto split: if_splits)
  from server_more [OF Cons.prems(2) en, of "fst (server_step env lib st e)" "snd (server_step env lib st e)"]
  have "server_run env lib t0 (past @ [e]) (server_clock now e) (fst (server_step env lib st e))
      (out @ snd (server_step env lib st e))" by simp
  from Cons.IH [OF ex this] show ?case by (simp add: out')
qed simp

definition restart_ev :: "string \<Rightarrow> docker_event" where
  "restart_ev a = \<lparr>ev_Action = Some a, ev_id = None, ev_ActorID = Some ''c1'', ev_Attributes = Some sample_labels\<rparr>"

definition sample_server_lib :: server_lib where
  "sample_server_lib = \<lparr>lib_parse = (\<lambda>l. if l = [68] then Some (restart_ev ''die'') else if l = [82] then Some (restart_ev ''restart'') else None),
     lib_date = (\<lambda>_. 0), lib_int = (\<lambda>_. None), lib_is_date = (\<lambda>_. False)\<rparr>"

definition restart_seen :: "int \<Rightarrow> lifecycle_action \<Rightarrow> service_update" where
  "restart_seen t a = \<lparr>upd_service = ''cci.web'', upd_state = hd (services sample_snapshot), occurredAt = t,
     upd_action = a, exitCode = None\<rparr>"

lemma restart_published: "publishFromEvent (\<lambda>_. 0) (\<lambda>_. None) (restart_ev x) a sample_inspect t = Some (restart_seen t a)"
  by (simp add: publishFromEvent_def restart_ev_def restart_seen_def event_subject_def inspected_def sample_inspect_def
      inspectState_def sample_labels_def COMPOSE_SERVICE_def COMPOSE_PROJECT_def sample_snapshot_def no_labels_def
      serviceKey_def round_sec_def strip_slash_def starts_with_def Let_def)

lemma restart_handled:
  "handleEventLine (\<lambda>_. None) (lib_parse sample_server_lib) [68] = Some (restart_ev ''die'', ADie)"
  "handleEventLine (\<lambda>_. None) (lib_parse sample_server_lib) [82] = Some (restart_ev ''restart'', ARestart)"
  by (simp_all add: handleEventLine_def sample_server_lib_def restart_ev_def event_action_def js_trim_def js_space_def
      isManaged_def sample_labels_def)

lemma restart_lines:
  "event_data (\<lambda>_. None) (lib_parse sample_server_lib) [] [68, 10, 82, 10]
    = ([], [(restart_ev ''die'', ADie), (restart_ev ''restart'', ARestart)])"
proof -
  have "utf8_decode [68, 10, 82, 10] = [68, 10, 82, 10]" by (simp add: utf8_decode_ascii)
  then show ?thesis
    by (simp add: event_data_def line_push_def event_lines_def restart_handled not_blank_def unit_space_def Let_def)
qed

definition overtaken_restart :: "server_event list" where
  "overtaken_restart =
     [FromClient (RoomsSubscribe ''c'' (JArr [JStr ''cci.web''])), FromEngine (Connected True) 0,
      FromEngine (StreamChunk 0 [68, 10, 82, 10]) 1,
      FromEngine (InspectDone 1 sample_inspect 2) 2, FromEngine (InspectDone 0 sample_inspect 3) 3,
      FromAlerts (LookupDone 0 (ReadRow None) 4 4), FromAlerts (TimerFires ''web'' 3003),
      FromAlerts (LookupDone 0 (ReadRow None) 3004 3004)]"

lemma restart_name: "sname (upd_state (restart_seen t a)) = ''web''" "upd_action (restart_seen t a) = a"
  "exitCode (restart_seen t a) = None"
  by (simp_all add: restart_seen_def sample_snapshot_def)

lemma handle_restart:
  "handleUpdate st (restart_seen t ARestart) now
    = start_alert (cancelPendingDieAlert st ''web'') (AlertTask RestartAlert ''web'' None)"
  "handleUpdate st (restart_seen t ADie) now = scheduleDieAlert st ''web'' None now"
  by (simp_all add: handleUpdate_def restart_name Let_def)

lemma overtaken_exec:
  "\<exists>st out. server_exec (\<lambda>_. None) sample_server_lib 0 server_init overtaken_restart = Some (3004, st, out)
    \<and> List.map_filter sent_update out = [restart_seen 2 ARestart, restart_seen 3 ADie]
    \<and> List.map_filter alert_done out = [SendRestarted ''web'', SendDown ''web'' None]"
proof -
  have lib: "lib_date sample_server_lib = (\<lambda>_. 0)" "lib_int sample_server_lib = (\<lambda>_. None)"
    by (simp_all add: sample_server_lib_def)
  show ?thesis
    by (simp add: overtaken_restart_def server_init_def events_init_def subscribeToDockerEvents_def events_connected_def
        stream_chunk_def restart_lines lib restart_published emit_update_def handle_restart alerts_init_def
        start_alert_def cancelPendingDieAlert_def scheduleDieAlert_def die_timer_def remove_nth.simps
        finish_alert_def isEnabled_def isOnCooldown_def note_alert_def cooldownKey_def alert_times
        List.map_filter_simps Let_def)
qed





end
