(* ===== verification/RestApi.thy ===== *)
theory RestApi
  imports AuditTrail AuthBff NotifyBot Taskforge Metrics
begin

text \<open>
  The REST surface of the API as one function: the global guard (auth.guard.ts) in front of every
  controller, and behind it the controllers of the other theories on one set of tables.  It adds
  the controllers that only delegate (jobs.controller.ts, taskforge-status.controller.ts,
  health.controller.ts, \<open>AuthController.me\<close>) and the remaining operations of
  jobs/taskforge-client.service.ts and retention.service.ts.
\<close>

section \<open>The client of taskforge\<close>

text \<open>
  The calls of the client: an access token (theory Taskforge), then the request.  \<open>http\<close> answers
  by method, path and JSON body; \<open>uri\<close> is \<open>encodeURIComponent\<close>, \<open>key\<close> the random idempotency key.
\<close>

type_synonym taskforge_http = "string \<Rightarrow> string \<Rightarrow> json option \<Rightarrow> http_outcome"

definition with_token :: "http_error + string \<Rightarrow> (string \<Rightarrow> http_error + 'a) \<Rightarrow> http_error + 'a" where
  "with_token token f = ebind token f"

definition enqueueDemoJob ::
  "env \<Rightarrow> http_error + string \<Rightarrow> (string \<Rightarrow> taskforge_http) \<Rightarrow> string \<Rightarrow> int \<Rightarrow> http_error + json" where
  "enqueueDemoJob env token http key steps =
     with_token token (\<lambda>t. taskforge_request env (\<lambda>path. http t ''POST'' path
       (Some (JObj [(''name'', JStr ''core-dashboard-metrics-report''),
         (''payload'', JObj [(''steps'', JNum (of_int steps))]), (''idempotencyKey'', JStr key)]))) ''/jobs'')"

definition getJobStatus ::
  "env \<Rightarrow> http_error + string \<Rightarrow> (string \<Rightarrow> taskforge_http) \<Rightarrow> (string \<Rightarrow> string) \<Rightarrow> string \<Rightarrow> http_error + json" where
  "getJobStatus env token http uri jid =
     with_token token (\<lambda>t. taskforge_request env (\<lambda>path. http t ''GET'' path None) (''/jobs/'' @ uri jid))"

text \<open>\<open>URLSearchParams\<close> on states and numbers needs no escaping.\<close>

definition query_string :: "(string \<times> string) list \<Rightarrow> string" where
  "query_string ps = js_join ''&'' (map (\<lambda>(k, v). k @ ''='' @ v) ps)"

definition listJobs ::
  "env \<Rightarrow> http_error + string \<Rightarrow> (string \<Rightarrow> taskforge_http) \<Rightarrow> taskforge_state option \<Rightarrow> int option \<Rightarrow> http_error + json" where
  "listJobs env token http st limit =
     (let qs = query_string (jobs_search st limit)
      in with_token token (\<lambda>t. taskforge_request env (\<lambda>path. http t ''GET'' path None)
           (''/jobs'' @ (if qs \<noteq> [] then ''?'' @ qs else []))))"

section \<open>Requests, tables, answers\<close>

record rest_tables =
  rt_actions :: actions_state \<comment> \<open>memory of ActionsService\<close>
  rt_audit :: "audit_log list"
  rt_settings :: "alert_setting list"
  rt_jobs :: "job_run list"
  rt_rollups :: "rollup_row list"

text \<open>What the rest of the world answers during one request.\<close>

record rest_world =
  w_env :: env
  w_jwt :: jwt_lib
  w_collation :: "string \<Rightarrow> string \<Rightarrow> bool"
  w_date :: "string \<Rightarrow> int"
  w_inspect :: inspector
  w_listing :: "container_info list option"
  w_docker_ok :: bool
  w_db_ok :: bool
  w_checked :: int
  w_recorded :: int
  w_now :: int
  w_fresh :: string \<comment> \<open>the id of a new row\<close>
  w_bot :: "query \<Rightarrow> http_outcome"
  w_auth_get :: "(string \<times> string) list \<Rightarrow> string \<Rightarrow> http_outcome"
  w_auth_post :: auth_post
  w_enqueue :: "int \<Rightarrow> http_error + string \<times> string"
  w_job_state :: "string \<Rightarrow> http_error + string"
  w_queue :: "http_error + (taskforge_state \<Rightarrow> nat) \<times> (taskforge_state \<Rightarrow> nat \<Rightarrow> job_record list)"
    \<comment> \<open>\<open>Promise.all\<close> of the calls of the status: totals and pages, or the first rejection\<close>
  w_prometheus :: "range_query \<Rightarrow> http_error + (rat \<times> string) list list"
  w_uptime :: rat
  w_auth_health :: "http_outcome \<times> int"
  w_taskforge_health :: "(http_error + json) \<times> int"
  w_bot_health :: "http_outcome \<times> int"

datatype rest_request =
  PostRestart string
| GetAlertSettings
| PatchAlertSetting string "setting_patch option"
| GetAlertsFeed "string option" "string option" "string option"
| GetAuditLog audit_filters "string option" "string option"
| GetSecurityAudit "string option" "string option" "string option" "string option"
| PostJobsDemo "json option"
| GetJobs
| GetJob string
| GetTaskforgeStatus
| GetMetricsLive "string option" "string option" "string option"
| GetMetricsHistory "string option" "string option" "string option"
| GetHealth
| GetDependencies
| PostLogin "json option"
| PostTwoFactor "json option"
| PostRefresh "json option"
| PostLogout "json option"
| GetMe

fun request_route :: "rest_request \<Rightarrow> route" where
  "request_route (PostRestart _) = RestartAction"
| "request_route GetAlertSettings = AlertSettingsList"
| "request_route (PatchAlertSetting _ _) = AlertSettingsUpdate"
| "request_route (GetAlertsFeed _ _ _) = AlertsFeed"
| "request_route (GetAuditLog _ _ _) = AuditLogList"
| "request_route (GetSecurityAudit _ _ _ _) = SecurityAuditList"
| "request_route (PostJobsDemo _) = JobsDemo"
| "request_route GetJobs = JobsList"
| "request_route (GetJob _) = JobsRefresh"
| "request_route GetTaskforgeStatus = TaskforgeStatus"
| "request_route (GetMetricsLive _ _ _) = MetricsLive"
| "request_route (GetMetricsHistory _ _ _) = MetricsHistory"
| "request_route GetHealth = Health"
| "request_route GetDependencies = HealthDependencies"
| "request_route (PostLogin _) = AuthLogin"
| "request_route (PostTwoFactor _) = AuthTwoFactor"
| "request_route (PostRefresh _) = AuthRefresh"
| "request_route (PostLogout _) = AuthLogout"
| "request_route GetMe = AuthMe"

datatype rest_effect = ActionDid action_effect | AuthCalled auth_call | EnqueueTried int

datatype rest_answer =
  RestartAnswer "action_error + string"
| SettingsAnswer "alert_setting list"
| SettingAnswer alert_setting
| ForwardedAnswer json
| AuditAnswer "audit_log list" nat
| JobAnswer job_run
| JobsAnswer "job_run list"
| QueueAnswer "(taskforge_state \<times> nat) list" "job_record list"
| LiveAnswer "string \<times> string \<times> (rat \<times> jsnum) list"
| HistoryAnswer "string \<times> string \<times> (int \<times> rat) list"
| HealthAnswer "string \<times> string \<times> rat"
| DependenciesAnswer "(string \<times> dependency_status \<times> int) list"
| UserAnswer auth_user
| LogoutAnswer

section \<open>The controllers that delegate\<close>

text \<open>\<open>JobsController\<close>: \<open>body.steps\<close> of a missing or null body throws.\<close>

definition jobs_trigger ::
  "rest_world \<Rightarrow> job_run list \<Rightarrow> auth_user \<Rightarrow> json option \<Rightarrow> rest_effect list \<times> (http_error + job_run list \<times> job_run)" where
  "jobs_trigger w rows user body =
     (case body of
        None \<Rightarrow> ([], Inl UncheckedError)
      | Some b \<Rightarrow>
          if b = JNull then ([], Inl UncheckedError)
          else ([EnqueueTried (clampSteps (jfield ''steps'' b))],
                triggerDemo (w_enqueue w) (w_db_ok w) (w_fresh w) (w_now w) rows user (jfield ''steps'' b)))"

definition jobs_index :: "job_run list \<Rightarrow> job_run list" where
  "jobs_index rows = jobs_list rows"

definition jobs_refresh :: "rest_world \<Rightarrow> job_run list \<Rightarrow> string \<Rightarrow> http_error + job_run list \<times> job_run" where
  "jobs_refresh w rows i = refreshStatus (w_job_state w) (w_db_ok w) rows i"

text \<open>\<open>TaskforgeStatusController\<close>, \<open>HealthController\<close>, \<open>AuthController.me\<close>.\<close>

definition queue_status :: "rest_world \<Rightarrow> http_error + (taskforge_state \<times> nat) list \<times> job_record list" where
  "queue_status w = map_sum id (\<lambda>(totals, page). getStatus (w_collation w) totals page) (w_queue w)"

definition getHealth :: "rat \<Rightarrow> string \<times> string \<times> rat" where
  "getHealth uptime = (''ok'', ''core-dashboard-api'', uptime)"

definition getDependencies :: "rest_world \<Rightarrow> (string \<times> dependency_status \<times> int) list" where
  "getDependencies w = dependencies_check (w_env w) (w_auth_health w) (w_taskforge_health w) (w_bot_health w)"

definition me :: "auth_user \<Rightarrow> auth_user" where
  "me user = user"

text \<open>\<open>AlertsController.update\<close>: the key is checked before the body is read.\<close>

definition settings_patch ::
  "alert_setting list \<Rightarrow> string \<Rightarrow> setting_patch option \<Rightarrow> auth_user \<Rightarrow> http_error + alert_setting list \<times> alert_setting" where
  "settings_patch rows key p user =
     (case p of
        Some p1 \<Rightarrow> settings_update rows key p1 user
      | None \<Rightarrow> if key \<notin> set ALERT_KEYS then Inl (BadRequest (UnknownAlertKey key)) else Inl UncheckedError)"

section \<open>Handlers\<close>

fun rest_dispatch ::
  "rest_world \<Rightarrow> rest_tables \<Rightarrow> auth_user \<Rightarrow> string option \<Rightarrow> rest_request
    \<Rightarrow> rest_tables \<times> rest_effect list \<times> (http_error + rest_answer)" where
  "rest_dispatch w st user header (PostRestart name) =
     (let (a, out, res) = restart_endpoint (w_env w) (rt_actions st) name user
            (findManagedByName (w_env w) (w_date w) (w_inspect w) (w_listing w) name)
            (w_checked w) (w_recorded w) (w_docker_ok w) (w_db_ok w)
      in (st\<lparr>rt_actions := a, rt_audit := rt_audit st @ audit_store (w_now w) out\<rparr>,
          map ActionDid out, map_sum id RestartAnswer res))"
| "rest_dispatch w st user header GetAlertSettings =
     (st, [], Inr (SettingsAnswer (settings_list (w_collation w) (rt_settings st))))"
| "rest_dispatch w st user header (PatchAlertSetting key p) =
     (case settings_patch (rt_settings st) key p user of
        Inl e \<Rightarrow> (st, [], Inl e)
      | Inr (rows, s) \<Rightarrow> if w_db_ok w then (st\<lparr>rt_settings := rows\<rparr>, [], Inr (SettingAnswer s))
          else (st, [], Inl UncheckedError))"
| "rest_dispatch w st user header (GetAlertsFeed type limit offset) =
     (st, [], map_sum id ForwardedAnswer (feed_list (w_env w) (w_bot w) type limit offset))"
| "rest_dispatch w st user header (GetAuditLog f limit offset) =
     (st, [], map_sum id (\<lambda>(page, n). AuditAnswer page n) (audit_controller (rt_audit st) f limit offset))"
| "rest_dispatch w st user header (GetSecurityAudit action userId skip tk) =
     (st, [], map_sum id ForwardedAnswer (security_audit (w_env w) (w_auth_get w) header action userId skip tk))"
| "rest_dispatch w st user header (PostJobsDemo body) =
     (case jobs_trigger w (rt_jobs st) user body of
        (out, Inl e) \<Rightarrow> (st, out, Inl e)
      | (out, Inr (rows, r)) \<Rightarrow> (st\<lparr>rt_jobs := rows\<rparr>, out, Inr (JobAnswer r)))"
| "rest_dispatch w st user header GetJobs = (st, [], Inr (JobsAnswer (jobs_index (rt_jobs st))))"
| "rest_dispatch w st user header (GetJob i) =
     (case jobs_refresh w (rt_jobs st) i of
        Inl e \<Rightarrow> (st, [], Inl e)
      | Inr (rows, r) \<Rightarrow> (st\<lparr>rt_jobs := rows\<rparr>, [], Inr (JobAnswer r)))"
| "rest_dispatch w st user header GetTaskforgeStatus =
     (st, [], map_sum id (\<lambda>(counts, fails). QueueAnswer counts fails) (queue_status w))"
| "rest_dispatch w st user header (GetMetricsLive c m minutes) =
     (st, [], map_sum id LiveAnswer (live (w_prometheus w) (w_now w) c m minutes))"
| "rest_dispatch w st user header (GetMetricsHistory c m hours) =
     (st, [], map_sum id HistoryAnswer (history (rt_rollups st) (w_now w) c m hours))"
| "rest_dispatch w st user header GetHealth = (st, [], Inr (HealthAnswer (getHealth (w_uptime w))))"
| "rest_dispatch w st user header GetDependencies =
     (st, [], Inr (DependenciesAnswer (getDependencies w)))"
| "rest_dispatch w st user header (PostLogin body) =
     (let (calls, res) = login (w_env w) (w_auth_post w) body in (st, map AuthCalled calls, map_sum id ForwardedAnswer res))"
| "rest_dispatch w st user header (PostTwoFactor body) =
     (let (calls, res) = verifyTwoFactor (w_env w) (w_auth_post w) body in (st, map AuthCalled calls, map_sum id ForwardedAnswer res))"
| "rest_dispatch w st user header (PostRefresh body) =
     (let (calls, res) = refresh (w_env w) (w_auth_post w) body in (st, map AuthCalled calls, map_sum id ForwardedAnswer res))"
| "rest_dispatch w st user header (PostLogout body) =
     (let (calls, res) = logout (w_env w) (w_auth_post w) body in (st, map AuthCalled calls, map_sum id (\<lambda>_. LogoutAnswer) res))"
| "rest_dispatch w st user header GetMe = (st, [], Inr (UserAnswer (me user)))"

text \<open>The guard, then the controller.\<close>

definition rest_handle ::
  "rest_world \<Rightarrow> rest_tables \<Rightarrow> string option \<Rightarrow> rest_request \<Rightarrow> rest_tables \<times> rest_effect list \<times> (http_error + rest_answer)" where
  "rest_handle w st header req =
     (case guard_route (w_jwt w) (w_env w) header (request_route req) of
        Inl e \<Rightarrow> (st, [], Inl e)
      | Inr user \<Rightarrow> rest_dispatch w st user header req)"

section \<open>Retention (RetentionService.purgeTick)\<close>

text \<open>Both purges run; if one throws the other may have happened all the same.\<close>

definition purgeTick :: "int \<Rightarrow> bool \<Rightarrow> bool \<Rightarrow> rest_tables \<Rightarrow> rest_tables" where
  "purgeTick now audit_ok jobs_ok st =
     st\<lparr>rt_audit := (if audit_ok then fst (purge_rows entered now (rt_audit st)) else rt_audit st),
        rt_jobs := (if jobs_ok then fst (purge_rows createdAt now (rt_jobs st)) else rt_jobs st)\<rparr>"

section \<open>What the guard means for the whole API\<close>

fun auth_call_only :: "rest_effect \<Rightarrow> bool" where
  "auth_call_only (AuthCalled c) = True"
| "auth_call_only _ = False"

lemma public_request_changes_nothing:
  assumes "class_role (request_route req) = None" and "rest_dispatch w st user header req = (st', out, res)"
  shows "st' = st \<and> list_all auth_call_only out"
  using assms by (cases req) (auto simp: list_all_iff split: prod.splits)

lemma settings_only_by_patch:
  assumes "rest_dispatch w st user header req = (st', out, res)" and "rt_settings st' \<noteq> rt_settings st"
  shows "class_role (request_route req) = Some Admin"
  using assms by (cases req) (auto split: prod.splits sum.splits if_splits)

text \<open>
  C2: nothing changes without a verified role.  Whatever the request: if it changes a table or the
  restart history, restarts a container or enqueues a job, then its bearer token was verified
  and carries the operator or the admin role; and if it changes the alert settings, the admin
  role.
\<close>

theorem state_changes_need_verified_role:
  assumes "rest_handle w st header req = (st', out, res)" and "st' \<noteq> st \<or> \<not> list_all auth_call_only out"
  shows "\<exists>t p. header = Some (BEARER @ t) \<and> verify (w_jwt w) (w_env w) t = Some p
    \<and> set (payload_claims p) \<inter> {''ADMIN'', ''OPERATOR''} \<noteq> {}
    \<and> (rt_settings st' = rt_settings st \<or> ''ADMIN'' \<in> set (payload_claims p))"
proof (cases "guard_route (w_jwt w) (w_env w) header (request_route req)")
  case (Inl e)
  with assms show ?thesis by (auto simp: rest_handle_def)
next
  case (Inr user)
  with assms(1) have d: "rest_dispatch w st user header req = (st', out, res)" by (simp add: rest_handle_def)
  with assms(2) obtain m where m: "class_role (request_route req) = Some m"
    using public_request_changes_nothing by (metis option.exhaust)
  from guard_route_verified [OF Inr m] obtain t p where t: "header = Some (BEARER @ t)" "verify (w_jwt w) (w_env w) t = Some p"
    and c: "''ADMIN'' \<in> set (payload_claims p) \<or> m = Operator \<and> ''OPERATOR'' \<in> set (payload_claims p)" by metis
  have "rt_settings st' = rt_settings st \<or> ''ADMIN'' \<in> set (payload_claims p)"
    using settings_only_by_patch [OF d] m c by auto
  with t c show ?thesis by blast
qed

text \<open>
  One identity decides every request.  The user that \<open>/auth/me\<close> reports for an authorization
  header is the one every other request with that header is served as: a request whose route
  asks for more than that user's role is refused without any effect, with 401 for nobody and
  403 for somebody, and any other request reaches its controller as that user.
\<close>

theorem identity_decides_every_request:
  shows "\<exists>user. rest_handle w st header GetMe = (st, [], Inr (UserAnswer user))
    \<and> rest_handle w st header req =
        (case class_role (request_route req) of
           Some r \<Rightarrow> if r \<le> user_role user then rest_dispatch w st user header req
             else (st, [], Inl (if sub user = None then Unauthorized else Forbidden))
         | None \<Rightarrow> rest_dispatch w st user header req)"
  by (auto simp: rest_handle_def guard_route_def min_role_def canActivate_def Let_def hasRole_iff me_def split: option.splits)

section \<open>A restart and the audit log\<close>

lemma newest_first_hd:
  assumes "\<forall>x\<in>set xs. entered x < entered r"
  shows "hd (newest_first (xs @ [r])) = r"
proof -
  let ?s = "newest_first (xs @ [r])"
  have "total_preorder (\<lambda>a b. entered b \<le> entered a)" by (auto simp: total_preorder_def)
  then have srt: "sorted_wrt (\<lambda>a b. entered b \<le> entered a) ?s"
    unfolding newest_first_def by (rule sorted_wrt_js_sort)
  have mem: "set ?s = insert r (set xs)" by simp
  then obtain y ys where s: "?s = y # ys" by (cases ?s) auto
  from srt s have "\<forall>x\<in>set ys. entered x \<le> entered y" by simp
  with mem s have "entered r \<le> entered y" and "y \<in> insert r (set xs)" by (auto simp: set_eq_iff)
  with assms show ?thesis by (auto simp: s)
qed

lemma parse_page_default: "parse_page None None = Inr (50, 0)"
  by (simp add: parse_page_def parseNonNegativeInt_def DEFAULT_LIMIT_def MAX_LIMIT_def)


section \<open>Witnesses\<close>

lemma rest_restart:
  "rest_handle w st header (PostRestart name) =
     (case restart_request (w_jwt w) (w_env w) (w_date w) (w_inspect w) (w_listing w) header (rt_actions st) name
        (w_checked w) (w_recorded w) (w_docker_ok w) (w_db_ok w) of
        (a, out, res) \<Rightarrow> (st\<lparr>rt_actions := a, rt_audit := rt_audit st @ audit_store (w_now w) out\<rparr>,
          map ActionDid out, map_sum id RestartAnswer res))"
  by (auto simp: rest_handle_def restart_request_def audit_store_def List.map_filter_simps split: sum.splits prod.splits)

definition demo_tables :: rest_tables where
  "demo_tables = \<lparr>rt_actions = actions_init, rt_audit = sample_log, rt_settings = [], rt_jobs = [], rt_rollups = []\<rparr>"

definition demo_world :: rest_world where
  "demo_world = \<lparr>w_env = demo_env, w_jwt = demo_lib, w_collation = (\<lambda>_ _. True), w_date = (\<lambda>_. 0),
     w_inspect = (\<lambda>_. Some (restart_info, 0)), w_listing = Some restart_listing, w_docker_ok = True, w_db_ok = True,
     w_checked = 0, w_recorded = 0, w_now = 9, w_fresh = ''id'', w_bot = (\<lambda>_. NetFail), w_auth_get = (\<lambda>_ _. NetFail),
     w_auth_post = (\<lambda>_ _. NetFail), w_enqueue = (\<lambda>_. Inl UncheckedError), w_job_state = (\<lambda>_. Inl UncheckedError),
     w_queue = Inl UncheckedError, w_prometheus = (\<lambda>_. Inl UncheckedError), w_uptime = 1,
     w_auth_health = (NetFail, 0), w_taskforge_health = (Inl UncheckedError, 0), w_bot_health = (NetFail, 0)\<rparr>"

text \<open>A library that accepts the token of an admin.\<close>

definition admin_lib :: jwt_lib where
  "admin_lib = \<lparr>jwt_verify = (\<lambda>t k algs iss. if t = ''adm'' \<and> k = ''k'' \<and> algs = [''HS256'']
       then Some (JObj [(''sub'', JStr ''u2''), (''roles'', JArr [JStr ''ADMIN''])]) else None),
     jwt_kid = (\<lambda>_. None), signing_key = (\<lambda>_ _. None)\<rparr>"

lemma demo_admin:
  "guard_route admin_lib demo_env (Some ''Bearer adm'') AuditLogList
    = Inr \<lparr>sub = Some ''u2'', email = None, user_role = Admin\<rparr>"
  by (simp add: guard_route_def min_role_def canActivate_def bearer_token_def starts_with_def BEARER_def
      authenticate_def verify_def demo_env_def admin_lib_def assertPayload_def
      payload_claims_def map_filter_def roleFromClaims_def hasRole_def)

lemma demo_restart:
  "rest_handle demo_world demo_tables (Some ''Bearer tok'') (PostRestart ''web'') =
     (demo_tables\<lparr>rt_actions := recordRestart actions_init ''web'' 0, rt_audit := sample_log @
        [\<lparr>entry = audit_row \<lparr>sub = Some ''u1'', email = None, user_role = Operator\<rparr> ''web'' ''ok'', entered = 9\<rparr>]\<rparr>,
      [ActionDid (DockerRestart ''web''),
       ActionDid (AuditCreate (audit_row \<lparr>sub = Some ''u1'', email = None, user_role = Operator\<rparr> ''web'' ''ok''))],
      Inr (RestartAnswer (Inr ''web'')))"
  by (simp add: rest_restart demo_world_def demo_tables_def sample_request audit_store_def List.map_filter_simps)

theorem state_changes_need_verified_role_witness:
  "\<exists>t p. ''Bearer tok'' = BEARER @ t \<and> verify demo_lib demo_env t = Some p
    \<and> set (payload_claims p) \<inter> {''ADMIN'', ''OPERATOR''} \<noteq> {}"
  using state_changes_need_verified_role [OF demo_restart] by (auto simp: demo_world_def)


end
