(* ===== verification/WebState.thy ===== *)
theory WebState
  imports Gateway JsNumber
begin

text \<open>
  apps/web/src/lib/live/state.ts: the list of services the browser keeps and what it shows of
  each.  \<open>loc a b\<close> is \<open>a.localeCompare(b) <= 0\<close>, a parameter (the collation of the browser).
\<close>

section \<open>state.ts\<close>

definition service_le :: "(string \<Rightarrow> string \<Rightarrow> bool) \<Rightarrow> service_state \<Rightarrow> service_state \<Rightarrow> bool" where
  "service_le loc a b =
     (if loc (project a) (project b) \<and> loc (project b) (project a) then loc (service a) (service b)
      else loc (project a) (project b))"

definition sortServices :: "(string \<Rightarrow> string \<Rightarrow> bool) \<Rightarrow> service_state list \<Rightarrow> service_state list" where
  "sortServices loc ss = js_sort (service_le loc) ss"

definition applyUpdate ::
  "(string \<Rightarrow> string \<Rightarrow> bool) \<Rightarrow> service_state list \<Rightarrow> service_update \<Rightarrow> service_state list" where
  "applyUpdate loc ss u =
     sortServices loc (filter (\<lambda>s. sname s \<noteq> sname (upd_state u)) ss @ [upd_state u])"

datatype status_tone = ToneOk | ToneWarn | ToneDown

definition statusTone :: "container_status \<Rightarrow> container_health \<Rightarrow> status_tone" where
  "statusTone st h =
     (if h = Unhealthy \<or> st = Dead \<or> st = Exited then ToneDown
      else if h = Starting \<or> st = Restarting \<or> st = Paused \<or> st = Created then ToneWarn
      else ToneOk)"

definition statusLabel :: "container_status \<Rightarrow> container_health \<Rightarrow> container_status + container_health" where
  "statusLabel st h = (if st = Running \<and> h \<noteq> NoHealth then Inr h else Inl st)"

definition uptime_text :: "int \<Rightarrow> string" where
  "uptime_text secs =
     (let days = secs div 86400; hours = secs mod 86400 div 3600;
          minutes = secs mod 3600 div 60; seconds = secs mod 60
      in if 0 < days then show_int days @ ''d '' @ show_int hours @ ''h''
         else if 0 < hours then show_int hours @ ''h '' @ show_int minutes @ ''m''
         else if 0 < minutes then show_int minutes @ ''m '' @ show_int seconds @ ''s''
         else show_int seconds @ ''s'')"

definition formatUptime :: "(string \<Rightarrow> int) \<Rightarrow> string option \<Rightarrow> int \<Rightarrow> string option" where
  "formatUptime date_parse started now =
     (if \<not> truthy started then None
      else Some (uptime_text (max 0 ((now - date_parse (the started)) div 1000))))"

section \<open>The list of services\<close>

lemma service_le_project: "service_le loc a b \<Longrightarrow> loc (project a) (project b)"
  by (auto simp: service_le_def split: if_splits)

lemma service_le_preorder:
  assumes "total_preorder loc"
  shows "total_preorder (service_le loc)"
proof -
  have tot: "loc x y \<or> loc y x" and tr: "loc x y \<Longrightarrow> loc y z \<Longrightarrow> loc x z" for x y z
    using assms unfolding total_preorder_def by blast+
  have "service_le loc a b \<or> service_le loc b a" for a b
    using tot [of "project a" "project b"] tot [of "service a" "service b"] by (auto simp: service_le_def)
  moreover have "service_le loc a c" if ab: "service_le loc a b" and bc: "service_le loc b c" for a b c
  proof (cases "loc (project c) (project a)")
    case True
    note p = service_le_project [OF ab] service_le_project [OF bc]
    from tr [OF p(2) True] tr [OF True p(1)] p have "loc (service a) (service b)" "loc (service b) (service c)"
      using ab bc by (simp_all add: service_le_def)
    from tr [OF this] tr [OF p] show ?thesis by (simp add: service_le_def)
  next
    case False
    with tr [OF service_le_project [OF ab] service_le_project [OF bc]] show ?thesis by (simp add: service_le_def)
  qed
  ultimately show ?thesis unfolding total_preorder_def by blast
qed

text \<open>The browser's list as a map from container names.\<close>

definition view :: "service_state list \<Rightarrow> string \<rightharpoonup> service_state" where
  "view ss n = find (\<lambda>s. sname s = n) ss"

definition names_unique :: "service_state list \<Rightarrow> bool" where
  "names_unique ss \<longleftrightarrow> distinct (map sname ss)"

lemma view_Some:
  assumes "names_unique ss"
  shows "view ss n = Some s \<longleftrightarrow> s \<in> set ss \<and> sname s = n"
proof
  assume "view ss n = Some s"
  then show "s \<in> set ss \<and> sname s = n" by (auto simp: view_def find_Some_iff)
next
  assume s: "s \<in> set ss \<and> sname s = n"
  then obtain t where t: "view ss n = Some t" by (cases "view ss n") (auto simp: view_def find_None_iff)
  then have "t \<in> set ss" "sname t = n" by (auto simp: view_def find_Some_iff)
  with s assms have "t = s" by (auto simp: names_unique_def distinct_map inj_on_def)
  with t show "view ss n = Some s" by simp
qed

lemma names_unique_sort [simp]: "names_unique (sortServices loc ss) = names_unique ss"
  by (simp add: names_unique_def sortServices_def)

lemma view_sort: "names_unique ss \<Longrightarrow> view (sortServices loc ss) = view ss"
proof
  fix n assume u: "names_unique ss"
  then have u': "names_unique (sortServices loc ss)" by simp
  show "view (sortServices loc ss) n = view ss n"
  proof (cases "view ss n")
    case None
    then have "\<forall>s\<in>set (sortServices loc ss). sname s \<noteq> n" by (auto simp: view_def find_None_iff sortServices_def)
    then have "view (sortServices loc ss) n = None" by (auto simp: view_def find_None_iff)
    with None show ?thesis by simp
  next
    case (Some s)
    with view_Some [OF u] have "s \<in> set (sortServices loc ss) \<and> sname s = n" by (simp add: sortServices_def)
    with view_Some [OF u'] Some show ?thesis by simp
  qed
qed

lemma applyUpdate_unique: "names_unique ss \<Longrightarrow> names_unique (applyUpdate loc ss u)"
  by (auto simp: applyUpdate_def names_unique_def sortServices_def distinct_map_filter)

lemma view_applyUpdate:
  assumes "names_unique ss"
  shows "view (applyUpdate loc ss u) = (view ss)(sname (upd_state u) \<mapsto> upd_state u)"
proof -
  let ?pre = "filter (\<lambda>s. sname s \<noteq> sname (upd_state u)) ss @ [upd_state u]"
  have u: "names_unique ?pre" using assms by (auto simp: names_unique_def distinct_map_filter)
  have "view ?pre n = ((view ss)(sname (upd_state u) \<mapsto> upd_state u)) n" for n
    unfolding view_def by (induction ss) auto
  then show ?thesis by (simp add: applyUpdate_def view_sort [OF u] fun_eq_iff)
qed

text \<open>
  The grid shows the latest state of every container, in order.  After a snapshot and any
  sequence of updates, the list has one entry per container name, it is the state of the last
  update of that name (else the snapshot's), and the list is sorted by project and service.
\<close>

lemma grid_shows_latest_states:
  assumes "total_preorder loc" and "names_unique initial"
  shows "let ss = foldl (applyUpdate loc) (sortServices loc initial) us in
      names_unique ss \<and> sorted_wrt (service_le loc) ss
    \<and> view ss = (\<lambda>n. case find (\<lambda>u. sname (upd_state u) = n) (rev us) of
         Some u \<Rightarrow> Some (upd_state u) | None \<Rightarrow> view initial n)"
  unfolding Let_def
proof (induction us rule: rev_induct)
  case Nil
  show ?case
    using assms(2) sorted_wrt_js_sort [OF service_le_preorder [OF assms(1)]]
    by (simp add: view_sort) (simp add: sortServices_def)
next
  case (snoc u us)
  let ?ss = "foldl (applyUpdate loc) (sortServices loc initial) us"
  have "sorted_wrt (service_le loc) (applyUpdate loc ?ss u)"
    using sorted_wrt_js_sort [OF service_le_preorder [OF assms(1)]]
    by (simp add: applyUpdate_def sortServices_def)
  with snoc applyUpdate_unique [of ?ss loc u] view_applyUpdate [of ?ss loc u]
  show ?case by (auto simp: fun_eq_iff split: option.splits)
qed

definition sample_collation :: "string \<Rightarrow> string \<Rightarrow> bool" where
  "sample_collation a b = (length a \<le> length b)"

definition sample_service :: "string \<Rightarrow> container_status \<Rightarrow> service_state" where
  "sample_service n st = \<lparr>sid = [], sname = n, service = n, project = ''p'', img = [],
     status = st, health = NoHealth, startedAt = None, uptimeSec = None\<rparr>"

definition sample_update :: "string \<Rightarrow> container_status \<Rightarrow> service_update" where
  "sample_update n st = \<lparr>upd_service = serviceKey ''p'' n, upd_state = sample_service n st,
     occurredAt = 0, upd_action = ADie, exitCode = Some 1\<rparr>"

lemma sample_collation_preorder [simp]: "total_preorder sample_collation"
  by (auto simp: total_preorder_def sample_collation_def)

lemma grid_example:
  "let ss = foldl (applyUpdate sample_collation)
        (sortServices sample_collation [sample_service ''web'' Running, sample_service ''db'' Running])
        [sample_update ''web'' Restarting, sample_update ''web'' Exited]
   in view ss ''web'' = Some (sample_service ''web'' Exited) \<and> view ss ''db'' = Some (sample_service ''db'' Running)
    \<and> length ss = 2 \<and> names_unique ss"
  using grid_shows_latest_states [of sample_collation
      "[sample_service ''web'' Running, sample_service ''db'' Running]"
      "[sample_update ''web'' Restarting, sample_update ''web'' Exited]"]
  by (simp add: Let_def names_unique_def sample_service_def sample_update_def view_def
      applyUpdate_def sortServices_def service_le_def sample_collation_def)

section \<open>Uptime\<close>

lemma unit_split:
  assumes "0 < k" and "0 \<le> (a :: int)" and "a < n * k"
  obtains q r where "a div k = q" "a mod k = r" "a = q * k + r" "0 \<le> q" "q < n" "0 \<le> r" "r < k"
proof
  show "a = a div k * k + a mod k" by simp
  show "a div k < n"
  proof (rule ccontr)
    assume "\<not> a div k < n"
    then have "n * k \<le> a div k * k" using assms(1) by (simp add: mult_right_mono)
    also have "\<dots> \<le> a" using pos_mod_sign [OF assms(1), of a] div_mult_mod_eq [of a k] by linarith
    finally show False using assms(3) by simp
  qed
qed (use assms in \<open>simp_all add: pos_imp_zdiv_nonneg_iff\<close>)

text \<open>
  The uptime label is exact to its last unit.  For any non-negative uptime the label shows
  the days and hours, hours and minutes, minutes and seconds, or seconds of it; what it leaves
  out is less than its smaller unit, and each lower part is below the next unit.
\<close>

theorem uptime_label_exact:
  assumes "0 \<le> secs"
  shows "(\<exists>d h. 0 < d \<and> 0 \<le> h \<and> h < 24 \<and> uptime_text secs = show_int d @ ''d '' @ show_int h @ ''h''
            \<and> d * 86400 + h * 3600 \<le> secs \<and> secs < d * 86400 + h * 3600 + 3600)
    \<or> (\<exists>h m. 0 < h \<and> h < 24 \<and> 0 \<le> m \<and> m < 60 \<and> uptime_text secs = show_int h @ ''h '' @ show_int m @ ''m''
            \<and> h * 3600 + m * 60 \<le> secs \<and> secs < h * 3600 + m * 60 + 60)
    \<or> (\<exists>m s. 0 < m \<and> m < 60 \<and> 0 \<le> s \<and> s < 60 \<and> uptime_text secs = show_int m @ ''m '' @ show_int s @ ''s''
            \<and> secs = m * 60 + s)
    \<or> (secs < 60 \<and> uptime_text secs = show_int secs @ ''s'')"
proof -
  consider "86400 \<le> secs" | "3600 \<le> secs" "secs < 86400" | "60 \<le> secs" "secs < 3600" | "secs < 60" by linarith
  then show ?thesis
  proof cases
    case 1
    obtain d r where d: "secs div 86400 = d" "secs mod 86400 = r" "secs = d * 86400 + r" "0 \<le> r" "r < 86400"
      by (rule unit_split [of 86400 secs "secs + 1"]) (use assms in simp_all)
    obtain h t where h: "r div 3600 = h" "r = h * 3600 + t" "0 \<le> h" "h < 24" "0 \<le> t" "t < 3600"
      by (rule unit_split [of 3600 r 24]) (use d in simp_all)
    have "0 < d" using 1 d(3,5) by linarith
    then have "uptime_text secs = show_int d @ ''d '' @ show_int h @ ''h''"
      by (simp add: uptime_text_def Let_def d(1,2) h(1))
    with \<open>0 < d\<close> show ?thesis using d(3) h by (intro disjI1 exI [of _ d] exI [of _ h]) linarith
  next
    case 2
    obtain h r where h: "secs div 3600 = h" "secs mod 3600 = r" "secs = h * 3600 + r" "h < 24" "0 \<le> r" "r < 3600"
      by (rule unit_split [of 3600 secs 24]) (use 2 in simp_all)
    obtain m t where m: "r div 60 = m" "r = m * 60 + t" "0 \<le> m" "m < 60" "0 \<le> t" "t < 60"
      by (rule unit_split [of 60 r 60]) (use h in simp_all)
    have "0 < h" using 2 h(3,6) by linarith
    then have "uptime_text secs = show_int h @ ''h '' @ show_int m @ ''m''"
      using 2 by (simp add: uptime_text_def Let_def h(1,2) m(1) div_pos_pos_trivial mod_pos_pos_trivial)
    with \<open>0 < h\<close> show ?thesis using h(3,4) m
      by (intro disjI2 [OF disjI1] exI [of _ h] exI [of _ m]) linarith
  next
    case 3
    obtain m r where m: "secs div 60 = m" "secs mod 60 = r" "secs = m * 60 + r" "m < 60" "0 \<le> r" "r < 60"
      by (rule unit_split [of 60 secs 60]) (use 3 in simp_all)
    have "0 < m" using 3 m(3,6) by linarith
    then have "uptime_text secs = show_int m @ ''m '' @ show_int r @ ''s''"
      using 3 by (simp add: uptime_text_def Let_def m(1,2) div_pos_pos_trivial mod_pos_pos_trivial)
    with \<open>0 < m\<close> show ?thesis using m
      by (intro disjI2 [OF disjI2 [OF disjI1]] exI [of _ m] exI [of _ r]) simp
  next
    case 4
    with assms have "uptime_text secs = show_int secs @ ''s''"
      by (simp add: uptime_text_def Let_def div_pos_pos_trivial mod_pos_pos_trivial)
    with 4 show ?thesis by blast
  qed
qed

end
