(* ===== verification/WebLive.thy ===== *)
theory WebLive
  imports WebState
begin

text \<open>
  apps/web/src/lib/live/live-provider.tsx: the one socket of the page, the list of services it
  keeps and the subscriptions it asks for, as a machine whose events are the socket's; and its
  composition with the rooms of the gateway.  Reconnection with back-off is Socket.IO's: here
  it is a further \<open>Connect\<close> event.  A disconnect rejects the acks that were awaited.
\<close>

section \<open>The provider\<close>

datatype connection_status = Connecting | Live | Reconnecting

record live_state =
  lv_services :: "service_state list"
  lv_status :: connection_status
  lv_resyncs :: nat \<comment> \<open>awaited snapshots\<close>

definition live_init :: live_state where
  "live_init = \<lparr>lv_services = [], lv_status = Connecting, lv_resyncs = 0\<rparr>"

datatype live_event =
  SocketConnect
| SocketDisconnect
| ReconnectAttempt
| SnapshotAck "service_state list"
| SnapshotFails
| UpdateMessage service_update

datatype live_emit = EmitResync | EmitRooms "string list"

definition snapshot_keys :: "service_state list \<Rightarrow> string list" where
  "snapshot_keys ss = map (\<lambda>s. serviceKey (project s) (service s)) ss"

fun live_step :: "(string \<Rightarrow> string \<Rightarrow> bool) \<Rightarrow> live_state \<Rightarrow> live_event \<Rightarrow> live_state \<times> live_emit list" where
  "live_step loc st SocketConnect = (st\<lparr>lv_status := Live, lv_resyncs := lv_resyncs st + 1\<rparr>, [EmitResync])"
| "live_step loc st SocketDisconnect = (st\<lparr>lv_status := Reconnecting, lv_resyncs := 0\<rparr>, [])"
| "live_step loc st ReconnectAttempt = (st\<lparr>lv_status := Reconnecting\<rparr>, [])"
| "live_step loc st (SnapshotAck ss) =
     (st\<lparr>lv_services := sortServices loc ss, lv_resyncs := lv_resyncs st - 1\<rparr>,
      if snapshot_keys ss \<noteq> [] then [EmitRooms (snapshot_keys ss)] else [])"
| "live_step loc st SnapshotFails = (st\<lparr>lv_resyncs := lv_resyncs st - 1\<rparr>, [])"
| "live_step loc st (UpdateMessage u) = (st\<lparr>lv_services := applyUpdate loc (lv_services st) u\<rparr>, [])"

fun live_enabled :: "live_state \<Rightarrow> live_event \<Rightarrow> bool" where
  "live_enabled st (SnapshotAck ss) = (0 < lv_resyncs st)"
| "live_enabled st SnapshotFails = (0 < lv_resyncs st)"
| "live_enabled st _ = True"

inductive live_reach :: "(string \<Rightarrow> string \<Rightarrow> bool) \<Rightarrow> live_event list \<Rightarrow> live_state \<Rightarrow> live_emit list \<Rightarrow> bool"
  for loc where
  live_start: "live_reach loc [] live_init []"
| live_more: "\<lbrakk>live_reach loc es st out; live_enabled st e; live_step loc st e = (st1, out1)\<rbrakk>
    \<Longrightarrow> live_reach loc (es @ [e]) st1 (out @ out1)"

text \<open>A client that reconnects asks again for the snapshot and for every room of it.\<close>

fun emits_for :: "live_event \<Rightarrow> live_emit list" where
  "emits_for SocketConnect = [EmitResync]"
| "emits_for (SnapshotAck ss) = (if ss = [] then [] else [EmitRooms (snapshot_keys ss)])"
| "emits_for _ = []"

lemma live_step_emits: "snd (live_step loc st e) = emits_for e"
  by (cases e) (auto simp: snapshot_keys_def)

lemma live_emits: "live_reach loc es st out \<Longrightarrow> out = concat (map emits_for es)"
proof (induction rule: live_reach.induct)
  case (live_more es st out e st1 out1)
  with live_step_emits [of loc st e] show ?case by simp
qed simp

lemma live_services_ok:
  assumes "live_reach loc es st out" and "total_preorder loc"
    and "\<forall>ss. SnapshotAck ss \<in> set es \<longrightarrow> names_unique ss"
  shows "names_unique (lv_services st) \<and> sorted_wrt (service_le loc) (lv_services st)"
  using assms(1,3)
proof (induction rule: live_reach.induct)
  case live_start
  show ?case by (simp add: live_init_def names_unique_def)
next
  case (live_more es st out e st1 out1)
  have srt: "sorted_wrt (service_le loc) (sortServices loc ss)" for ss
    unfolding sortServices_def by (rule sorted_wrt_js_sort [OF service_le_preorder [OF assms(2)]])
  then have upd: "sorted_wrt (service_le loc) (applyUpdate loc ss u)" for ss u by (simp add: applyUpdate_def)
  from live_more have IH: "names_unique (lv_services st) \<and> sorted_wrt (service_le loc) (lv_services st)"
    and new: "\<And>ss. e = SnapshotAck ss \<Longrightarrow> names_unique ss" by auto
  from live_more.hyps(3) have "st1 = fst (live_step loc st e)" by simp
  with IH new srt upd show ?case
    by (cases e) (simp_all add: applyUpdate_unique)
qed

section \<open>Together with the gateway\<close>

text \<open>
  The page \<open>c\<close> connects, gets the snapshot \<open>ss\<close> and subscribes; the gateway handles the request
  on its rooms and from then on broadcasts the updates \<open>us\<close>, of which the page gets those whose
  room it is in.
\<close>

definition page_requests :: "string \<Rightarrow> live_emit list \<Rightarrow> room_request list" where
  "page_requests c out = List.map_filter
     (\<lambda>e. case e of EmitRooms ks \<Rightarrow> Some (RoomsSubscribe c (JArr (map JStr ks))) | EmitResync \<Rightarrow> None) out"

definition delivered_updates :: "string \<Rightarrow> memberships \<Rightarrow> service_update list \<Rightarrow> service_update list" where
  "delivered_updates c rooms us = filter (\<lambda>u. c \<in> publishUpdate True rooms u) us"

lemma updates_step_run:
  "fst (step_run (live_step loc) st (map UpdateMessage us)) = st\<lparr>lv_services := foldl (applyUpdate loc) (lv_services st) us\<rparr>"
  by (induction us arbitrary: st) (simp_all add: split_beta Let_def)

lemma delivered_to_page:
  assumes "list_all SERVICE_NAME keys" and "length (js_uniq keys) \<le> 50"
  shows "c \<in> publishUpdate True (rooms_after (reqs @ [RoomsSubscribe c (JArr (map JStr keys))])) u
    \<longleftrightarrow> upd_service u \<in> set keys \<or> c \<in> publishUpdate True (rooms_after reqs) u"
proof -
  have s: "set (sanitizeServices (JArr (map JStr keys))) = set keys"
    using assms by (simp add: sanitize_keys)
  have pub: "c \<in> publishUpdate True (rooms_after rs) u \<longleftrightarrow> wants rs c (upd_service u)" for rs
    by (simp add: published_wants)
  show ?thesis
    unfolding pub wants_def by (simp add: s List.map_filter_simps)
qed

text \<open>
  The page follows its services end to end.  Whatever happened before, once the page has its
  snapshot (valid keys, at most 50 different ones) the gateway delivers exactly the updates of
  the snapshot's services (and of rooms it was in already), and when the page has applied
  them it shows each container once, sorted by project and service, in the state of the last
  delivered update, else of the snapshot.  A service that is not in the snapshot is not followed.
\<close>

theorem page_follows_its_services:
  assumes "total_preorder loc" and "names_unique ss" and "list_all SERVICE_NAME (snapshot_keys ss)"
    and "length (js_uniq (snapshot_keys ss)) \<le> 50"
  shows "let (st1, out) = live_step loc st (SnapshotAck ss);
             us' = delivered_updates c (rooms_after (reqs @ page_requests c out)) us;
             shown = lv_services (fst (step_run (live_step loc) st1 (map UpdateMessage us')))
         in us' = filter (\<lambda>u. upd_service u \<in> set (snapshot_keys ss) \<or> c \<in> publishUpdate True (rooms_after reqs) u) us
          \<and> names_unique shown \<and> sorted_wrt (service_le loc) shown
          \<and> view shown = (\<lambda>n. case find (\<lambda>u. sname (upd_state u) = n) (rev us') of
               Some u \<Rightarrow> Some (upd_state u) | None \<Rightarrow> view ss n)"
proof -
  let ?out = "snd (live_step loc st (SnapshotAck ss))"
  have "c \<in> publishUpdate True (rooms_after (reqs @ page_requests c ?out)) u
      \<longleftrightarrow> upd_service u \<in> set (snapshot_keys ss) \<or> c \<in> publishUpdate True (rooms_after reqs) u" for u
  proof (cases "snapshot_keys ss = []")
    case True
    then show ?thesis by (simp add: page_requests_def List.map_filter_simps)
  next
    case False
    then have "page_requests c ?out = [RoomsSubscribe c (JArr (map JStr (snapshot_keys ss)))]"
      by (simp add: page_requests_def List.map_filter_simps)
    with delivered_to_page [OF assms(3,4)] show ?thesis by simp
  qed
  then have d: "delivered_updates c (rooms_after (reqs @ page_requests c ?out)) us
    = filter (\<lambda>u. upd_service u \<in> set (snapshot_keys ss) \<or> c \<in> publishUpdate True (rooms_after reqs) u) us"
    by (simp only: delivered_updates_def)
  have sv: "lv_services (fst (step_run (live_step loc) (fst (live_step loc st (SnapshotAck ss))) (map UpdateMessage us')))
    = foldl (applyUpdate loc) (sortServices loc ss) us'" for us'
    by (simp add: updates_step_run)
  have g: "names_unique (foldl (applyUpdate loc) (sortServices loc ss) us')
      \<and> sorted_wrt (service_le loc) (foldl (applyUpdate loc) (sortServices loc ss) us')
      \<and> view (foldl (applyUpdate loc) (sortServices loc ss) us') = (\<lambda>n. case find (\<lambda>u. sname (upd_state u) = n) (rev us') of
           Some u \<Rightarrow> Some (upd_state u) | None \<Rightarrow> view ss n)" for us'
    using grid_shows_latest_states [of loc ss us'] assms(1,2) by (simp add: Let_def)
  show ?thesis
    unfolding Let_def split_beta d sv using g by blast
qed

text \<open>Two services known to the page, one started later.\<close>

theorem page_follows_its_services_witness:
  "delivered_updates ''c'' (rooms_after (page_requests ''c'' (snd (live_step sample_collation live_init
        (SnapshotAck [sample_service ''web'' Running, sample_service ''db'' Running])))))
      [sample_update ''web'' Exited, sample_update ''new'' Running]
    = [sample_update ''web'' Exited]"
proof -
  let ?ss = "[sample_service ''web'' Running, sample_service ''db'' Running]"
  have k: "snapshot_keys ?ss = [''p.web'', ''p.db'']"
    by (simp add: snapshot_keys_def sample_service_def serviceKey_def)
  have v: "list_all SERVICE_NAME (snapshot_keys ?ss)"
    by (simp add: k SERVICE_NAME_def name_char_def ascii_alnum_def)
  have n: "names_unique ?ss" by (simp add: names_unique_def sample_service_def)
  have l: "length (js_uniq (snapshot_keys ?ss)) \<le> 50" by (simp add: k)
  have e: "publishUpdate True (rooms_after []) u = {}" for u
    by (simp add: publishUpdate_def rooms_after_def)
  from page_follows_its_services [OF sample_collation_preorder n v l, of live_init "''c''" "[]"
      "[sample_update ''web'' Exited, sample_update ''new'' Running]"]
  show ?thesis by (simp add: Let_def k e sample_update_def serviceKey_def)
qed

end
