(* ===== verification/Replicas.thy ===== *)
theory Replicas
  imports LiveServer WebLive
begin

text \<open>
  The start of the API process (main.ts, gateway/redis-io.adapter.ts, containers/docker.client.ts)
  and several processes at once: with REDIS_URL the gateways share one Redis channel, so that an
  update published in one process reaches the sockets of all of them.
\<close>

section \<open>Start of a process\<close>

text \<open>\<open>RedisIoAdapter.adapterConstructor\<close>: whether it is set.  \<open>None\<close>: connecting rejects.\<close>

definition connectToRedis :: "env \<Rightarrow> bool \<Rightarrow> bool \<Rightarrow> bool option" where
  "connectToRedis env pub_ok sub_ok =
     (if \<not> truthy (env ''REDIS_URL'') then Some False
      else if pub_ok \<and> sub_ok then Some True else None)"

datatype io_adapter = InMemory | RedisPubSub

definition createIOServer :: "bool \<Rightarrow> io_adapter" where
  "createIOServer constructed = (if constructed then RedisPubSub else InMemory)"

definition createDockerClient :: "env \<Rightarrow> string" where
  "createDockerClient env = nullish (env ''DOCKER_SOCKET'') ''/var/run/docker.sock''"

text \<open>\<open>PrismaService.onModuleInit\<close> runs inside \<open>listen\<close>, with the other initialisations: a database
  that cannot be reached keeps the process from serving.\<close>

definition bootstrap :: "env \<Rightarrow> bool \<Rightarrow> bool \<Rightarrow> bool \<Rightarrow> (io_adapter \<times> string) option" where
  "bootstrap env pub_ok sub_ok db_ok =
     (case connectToRedis env pub_ok sub_ok of
        None \<Rightarrow> None
      | Some c \<Rightarrow> if db_ok then Some (createIOServer c, nullish (env ''PORT'') ''3000'') else None)"

section \<open>Several processes\<close>

record replica =
  rp_now :: int
  rp_server :: live_server

text \<open>\<open>server.to(room).emit\<close> with the adapter: the sockets in the room, of this process or of all.\<close>

definition reached :: "io_adapter \<Rightarrow> replica list \<Rightarrow> nat \<Rightarrow> service_update \<Rightarrow> string set" where
  "reached adapter rs i u =
     (case adapter of
        InMemory \<Rightarrow> publishUpdate True (srv_rooms (rp_server (rs ! i))) u
      | RedisPubSub \<Rightarrow> (\<Union>r\<in>set rs. publishUpdate True (srv_rooms (rp_server r)) u))"

datatype cluster_effect = Delivered service_update "string set" | ReplicaDid nat server_effect

fun cluster_out :: "io_adapter \<Rightarrow> replica list \<Rightarrow> nat \<Rightarrow> server_effect \<Rightarrow> cluster_effect" where
  "cluster_out adapter rs i (SendUpdate u ss) = Delivered u (reached adapter rs i u)"
| "cluster_out adapter rs i e = ReplicaDid i e"

definition cluster_step ::
  "env \<Rightarrow> server_lib \<Rightarrow> io_adapter \<Rightarrow> replica list \<Rightarrow> nat \<Rightarrow> server_event \<Rightarrow> replica list \<times> cluster_effect list" where
  "cluster_step env lib adapter rs i e =
     (let (st, out) = server_step env lib (rp_server (rs ! i)) e;
          rs1 = rs[i := \<lparr>rp_now = server_clock (rp_now (rs ! i)) e, rp_server = st\<rparr>]
      in (rs1, map (cluster_out adapter rs1 i) out))"

inductive cluster_run ::
  "env \<Rightarrow> server_lib \<Rightarrow> io_adapter \<Rightarrow> nat \<Rightarrow> int \<Rightarrow> (nat \<times> server_event) list \<Rightarrow> replica list \<Rightarrow> cluster_effect list \<Rightarrow> bool"
  for env lib adapter n t0 where
  cluster_start: "cluster_run env lib adapter n t0 [] (replicate n \<lparr>rp_now = t0, rp_server = server_init\<rparr>) []"
| cluster_more: "\<lbrakk>cluster_run env lib adapter n t0 es rs out; i < n;
      server_enabled (rp_now (rs ! i)) (rp_server (rs ! i)) e; cluster_step env lib adapter rs i e = (rs1, out1)\<rbrakk>
    \<Longrightarrow> cluster_run env lib adapter n t0 (es @ [(i, e)]) rs1 (out @ out1)"

definition at_replica :: "nat \<Rightarrow> (nat \<times> server_event) list \<Rightarrow> server_event list" where
  "at_replica i es = map snd (filter (\<lambda>(j, e). j = i) es)"

lemma at_replica_snoc: "at_replica i (es @ [(j, e)]) = at_replica i es @ (if j = i then [e] else [])"
  by (simp add: at_replica_def)

lemma cluster_length: "cluster_run env lib adapter n t0 es rs out \<Longrightarrow> length rs = n"
  by (induction rule: cluster_run.induct) (auto simp: cluster_step_def split_beta Let_def)

lemma replicas_are_servers:
  "cluster_run env lib adapter n t0 es rs out \<Longrightarrow> i < n
    \<Longrightarrow> \<exists>outs. server_run env lib t0 (at_replica i es) (rp_now (rs ! i)) (rp_server (rs ! i)) outs"
proof (induction arbitrary: i rule: cluster_run.induct)
  case cluster_start
  then show ?case by (auto simp: at_replica_def intro: server_start)
next
  case (cluster_more es rs out j e rs1 out1)
  obtain st o1 where st: "server_step env lib (rp_server (rs ! j)) e = (st, o1)" by fastforce
  have rs1: "rs1 = rs[j := \<lparr>rp_now = server_clock (rp_now (rs ! j)) e, rp_server = st\<rparr>]"
    using cluster_more.hyps(4) by (auto simp: cluster_step_def st Let_def)
  from cluster_more.IH [OF cluster_more.prems] obtain outs
    where run: "server_run env lib t0 (at_replica i es) (rp_now (rs ! i)) (rp_server (rs ! i)) outs" by blast
  show ?case
  proof (cases "j = i")
    case True
    with server_more [OF run] cluster_more.hyps(2,3) st cluster_length [OF cluster_more.hyps(1)]
    show ?thesis by (auto simp: rs1 at_replica_snoc)
  next
    case False
    with run show ?thesis by (auto simp: rs1 at_replica_snoc)
  qed
qed

lemma rooms_of_replica:
  assumes "cluster_run env lib adapter n t0 es rs out" and "i < n"
  shows "srv_rooms (rp_server (rs ! i)) = rooms_after (List.map_filter room_part (at_replica i es))"
  using replicas_are_servers [OF assms] server_components by blast

text \<open>Which sockets want a service: those of any replica.\<close>

definition wanted_by :: "nat set \<Rightarrow> (nat \<times> server_event) list \<Rightarrow> string \<Rightarrow> string set" where
  "wanted_by is es s = (\<Union>i\<in>is. {c. wants (List.map_filter room_part (at_replica i es)) c s})"

lemma cluster_out_delivered:
  "Delivered u ss = cluster_out adapter rs i x \<longleftrightarrow> (\<exists>ss'. x = SendUpdate u ss') \<and> ss = reached adapter rs i u"
  by (cases x) auto

lemma delivered_now:
  assumes "cluster_run env lib adapter n t0 es rs out" and "i < n" and "cluster_step env lib adapter rs i e = (rs1, out1)"
    and "Delivered u ss \<in> set out1"
  shows "ss = wanted_by (case adapter of InMemory \<Rightarrow> {i} | RedisPubSub \<Rightarrow> {..<n}) es (upd_service u)"
proof -
  obtain st o1 where st: "server_step env lib (rp_server (rs ! i)) e = (st, o1)" by fastforce
  have rs1: "rs1 = rs[i := \<lparr>rp_now = server_clock (rp_now (rs ! i)) e, rp_server = st\<rparr>]"
    and out1: "out1 = map (cluster_out adapter rs1 i) o1"
    using assms(3) by (auto simp: cluster_step_def st Let_def)
  from assms(4) obtain ss' where sent: "SendUpdate u ss' \<in> set o1" and ss: "ss = reached adapter rs1 i u"
    by (auto simp: out1 cluster_out_delivered)
  from published_rooms [OF st sent] st obtain g t where "server_step env lib (rp_server (rs ! i)) (FromEngine g t) = (st, o1)"
    by auto
  note same = step_rooms [OF this]
  have len: "length rs = n" by (rule cluster_length [OF assms(1)])
  have rooms: "publishUpdate True (srv_rooms (rp_server (rs1 ! k))) u
      = {c. wants (List.map_filter room_part (at_replica k es)) c (upd_service u)}" if "k < n" for k
    using rooms_of_replica [OF assms(1) that] same that assms(2) len
    by (cases "k = i") (auto simp: rs1 published_wants)
  show ?thesis
  proof (cases adapter)
    case InMemory
    with rooms [OF assms(2)] show ?thesis by (simp add: ss reached_def wanted_by_def)
  next
    case RedisPubSub
    have "(\<Union>r\<in>set rs1. publishUpdate True (srv_rooms (rp_server r)) u)
        = (\<Union>k<n. publishUpdate True (srv_rooms (rp_server (rs1 ! k))) u)"
      using len by (auto simp: rs1 set_conv_nth)
    with rooms RedisPubSub show ?thesis by (simp add: ss reached_def wanted_by_def)
  qed
qed


lemma bootstrap_serves:
  "bootstrap env pub_ok sub_ok db_ok \<noteq> None \<longleftrightarrow> db_ok \<and> (truthy (env ''REDIS_URL'') \<longrightarrow> pub_ok \<and> sub_ok)"
  "bootstrap env pub_ok sub_ok db_ok = Some (a, port) \<Longrightarrow> a = RedisPubSub \<longleftrightarrow> truthy (env ''REDIS_URL'')"
  by (auto simp: bootstrap_def connectToRedis_def createIOServer_def split: if_splits option.splits)

section \<open>Witness\<close>

fun delivered_update :: "cluster_effect \<Rightarrow> service_update option" where
  "delivered_update (Delivered u ss) = Some u"
| "delivered_update _ = None"

lemma delivered_out: "List.map_filter delivered_update (map (cluster_out adapter rs i) out) = List.map_filter sent_update out"
proof (induction out)
  case (Cons x out)
  then show ?case by (cases x) (simp_all add: List.map_filter_simps)
qed simp

text \<open>A process of the cluster does what it would do alone.\<close>

lemma cluster_exec:
  assumes "cluster_run env lib adapter n t0 past rs out" and "i < n"
    and "server_exec env lib (rp_now (rs ! i)) (rp_server (rs ! i)) es = Some (now, st, o')"
  shows "\<exists>rs' out'. cluster_run env lib adapter n t0 (past @ map (Pair i) es) rs' (out @ out')
    \<and> List.map_filter delivered_update out' = List.map_filter sent_update o'"
  using assms
proof (induction es arbitrary: past rs out o')
  case Nil
  then show ?case by (intro exI [of _ rs] exI [of _ "[]"]) (simp add: List.map_filter_simps)
next
  case (Cons e es)
  obtain s1 o1 where s1: "server_step env lib (rp_server (rs ! i)) e = (s1, o1)" by fastforce
  let ?rs = "rs[i := \<lparr>rp_now = server_clock (rp_now (rs ! i)) e, rp_server = s1\<rparr>]"
  from Cons.prems(3) s1 obtain o2 where en: "server_enabled (rp_now (rs ! i)) (rp_server (rs ! i)) e"
    and ex: "server_exec env lib (server_clock (rp_now (rs ! i)) e) s1 es = Some (now, st, o2)" and o': "o' = o1 @ o2"
    by (auto split: if_splits option.splits)
  have len: "i < length rs" using cluster_length [OF Cons.prems(1)] Cons.prems(2) by simp
  have step: "cluster_step env lib adapter rs i e = (?rs, map (cluster_out adapter ?rs i) o1)"
    by (simp add: cluster_step_def s1 Let_def)
  note run = cluster_more [OF Cons.prems(1,2) en step]
  have "server_exec env lib (rp_now (?rs ! i)) (rp_server (?rs ! i)) es = Some (now, st, o2)" using ex len by simp
  from Cons.IH [OF run Cons.prems(2) this] obtain rs' out' where
    "cluster_run env lib adapter n t0 ((past @ [(i, e)]) @ map (Pair i) es) rs' ((out @ map (cluster_out adapter ?rs i) o1) @ out')"
    "List.map_filter delivered_update out' = List.map_filter sent_update o2" by blast
  then show ?case
    by (intro exI [of _ rs'] exI [of _ "map (cluster_out adapter ?rs i) o1 @ out'"]) (simp add: o' delivered_out)
qed


end
