(* ===== verification/WebLogs.thy ===== *)
theory WebLogs
  imports WebState LogFlow
begin

text \<open>
  apps/web/src/lib/live/logs-buffer.ts and use-container-logs.ts: the bounded buffer of the log
  viewer and the hook that fills it, as a machine whose events are the socket's, composed with
  the log session of the server.
\<close>

section \<open>logs-buffer.ts and the log hook\<close>

record logs_buffer =
  buf_lines :: "log_line list"
  buf_dropped :: nat

definition EMPTY_LOGS_BUFFER :: logs_buffer where
  "EMPTY_LOGS_BUFFER = \<lparr>buf_lines = [], buf_dropped = 0\<rparr>"

definition appendBatch :: "logs_buffer \<Rightarrow> logs_batch \<Rightarrow> nat \<Rightarrow> logs_buffer" where
  "appendBatch buf b mx =
     (let lines = buf_lines buf @ batch_lines b; overflow = length lines - mx
      in \<lparr>buf_lines = drop overflow lines, buf_dropped = buf_dropped buf + batch_dropped b + overflow\<rparr>)"

definition MAX_LINES :: nat where "MAX_LINES = 1000"

datatype subscribe_result = SubOk | SubRefused "string option" | SubRejected

datatype hook_effect = EmitLogsSubscribe string | EmitLogsUnsubscribe string | AckBatch

record hook_state =
  hook_target :: "string option" \<comment> \<open>the container of the running effect\<close>
  hook_buffer :: logs_buffer
  hook_error :: "string option"

definition hook_init :: hook_state where
  "hook_init = \<lparr>hook_target = None, hook_buffer = EMPTY_LOGS_BUFFER, hook_error = None\<rparr>"

text \<open>
  The effect runs when socket, container or status change: cleanup of the previous run, reset,
  and a subscription if there is a socket, a container and a live connection.
\<close>

datatype hook_event =
  DepsChange bool "string option" bool \<comment> \<open>socket present, container, status is live\<close>
| SubscribeAnswer subscribe_result
| BatchArrives logs_batch

fun hook_step :: "hook_state \<Rightarrow> hook_event \<Rightarrow> hook_state \<times> hook_effect list" where
  "hook_step st (DepsChange socket c live) =
     (let cleanup = (case hook_target st of None \<Rightarrow> [] | Some old \<Rightarrow> [EmitLogsUnsubscribe old])
      in if \<not> socket \<or> \<not> truthy c \<or> \<not> live then (hook_init, cleanup)
         else (hook_init\<lparr>hook_target := c\<rparr>, cleanup @ [EmitLogsSubscribe (the c)]))"
| "hook_step st (SubscribeAnswer r) =
     ((case r of SubOk \<Rightarrow> st
       | SubRefused e \<Rightarrow> st\<lparr>hook_error := Some (nullish e ''no se pudo abrir el stream'')\<rparr>
       | SubRejected \<Rightarrow> st\<lparr>hook_error := Some ''no se pudo abrir el stream''\<rparr>), [])"
| "hook_step st (BatchArrives b) =
     (case hook_target st of None \<Rightarrow> (st, [])
      | Some c \<Rightarrow> (if batch_container b = c
                   then st\<lparr>hook_buffer := appendBatch (hook_buffer st) b MAX_LINES\<rparr> else st, [AckBatch]))"

section \<open>From the container to the terminal\<close>

lemma appendBatch_count:
  "length (buf_lines (appendBatch buf b mx)) + buf_dropped (appendBatch buf b mx)
    = length (buf_lines buf) + buf_dropped buf + length (batch_lines b) + batch_dropped b"
  by (simp add: appendBatch_def Let_def)

lemma appendBatch_bound: "length (buf_lines (appendBatch buf b mx)) \<le> mx"
  by (simp add: appendBatch_def Let_def)

lemma appendBatch_suffix:
  "suffix (buf_lines buf) shown \<Longrightarrow> suffix (buf_lines (appendBatch buf b mx)) (shown @ batch_lines b)"
proof -
  assume "suffix (buf_lines buf) shown"
  then have "suffix (buf_lines buf @ batch_lines b) (shown @ batch_lines b)" by simp
  moreover have "suffix (drop n xs) xs" for n and xs :: "log_line list" by (rule suffix_drop)
  ultimately show ?thesis
    unfolding appendBatch_def Let_def by (metis logs_buffer.select_convs(1) suffix_order.trans)
qed

definition batch_total :: "logs_batch list \<Rightarrow> nat" where
  "batch_total bs = sum_list (map (\<lambda>b. length (batch_lines b) + batch_dropped b) bs)"

lemma consume_total: "consume bs ps = Some r \<Longrightarrow> length ps = batch_total bs + length r"
proof (induction bs arbitrary: ps)
  case (Cons b bs)
  let ?rest = "drop (batch_dropped b) ps"
  from Cons.prems have d: "batch_dropped b \<le> length ps" and t: "take (length (batch_lines b)) ?rest = batch_lines b"
    and c: "consume bs (drop (length (batch_lines b)) ?rest) = Some r"
    by (auto simp: Let_def split: if_splits)
  have "length (batch_lines b) \<le> length ?rest" using arg_cong [OF t, of length] by (simp add: min_def split: if_splits)
  with Cons.IH [OF c] d show ?case by (simp add: batch_total_def)
qed (simp add: batch_total_def)

lemma batch_container_loop:
  "b \<in> set (batches (snd (flush_loop opt s))) \<Longrightarrow> batch_container b = container opt"
  by (auto simp: flush_loop_def Let_def split: if_splits)

lemma batch_container_step:
  "b \<in> set (batches (snd (session_step opt s e))) \<Longrightarrow> batch_container b = container opt"
  by (cases e) (auto simp: session_push_def flush_def split_beta Let_def on_ack_def
      dest: batch_container_loop split: if_splits)

lemma batch_container_trace:
  "session_trace opt es s out \<Longrightarrow> \<forall>b\<in>set (batches out). batch_container b = container opt"
proof (induction rule: session_trace.induct)
  case (trace_step es s out e t out')
  with batch_container_step [of _ opt s e] show ?case by (auto simp: Ball_def)
qed simp

lemma hook_batches:
  assumes "hook_target st = Some c" and "\<forall>b\<in>set bs. batch_container b = c"
    and "suffix (buf_lines (hook_buffer st)) shown"
  shows "let st' = fst (step_run hook_step st (map BatchArrives bs)) in
      length (buf_lines (hook_buffer st')) + buf_dropped (hook_buffer st')
        = length (buf_lines (hook_buffer st)) + buf_dropped (hook_buffer st) + batch_total bs
    \<and> suffix (buf_lines (hook_buffer st')) (shown @ concat (map batch_lines bs))
    \<and> (bs \<noteq> [] \<longrightarrow> length (buf_lines (hook_buffer st')) \<le> MAX_LINES)
    \<and> snd (step_run hook_step st (map BatchArrives bs)) = replicate (length bs) AckBatch"
  using assms
proof (induction bs arbitrary: st shown)
  case Nil
  then show ?case by (simp add: batch_total_def)
next
  case (Cons b bs)
  let ?st = "st\<lparr>hook_buffer := appendBatch (hook_buffer st) b MAX_LINES\<rparr>"
  have step: "hook_step st (BatchArrives b) = (?st, [AckBatch])" using Cons.prems by simp
  from Cons.IH [of ?st "shown @ batch_lines b"] Cons.prems appendBatch_suffix
  have IH: "length (buf_lines (hook_buffer (fst (step_run hook_step ?st (map BatchArrives bs)))))
        + buf_dropped (hook_buffer (fst (step_run hook_step ?st (map BatchArrives bs))))
        = length (buf_lines (hook_buffer ?st)) + buf_dropped (hook_buffer ?st) + batch_total bs"
    "suffix (buf_lines (hook_buffer (fst (step_run hook_step ?st (map BatchArrives bs)))))
       ((shown @ batch_lines b) @ concat (map batch_lines bs))"
    "bs \<noteq> [] \<longrightarrow> length (buf_lines (hook_buffer (fst (step_run hook_step ?st (map BatchArrives bs))))) \<le> MAX_LINES"
    "snd (step_run hook_step ?st (map BatchArrives bs)) = replicate (length bs) AckBatch"
    by (simp_all add: Let_def)
  have bound: "length (buf_lines (hook_buffer (fst (step_run hook_step ?st (map BatchArrives bs))))) \<le> MAX_LINES"
    using IH(3) by (cases "bs = []") (simp_all add: appendBatch_bound)
  have run: "step_run hook_step st (map BatchArrives (b # bs))
      = (fst (step_run hook_step ?st (map BatchArrives bs)),
         AckBatch # snd (step_run hook_step ?st (map BatchArrives bs)))"
    using step by (simp del: hook_step.simps add: split_beta Let_def)
  show ?case
    unfolding run Let_def
    using IH bound appendBatch_count [of "hook_buffer st" b MAX_LINES]
    by (simp del: hook_step.simps add: batch_total_def)
qed

text \<open>
  Nothing disappears unnoticed between the container and the terminal.  When the browser
  has applied the batches a session emitted, its lines plus the drops it shows account for
  every line the session received except those still waiting in the session; the lines are
  the last ones delivered, at most 1000; and it acknowledged each batch, so the session can go
  on.
\<close>

theorem terminal_accounts_for_every_line:
  assumes "session_trace (DEFAULT_SESSION_OPTIONS c) es s out" and "c \<noteq> []"
  shows "let st = fst (hook_step hook_init (DepsChange True (Some c) True));
             (st', acks) = step_run hook_step st (map BatchArrives (batches out));
             buf = hook_buffer st'
         in suffix (buf_lines buf) (delivered out) \<and> length (buf_lines buf) \<le> 1000
          \<and> acks = replicate (length (batches out)) AckBatch
          \<and> (\<exists>rest. length (buf_lines buf) + buf_dropped buf + length rest = length (pushes es)
               \<and> (\<not> closed s \<longrightarrow> (\<exists>lost. rest = lost @ queue s \<and> length lost = dropped s)))"
proof -
  let ?st = "hook_init\<lparr>hook_target := Some c\<rparr>"
  have st: "fst (hook_step hook_init (DepsChange True (Some c) True)) = ?st"
    using assms(2) by (simp add: hook_init_def Let_def)
  have cont: "\<forall>b\<in>set (batches out). batch_container b = c"
    using batch_container_trace [OF assms(1)] by (simp add: DEFAULT_SESSION_OPTIONS_def)
  from session_trace_accounted [OF assms(1)] obtain rest where
    rest: "consume (batches out) (pushes es) = Some rest"
      "\<not> closed s \<longrightarrow> (\<exists>lost. rest = lost @ queue s \<and> length lost = dropped s)"
    by (cases "closed s") (auto simp: accounted_open accounted_closed)
  have "suffix (buf_lines (hook_buffer ?st)) []" by (simp add: hook_init_def EMPTY_LOGS_BUFFER_def)
  from hook_batches [OF _ cont this] consume_total [OF rest(1)] rest(2)
  show ?thesis unfolding st
    by (cases "batches out = []")
       (auto simp: split_beta Let_def delivered_def MAX_LINES_def hook_init_def EMPTY_LOGS_BUFFER_def
         batch_total_def)
qed

lemma sample_session:
  "session_run (DEFAULT_SESSION_OPTIONS ''web'') new_session [Attach, Push (line_at 1), Push (line_at 2), Ack] = Some
     (\<lparr>queue = [], dropped = 0, paused = False, sending = True, closed = False, ending = False, has_source = True\<rparr>,
      [EmitBatch \<lparr>batch_container = ''web'', batch_lines = [line_at 1], batch_dropped = 0\<rparr>,
       EmitBatch \<lparr>batch_container = ''web'', batch_lines = [line_at 2], batch_dropped = 0\<rparr>])"
  by (simp add: DEFAULT_SESSION_OPTIONS_def new_session_def session_ops session_push_def
      push_enqueue_def event_enabled_def)

theorem terminal_accounts_for_every_line_witness:
  "let st = fst (hook_step hook_init (DepsChange True (Some ''web'') True));
       st' = fst (step_run hook_step st (map BatchArrives
         [\<lparr>batch_container = ''web'', batch_lines = [line_at 1], batch_dropped = 0\<rparr>,
          \<lparr>batch_container = ''web'', batch_lines = [line_at 2], batch_dropped = 0\<rparr>]))
   in suffix (buf_lines (hook_buffer st')) [line_at 1, line_at 2]
    \<and> length (buf_lines (hook_buffer st')) + buf_dropped (hook_buffer st') = Suc (Suc 0)"
  using terminal_accounts_for_every_line [OF session_run_trace [OF sample_session]]
  by (simp add: Let_def split_beta delivered_def del: hook_step.simps step_run.simps)

end
