(* ===== verification/WebApi.thy ===== *)
theory WebApi
  imports AuditTrail NotifyBot Metrics Taskforge
begin

text \<open>
  The REST clients of the browser (apps/web/src/lib: actions, alerts, health, metrics,
  security-audit, taskforge-status) and their composition with the controllers they call.  A
  request is its path and its query (names and values in order, encoded by URLSearchParams);
  the outcome of the awaited \<open>fetch\<close> is a parameter.  \<open>str\<close> is \<open>String(x)\<close> on values that are
  neither strings nor arrays.
\<close>

section \<open>Answers\<close>

text \<open>A client returns the body, throws its own error class, or lets another exception through.\<close>

datatype api_result = ApiOk json | ApiError string nat | ApiThrows

text \<open>\<open>data?.message ?? fallback\<close>, arrays joined with a comma.\<close>

definition error_text :: "(json \<Rightarrow> string) \<Rightarrow> json \<Rightarrow> string \<Rightarrow> string" where
  "error_text str data fallback =
     (let plain = (\<lambda>m. case m of JStr s \<Rightarrow> s | _ \<Rightarrow> str m)
      in case jfield ''message'' data of
           None \<Rightarrow> fallback
         | Some JNull \<Rightarrow> fallback
         | Some (JArr xs) \<Rightarrow> js_join '', '' (map (\<lambda>x. if x = JNull then [] else plain x) xs)
         | Some m \<Rightarrow> plain m)"

definition http_text :: "nat \<Rightarrow> string" where
  "http_text n = ''HTTP '' @ show_nat n"

text \<open>The shape of the clients with a class of their own: body first, then the status.\<close>

definition api_answer :: "(json \<Rightarrow> string) \<Rightarrow> http_outcome \<Rightarrow> api_result" where
  "api_answer str http =
     (case http of NetFail \<Rightarrow> ApiThrows
      | Resp s b \<Rightarrow>
          (let data = json_or_empty b
           in if \<not> resp_ok s then ApiError (error_text str data (http_text s)) s else ApiOk data))"

section \<open>Clients\<close>

type_synonym api_request = "string \<times> query \<times> string option" \<comment> \<open>path, query, bearer token\<close>

definition alerts_params :: "string option \<Rightarrow> int \<Rightarrow> int \<Rightarrow> query" where
  "alerts_params type limit offset =
     [(''limit'', show_int limit), (''offset'', show_int offset)]
     @ (if truthy type then [(''type'', the type)] else [])"

definition fetchAlerts ::
  "(json \<Rightarrow> string) \<Rightarrow> (api_request \<Rightarrow> http_outcome) \<Rightarrow> string option \<Rightarrow> int \<Rightarrow> int \<Rightarrow> api_result" where
  "fetchAlerts str http type limit offset =
     api_answer str (http (''/api/alerts/feed'', alerts_params type limit offset, None))"

definition security_params :: "string option \<Rightarrow> string option \<Rightarrow> int \<Rightarrow> int \<Rightarrow> query" where
  "security_params action userId skip tk =
     [(''skip'', show_int skip), (''take'', show_int tk)]
     @ (if truthy action then [(''action'', the action)] else [])
     @ (if truthy userId then [(''userId'', the userId)] else [])"

definition fetchSecurityAudit ::
  "(json \<Rightarrow> string) \<Rightarrow> (api_request \<Rightarrow> http_outcome) \<Rightarrow> string option \<Rightarrow> string option \<Rightarrow> int \<Rightarrow> int \<Rightarrow> string
    \<Rightarrow> api_result" where
  "fetchSecurityAudit str http action userId skip tk token =
     api_answer str (http (''/api/security-audit'', security_params action userId skip tk, Some token))"

definition fetchTaskforgeStatus ::
  "(json \<Rightarrow> string) \<Rightarrow> (api_request \<Rightarrow> http_outcome) \<Rightarrow> string \<Rightarrow> api_result" where
  "fetchTaskforgeStatus str http token = api_answer str (http (''/api/taskforge-status'', [], Some token))"

text \<open>\<open>restartContainer\<close> reads the body of a failure only; \<open>uri\<close> is \<open>encodeURIComponent\<close>.\<close>

definition restart_call ::
  "(json \<Rightarrow> string) \<Rightarrow> (string \<Rightarrow> string) \<Rightarrow> (api_request \<Rightarrow> http_outcome) \<Rightarrow> string \<Rightarrow> string \<Rightarrow> api_result" where
  "restart_call str uri http container token =
     (case http (''/api/actions/containers/'' @ uri container @ ''/restart'', [], Some token) of
        NetFail \<Rightarrow> ApiThrows
      | Resp s b \<Rightarrow>
          if resp_ok s then ApiOk JNull
          else ApiError (error_text str (json_or_empty b) (http_text s)) s)"

text \<open>Plain errors only; a body that is not JSON throws.\<close>

definition fetchDependenciesHealth :: "(api_request \<Rightarrow> http_outcome) \<Rightarrow> api_result" where
  "fetchDependenciesHealth http =
     (case http (''/api/health/dependencies'', [], None) of
        Resp s (Some b) \<Rightarrow> if resp_ok s then ApiOk b else ApiThrows
      | _ \<Rightarrow> ApiThrows)"

datatype metric_range = OneHour | OneDay | OneWeek

fun RANGE_HOURS :: "metric_range \<Rightarrow> int" where
  "RANGE_HOURS OneHour = 1"
| "RANGE_HOURS OneDay = 24"
| "RANGE_HOURS OneWeek = 168"

definition metric_params :: "string \<Rightarrow> string \<Rightarrow> metric_range \<Rightarrow> string \<times> query" where
  "metric_params container kind rng =
     (let params = [(''container'', container), (''metric'', kind)]
      in if rng = OneHour then (''live'', params @ [(''minutes'', ''60'')])
         else (''history'', params @ [(''hours'', show_int (RANGE_HOURS rng))]))"

text \<open>\<open>fetchSeries\<close>: the points of the body; without a \<open>points\<close> field the result is undefined.\<close>

definition fetchSeries :: "(api_request \<Rightarrow> http_outcome) \<Rightarrow> string \<times> query \<Rightarrow> json option option" where
  "fetchSeries http pq =
     (case http (''/api/metrics/'' @ fst pq, snd pq, None) of
        Resp s (Some b) \<Rightarrow> if \<not> resp_ok s \<or> b = JNull then None else Some (jfield ''points'' b)
      | _ \<Rightarrow> None)"

definition fetchMetricSeries ::
  "(api_request \<Rightarrow> http_outcome) \<Rightarrow> string \<Rightarrow> string \<Rightarrow> metric_range \<Rightarrow> json option option" where
  "fetchMetricSeries http container kind rng = fetchSeries http (metric_params container kind rng)"

section \<open>What the server reads from these requests\<close>

text \<open>A query parameter as the server sees it.\<close>

definition param :: "query \<Rightarrow> string \<Rightarrow> string option" where
  "param q name = map_of q name"

lemma show_int_nat [simp]: "show_int (int n) = show_nat n"
  by (simp add: show_int_def)

lemma parse_shown:
  assumes "0 \<le> i" and "i < 2 ^ 53"
  shows "parseNonNegativeInt (Some (show_int i)) fb f = Inr i"
proof -
  from assms(1) obtain n where n: "i = int n" using nonneg_int_cases by blast
  with assms(2) have "n < 2 ^ 53" by (metis of_nat_less_iff of_nat_numeral of_nat_power)
  then show ?thesis by (simp add: n parseNonNegativeInt_def num_integer_nat)
qed

lemma parse_shown_positive:
  assumes "0 < i" and "i \<le> mx" and "i < 2 ^ 53"
  shows "parsePositiveInt (Some (show_int i)) fb mx f = Inr i"
proof -
  from assms(1) obtain n where n: "i = int n" using nonneg_int_cases [of i] by auto
  with assms(3) have "n < 2 ^ 53" by (metis of_nat_less_iff of_nat_numeral of_nat_power)
  with assms show ?thesis by (simp add: n parsePositiveInt_def num_integer_nat)
qed

lemma alerts_params_read:
  "param (alerts_params t l p) ''limit'' = Some (show_int l)"
  "param (alerts_params t l p) ''offset'' = Some (show_int p)"
  "param (alerts_params t l p) ''type'' = (if truthy t then t else None)"
  by (auto simp: param_def alerts_params_def truthy_iff)

lemma security_params_read:
  "param (security_params a u s t) ''skip'' = Some (show_int s)"
  "param (security_params a u s t) ''take'' = Some (show_int t)"
  "param (security_params a u s t) ''action'' = (if truthy a then a else None)"
  "param (security_params a u s t) ''userId'' = (if truthy u then u else None)"
  by (auto simp: param_def security_params_def truthy_iff)

text \<open>
  The page the browser asks for is the page the services are asked for.  For every page
  size in 1..200 and every offset a double can hold, the alert feed forwards to ops-notify-bot,
  and the security audit to cci-auth-service, exactly the page, the filters and the bearer
  token of the browser's request: nothing is rejected, defaulted or altered on the way.
\<close>

theorem pages_reach_the_services:
  assumes "1 \<le> limit" and "limit \<le> 200" and "0 \<le> offset" and "offset < 2 ^ 53"
  shows "feed_list env nb (param (alerts_params t limit offset) ''type'')
        (param (alerts_params t limit offset) ''limit'') (param (alerts_params t limit offset) ''offset'')
      = listAlerts env nb \<lparr>q_limit = Some limit, q_offset = Some offset, q_type = (if truthy t then t else None)\<rparr>
    \<and> security_audit env auth (Some (BEARER @ token)) (param (security_params a u offset limit) ''action'')
        (param (security_params a u offset limit) ''userId'') (param (security_params a u offset limit) ''skip'')
        (param (security_params a u offset limit) ''take'')
      = security_audit_list env auth (if truthy a then a else None) (if truthy u then u else None) offset limit token"
proof -
  have l: "parseNonNegativeInt (Some (show_int limit)) DEFAULT_LIMIT f = Inr limit"
    and p: "parseNonNegativeInt (Some (show_int offset)) 0 f = Inr offset" for f
    using assms by (simp_all add: parse_shown)
  have "parse_page (Some (show_int limit)) (Some (show_int offset)) = Inr (limit, offset)"
    using assms(1,2) by (simp add: parse_page_def l p MAX_LIMIT_def)
  moreover have "bearer_token (Some (BEARER @ token)) = Some token" by (simp add: bearer_token_Some)
  ultimately show ?thesis
    using assms(1,2)
    by (simp add: alerts_params_read security_params_read feed_list_def security_audit_def l p MAX_LIMIT_def)
qed

theorem pages_reach_the_services_witness:
  "feed_list (\<lambda>_. Some ''x'') (\<lambda>q. if q = [(''limit'', ''20''), (''offset'', ''40''), (''type'', ''deploy'')]
        then Resp 200 (Some (JStr ''page'')) else NetFail)
      (param (alerts_params (Some ''deploy'') 20 40) ''type'') (param (alerts_params (Some ''deploy'') 20 40) ''limit'')
      (param (alerts_params (Some ''deploy'') 20 40) ''offset'')
    = Inr (JStr ''page'')"
  using pages_reach_the_services [of 20 40 "\<lambda>_. Some ''x''"
      "\<lambda>q. if q = [(''limit'', ''20''), (''offset'', ''40''), (''type'', ''deploy'')]
        then Resp 200 (Some (JStr ''page'')) else NetFail" "Some ''deploy''"]
  by (simp add: listAlerts_def alerts_search_def show_int_def show_nat.simps digit_char_eval resp_ok_def)

text \<open>
  Every chart the browser can ask for is served.  For a valid container name, each of the
  four metrics and each of the three ranges, the query the browser builds passes the
  validation of the endpoint it names, and the answer is the series of that container, metric
  and range (the last hour live, a day or a week from the rollups).
\<close>

theorem chart_requests_are_served:
  assumes "matches_name 127 c" and "map_of METRIC_KINDS k = Some kind"
  shows "let (path, q) = metric_params c k rng in
      if rng = OneHour
      then path = ''live'' \<and> live prom now (param q ''container'') (param q ''metric'') (param q ''minutes'')
             = ebind (getLiveSeries prom c k 60 now) (\<lambda>points. Inr (c, k, points))
      else path = ''history'' \<and> history table now (param q ''container'') (param q ''metric'') (param q ''hours'')
             = Inr (c, k, getHistory table c kind (RANGE_HOURS rng) now)"
proof -
  have c: "c \<noteq> []" using assms(1) by auto
  from assms(2) have k: "k \<in> fst ` set METRIC_KINDS" by (force dest: map_of_SomeD)
  then have "k \<noteq> []" by (auto simp: METRIC_KINDS_def)
  with c k assms(1) have pc: "parseCommon (Some c) (Some k) = Inr (c, k)"
    by (simp add: parseCommon_def in_MetricKind_def truthy_iff)
  have sixty: "''60'' = show_int 60" by (simp add: show_int_def show_nat.simps digit_char_eval)
  show ?thesis
    by (cases rng)
       (simp_all add: metric_params_def param_def live_def history_def pc sixty parse_shown_positive assms(2))
qed

theorem chart_requests_are_served_witness:
  "history [\<lparr>containerName = ''web'', metric = CPU, avgValue = 1, bucketStart = 0\<rparr>] 3600000
      (param (snd (metric_params ''web'' ''CPU'' OneWeek)) ''container'')
      (param (snd (metric_params ''web'' ''CPU'' OneWeek)) ''metric'')
      (param (snd (metric_params ''web'' ''CPU'' OneWeek)) ''hours'')
    = Inr (''web'', ''CPU'', [(0, 1)])"
  using chart_requests_are_served [of "''web''" "''CPU''" CPU OneWeek _ 3600000
      "[\<lparr>containerName = ''web'', metric = CPU, avgValue = 1, bucketStart = 0\<rparr>]"]
  by (simp add: split_beta METRIC_KINDS_def ascii_alnum_def name_char_def getHistory_def)

end
