(* ===== verification/WebAuth.thy ===== *)
theory WebAuth
  imports WebApi
begin

text \<open>
  The session of the browser: apps/web/src/lib/auth (api.ts, token-storage.ts,
  auth-provider.tsx) and the login dialog (components/login-modal.tsx).  The provider is a
  machine: its events are the calls of the user interface, the renewal timer and the answers
  of the API, which may come in any order; calls in flight wait in \<open>ws_calls\<close>.  \<open>storage\<close>
  says whether localStorage works (private mode and quotas make it throw).
\<close>

section \<open>api.ts\<close>

text \<open>A token pair as the code reads it: a missing field is undefined.\<close>

record token_pair =
  pair_access :: "string option"
  pair_refresh :: "string option"

definition isTwoFactorChallenge :: "json \<Rightarrow> bool" where
  "isTwoFactorChallenge body = (jfield ''twoFactorRequired'' body = Some (JBool True))"

definition pair_of :: "json \<Rightarrow> token_pair" where
  "pair_of body = \<lparr>pair_access = jstring (jfield ''accessToken'' body), pair_refresh = jstring (jfield ''refreshToken'' body)\<rparr>"

definition AUTH_ERROR :: string where
  "AUTH_ERROR = ''error de autenticaci'' @ CHR 0xF3 # ''n''"

definition auth_answer :: "(json \<Rightarrow> string) \<Rightarrow> http_outcome \<Rightarrow> api_result" where
  "auth_answer str http =
     (case http of NetFail \<Rightarrow> ApiThrows
      | Resp s b \<Rightarrow>
          (let data = json_or_empty b
           in if \<not> resp_ok s then ApiError (error_text str data AUTH_ERROR) s else ApiOk data))"

text \<open>The cast of \<open>fetchMe\<close>; an unknown role has no rights.\<close>

definition user_of :: "json \<Rightarrow> auth_user" where
  "user_of j = \<lparr>sub = jstring (jfield ''sub'' j), email = jstring (jfield ''email'' j),
     user_role = (if jfield ''role'' j = Some (JStr ''admin'') then Admin
                  else if jfield ''role'' j = Some (JStr ''operator'') then Operator else Viewer)\<rparr>"

text \<open>\<open>fetchMe\<close>: \<open>None\<close> when it rejects.\<close>

definition fetchMe :: "http_outcome \<Rightarrow> auth_user option" where
  "fetchMe http =
     (case http of NetFail \<Rightarrow> None
      | Resp s b \<Rightarrow> if \<not> resp_ok s then Some ANONYMOUS else map_option user_of b)"

section \<open>State of the provider\<close>

datatype caller = Restoring | Renewing | LoggingIn | Verifying

datatype web_call = TokensFor caller | MeFor caller | Revoking

datatype caller_result = Succeeded | AskCode "string option" | FailedWith api_result

datatype web_effect =
  PostAuth string "(string \<times> string) list"
| GetMe "string option"
| CallerDone caller caller_result

record web_session =
  ws_user :: auth_user
  ws_access :: "string option"
  ws_ready :: bool
  ws_ref :: "string option"
  ws_stored :: "string option"
  ws_calls :: "web_call list"

definition web_init :: "string option \<Rightarrow> web_session" where
  "web_init stored = \<lparr>ws_user = ANONYMOUS, ws_access = None, ws_ready = False, ws_ref = None,
     ws_stored = stored, ws_calls = []\<rparr>"

section \<open>token-storage.ts\<close>

definition loadRefreshToken :: "bool \<Rightarrow> web_session \<Rightarrow> string option" where
  "loadRefreshToken storage st = (if storage then ws_stored st else None)"

text \<open>\<open>setItem\<close> stores the string of its argument.\<close>

definition saveRefreshToken :: "bool \<Rightarrow> string option \<Rightarrow> web_session \<Rightarrow> web_session" where
  "saveRefreshToken storage t st =
     (if storage then st\<lparr>ws_stored := Some (nullish t ''undefined'')\<rparr> else st)"

definition clearRefreshToken :: "bool \<Rightarrow> web_session \<Rightarrow> web_session" where
  "clearRefreshToken storage st = (if storage then st\<lparr>ws_stored := None\<rparr> else st)"

section \<open>Operations\<close>

definition applySession :: "bool \<Rightarrow> caller \<Rightarrow> token_pair \<Rightarrow> web_session \<Rightarrow> web_session \<times> web_effect list" where
  "applySession storage who pair st =
     (let st1 = saveRefreshToken storage (pair_refresh pair) (st\<lparr>ws_ref := pair_refresh pair\<rparr>)
      in (st1\<lparr>ws_access := pair_access pair, ws_calls := ws_calls st1 @ [MeFor who]\<rparr>, [GetMe (pair_access pair)]))"

definition clearSession :: "bool \<Rightarrow> web_session \<Rightarrow> web_session" where
  "clearSession storage st =
     (clearRefreshToken storage (st\<lparr>ws_ref := None\<rparr>))\<lparr>ws_access := None, ws_user := ANONYMOUS\<rparr>"

definition call_refresh :: "caller \<Rightarrow> string \<Rightarrow> web_session \<Rightarrow> web_session \<times> web_effect list" where
  "call_refresh who t st =
     (st\<lparr>ws_calls := ws_calls st @ [TokensFor who]\<rparr>, [PostAuth ''/auth/refresh'' [(''refreshToken'', t)]])"

text \<open>The mount effect.\<close>

definition mount :: "bool \<Rightarrow> web_session \<Rightarrow> web_session \<times> web_effect list" where
  "mount storage st =
     (if \<not> truthy (loadRefreshToken storage st) then (st\<lparr>ws_ready := True\<rparr>, [])
      else call_refresh Restoring (the (loadRefreshToken storage st)) st)"

definition renew_tick :: "web_session \<Rightarrow> web_session \<times> web_effect list" where
  "renew_tick st = (if \<not> truthy (ws_ref st) then (st, []) else call_refresh Renewing (the (ws_ref st)) st)"

text \<open>The end of a promise chain whose calls failed: only the effects' own chains clear the session.\<close>

definition chain_failed :: "bool \<Rightarrow> caller \<Rightarrow> api_result \<Rightarrow> web_session \<Rightarrow> web_session \<times> web_effect list" where
  "chain_failed storage who e st =
     (case who of
        Restoring \<Rightarrow> ((clearSession storage st)\<lparr>ws_ready := True\<rparr>, [])
      | Renewing \<Rightarrow> (clearSession storage st, [])
      | _ \<Rightarrow> (st, [CallerDone who (FailedWith e)]))"

text \<open>
  \<open>in\<close> throws on a body that is neither object nor array, property access on null; both reject
  the chain before anything is applied.
\<close>

definition body_throws :: "caller \<Rightarrow> json \<Rightarrow> bool" where
  "body_throws who body =
     (body = JNull \<or> who = LoggingIn \<and> (case body of JObj _ \<Rightarrow> False | JArr _ \<Rightarrow> False | _ \<Rightarrow> True))"

definition tokens_answer ::
  "(json \<Rightarrow> string) \<Rightarrow> bool \<Rightarrow> caller \<Rightarrow> http_outcome \<Rightarrow> web_session \<Rightarrow> web_session \<times> web_effect list" where
  "tokens_answer str storage who http st =
     (case auth_answer str http of
        ApiOk body \<Rightarrow>
          if body_throws who body then chain_failed storage who ApiThrows st
          else if who = LoggingIn \<and> isTwoFactorChallenge body
          then (st, [CallerDone LoggingIn (AskCode (jstring (jfield ''challengeToken'' body)))])
          else applySession storage who (pair_of body) st
      | e \<Rightarrow> chain_failed storage who e st)"

definition me_answer :: "bool \<Rightarrow> caller \<Rightarrow> http_outcome \<Rightarrow> web_session \<Rightarrow> web_session \<times> web_effect list" where
  "me_answer storage who http st =
     (case fetchMe http of
        None \<Rightarrow> chain_failed storage who ApiThrows st
      | Some u \<Rightarrow>
          (let st1 = st\<lparr>ws_user := u\<rparr>
           in case who of Restoring \<Rightarrow> (st1\<lparr>ws_ready := True\<rparr>, [])
                | Renewing \<Rightarrow> (st1, [])
                | _ \<Rightarrow> (st1, [CallerDone who Succeeded])))"

definition web_logout :: "bool \<Rightarrow> web_session \<Rightarrow> web_session \<times> web_effect list" where
  "web_logout storage st =
     (let current = ws_ref st; st1 = clearSession storage st
      in if truthy current
         then (st1\<lparr>ws_calls := ws_calls st1 @ [Revoking]\<rparr>, [PostAuth ''/auth/logout'' [(''refreshToken'', the current)]])
         else (st1, []))"

section \<open>The machine\<close>

datatype web_event =
  Mount
| CallLogin string string
| CallVerify string string
| CallLogout
| RenewTick
| Answer nat http_outcome

definition take_call :: "nat \<Rightarrow> web_session \<Rightarrow> web_session" where
  "take_call i st = st\<lparr>ws_calls := remove_nth i (ws_calls st)\<rparr>"

fun web_step :: "(json \<Rightarrow> string) \<Rightarrow> bool \<Rightarrow> web_session \<Rightarrow> web_event \<Rightarrow> web_session \<times> web_effect list" where
  "web_step str storage st Mount = mount storage st"
| "web_step str storage st (CallLogin e p) =
     (st\<lparr>ws_calls := ws_calls st @ [TokensFor LoggingIn]\<rparr>, [PostAuth ''/auth/login'' [(''email'', e), (''password'', p)]])"
| "web_step str storage st (CallVerify ch code) =
     (st\<lparr>ws_calls := ws_calls st @ [TokensFor Verifying]\<rparr>,
      [PostAuth ''/auth/2fa/verify'' [(''challengeToken'', ch), (''code'', code)]])"
| "web_step str storage st CallLogout = web_logout storage st"
| "web_step str storage st RenewTick = renew_tick st"
| "web_step str storage st (Answer i http) =
     (case ws_calls st ! i of
        TokensFor who \<Rightarrow> tokens_answer str storage who http (take_call i st)
      | MeFor who \<Rightarrow> me_answer storage who http (take_call i st)
      | Revoking \<Rightarrow> (take_call i st, []))"

fun web_enabled :: "web_session \<Rightarrow> web_event \<Rightarrow> bool" where
  "web_enabled st RenewTick = truthy (ws_access st)"
| "web_enabled st (Answer i http) = (i < length (ws_calls st))"
| "web_enabled st _ = True"

text \<open>
  \<open>web_run str storage ok stored es st out\<close>: the page is mounted once, then the events happen,
  each in a state where \<open>ok\<close> (a condition on the environment) holds of it.
\<close>

inductive web_run ::
  "(json \<Rightarrow> string) \<Rightarrow> bool \<Rightarrow> (web_session \<Rightarrow> web_event \<Rightarrow> bool) \<Rightarrow> string option
    \<Rightarrow> web_event list \<Rightarrow> web_session \<Rightarrow> web_effect list \<Rightarrow> bool" for str storage ok stored where
  web_start: "mount storage (web_init stored) = (st, out) \<Longrightarrow> web_run str storage ok stored [] st out"
| web_more: "\<lbrakk>web_run str storage ok stored es st out; web_enabled st e; e \<noteq> Mount; ok st e;
     web_step str storage st e = (st1, out1)\<rbrakk>
    \<Longrightarrow> web_run str storage ok stored (es @ [e]) st1 (out @ out1)"

section \<open>The login dialog\<close>

record login_modal =
  modal_two_factor :: bool
  modal_challenge :: "string option"
  modal_code :: string
  modal_error :: "api_result option"
  modal_submitting :: bool
  modal_open :: bool

definition modal_init :: login_modal where
  "modal_init = \<lparr>modal_two_factor = False, modal_challenge = None, modal_code = [],
     modal_error = None, modal_submitting = False, modal_open = True\<rparr>"

datatype modal_event =
  SubmitCredentials string string
| LoginReturned caller_result
| CodeTyped string
| SubmitCode
| VerifyReturned caller_result
| CloseClicked

text \<open>Each step returns the call it makes; \<open>onClose\<close> closes the dialog.\<close>

fun modal_step :: "login_modal \<Rightarrow> modal_event \<Rightarrow> login_modal \<times> web_event list" where
  "modal_step m (SubmitCredentials e p) = (m\<lparr>modal_error := None, modal_submitting := True\<rparr>, [CallLogin e p])"
| "modal_step m (LoginReturned r) =
     ((case r of
         AskCode ch \<Rightarrow> m\<lparr>modal_challenge := ch, modal_two_factor := True, modal_submitting := False\<rparr>
       | Succeeded \<Rightarrow> m\<lparr>modal_open := False, modal_submitting := False\<rparr>
       | FailedWith e \<Rightarrow> m\<lparr>modal_error := Some e, modal_submitting := False\<rparr>), [])"
| "modal_step m (CodeTyped s) = (m\<lparr>modal_code := filter (is_digit 10) s\<rparr>, [])"
| "modal_step m SubmitCode =
     (if \<not> truthy (modal_challenge m) then (m, [])
      else (m\<lparr>modal_error := None, modal_submitting := True\<rparr>, [CallVerify (the (modal_challenge m)) (modal_code m)]))"
| "modal_step m (VerifyReturned r) =
     ((case r of FailedWith e \<Rightarrow> m\<lparr>modal_error := Some e, modal_submitting := False\<rparr>
       | _ \<Rightarrow> m\<lparr>modal_open := False, modal_submitting := False\<rparr>), [])"
| "modal_step m CloseClicked = (m\<lparr>modal_open := False\<rparr>, [])"

section \<open>Sessions without overtaking\<close>

text \<open>
  A well-formed environment: successful token answers carry both tokens, non-empty; and no
  call, renewal or logout starts while an earlier one is still in flight.
\<close>

definition tokens_ok :: "http_outcome \<Rightarrow> bool" where
  "tokens_ok http = (case http of Resp s b \<Rightarrow>
       resp_ok s \<longrightarrow> isTwoFactorChallenge (json_or_empty b)
         \<or> truthy (pair_access (pair_of (json_or_empty b))) \<and> truthy (pair_refresh (pair_of (json_or_empty b)))
     | NetFail \<Rightarrow> True)"

definition no_challenge :: "http_outcome \<Rightarrow> bool" where
  "no_challenge http = (case http of Resp s b \<Rightarrow> \<not> isTwoFactorChallenge (json_or_empty b) | NetFail \<Rightarrow> True)"

definition in_flight_calls :: "web_session \<Rightarrow> web_call list" where
  "in_flight_calls st = filter (\<lambda>c. c \<noteq> Revoking) (ws_calls st)"

fun sequential :: "web_session \<Rightarrow> web_event \<Rightarrow> bool" where
  "sequential st (Answer i http) = (case ws_calls st ! i of
       TokensFor who \<Rightarrow> tokens_ok http \<and> (who \<noteq> LoggingIn \<longrightarrow> no_challenge http)
     | _ \<Rightarrow> True)"
| "sequential st e = (in_flight_calls st = [])"

definition session_ok :: "bool \<Rightarrow> web_session \<Rightarrow> bool" where
  "session_ok storage st \<longleftrightarrow>
     (ws_access st = None \<longleftrightarrow> ws_ref st = None)
   \<and> (ws_user st \<noteq> ANONYMOUS \<longrightarrow> ws_access st \<noteq> None)
   \<and> (case in_flight_calls st of [] \<Rightarrow> True
       | [TokensFor who] \<Rightarrow> who = Restoring \<longrightarrow> ws_ref st = None
       | [MeFor who] \<Rightarrow> ws_access st \<noteq> None
       | _ \<Rightarrow> False)
   \<and> (storage \<longrightarrow> in_flight_calls st \<noteq> [TokensFor Restoring] \<longrightarrow> ws_stored st = ws_ref st)"

lemmas session_ops = applySession_def clearSession_def saveRefreshToken_def clearRefreshToken_def
  call_refresh_def chain_failed_def Let_def

lemma flight_snoc: "in_flight_calls (st\<lparr>ws_calls := ws_calls st @ [c]\<rparr>)
    = in_flight_calls st @ (if c = Revoking then [] else [c])"
  by (simp add: in_flight_calls_def)

lemma flight_take:
  assumes "i < length (ws_calls st)"
  obtains xs ys where "in_flight_calls st = xs @ (if ws_calls st ! i = Revoking then [] else [ws_calls st ! i]) @ ys"
    "in_flight_calls (take_call i st) = xs @ ys"
proof
  let ?f = "filter (\<lambda>c. c \<noteq> Revoking)"
  show "in_flight_calls st = ?f (take i (ws_calls st))
      @ (if ws_calls st ! i = Revoking then [] else [ws_calls st ! i]) @ ?f (drop (Suc i) (ws_calls st))"
    unfolding in_flight_calls_def by (subst id_take_nth_drop [OF assms]) simp
  show "in_flight_calls (take_call i st) = ?f (take i (ws_calls st)) @ ?f (drop (Suc i) (ws_calls st))"
    by (simp add: in_flight_calls_def take_call_def remove_nth.simps)
qed

lemma take_call_frame [simp]:
  "ws_access (take_call i st) = ws_access st" "ws_ref (take_call i st) = ws_ref st"
  "ws_user (take_call i st) = ws_user st" "ws_stored (take_call i st) = ws_stored st"
  by (simp_all add: take_call_def)

lemma session_ok_frame:
  "\<lbrakk>in_flight_calls t = in_flight_calls st; ws_access t = ws_access st; ws_ref t = ws_ref st; ws_user t = ws_user st;
    ws_stored t = ws_stored st\<rbrakk> \<Longrightarrow> session_ok storage t = session_ok storage st"
  by (simp only: session_ok_def)

lemma session_ok_flight:
  assumes "session_ok storage st"
  shows "in_flight_calls st = [] \<or> (\<exists>who. in_flight_calls st = [TokensFor who]) \<or> (\<exists>who. in_flight_calls st = [MeFor who])"
  using assms by (auto simp: session_ok_def split: list.splits web_call.splits)

text \<open>An answered call was the only one in flight.\<close>

lemma flight_answered:
  assumes "session_ok storage st" and "i < length (ws_calls st)" and "ws_calls st ! i \<noteq> Revoking"
  shows "in_flight_calls st = [ws_calls st ! i] \<and> in_flight_calls (take_call i st) = []"
proof -
  obtain xs ys where f: "in_flight_calls st = xs @ [ws_calls st ! i] @ ys" "in_flight_calls (take_call i st) = xs @ ys"
    using flight_take [OF assms(2)] assms(3) by auto
  with session_ok_flight [OF assms(1)] have "xs = [] \<and> ys = []" by (auto simp: append_eq_Cons_conv)
  with f show ?thesis by simp
qed

lemma session_ok_failed:
  assumes "session_ok storage st" and "in_flight_calls st = [TokensFor who] \<or> in_flight_calls st = [MeFor who]"
    and "in_flight_calls t = []" and "ws_access t = ws_access st" "ws_ref t = ws_ref st" "ws_user t = ws_user st"
      "ws_stored t = ws_stored st"
  shows "session_ok storage (fst (chain_failed storage who e t))"
proof -
  have "in_flight_calls (clearSession storage t) = []" using assms(3)
    by (simp add: session_ops in_flight_calls_def)
  with assms show ?thesis
    by (cases who) (auto simp: session_ok_def session_ops in_flight_calls_def)
qed

lemma session_ok_applied:
  assumes "in_flight_calls t = []" and "truthy (pair_access pair)" and "truthy (pair_refresh pair)"
  shows "session_ok storage (fst (applySession storage who pair t))"
  using assms by (auto simp: session_ok_def session_ops in_flight_calls_def truthy_iff)

lemma session_ok_step:
  assumes ok: "session_ok storage st" and en: "web_enabled st e" and e: "e \<noteq> Mount" and seq: "sequential st e"
  shows "session_ok storage (fst (web_step str storage st e))"
proof (cases e)
  case (Answer i http)
  with en have i: "i < length (ws_calls st)" by simp
  show ?thesis
  proof (cases "ws_calls st ! i")
    case Revoking
    obtain xs ys where "in_flight_calls st = xs @ ys" "in_flight_calls (take_call i st) = xs @ ys"
      using flight_take [OF i] Revoking by auto
    with ok show ?thesis by (simp add: Answer Revoking session_ok_frame [of "take_call i st" st])
  next
    case (TokensFor who)
    note f = flight_answered [OF ok i, unfolded TokensFor, simplified]
    have failed: "session_ok storage (fst (chain_failed storage who r (take_call i st)))" for r
      using f by (intro session_ok_failed [OF ok]) simp_all
    show ?thesis
    proof (cases "auth_answer str http")
      case (ApiOk body)
      then obtain s b where http: "http = Resp s b" "resp_ok s" "body = json_or_empty b"
        by (auto simp: auth_answer_def Let_def split: http_outcome.splits if_splits)
      consider "body_throws who body" | "\<not> body_throws who body" "who = LoggingIn \<and> isTwoFactorChallenge body"
        | "\<not> body_throws who body" "\<not> (who = LoggingIn \<and> isTwoFactorChallenge body)" by blast
      then show ?thesis
      proof cases
        case 1
        then show ?thesis by (simp add: Answer TokensFor tokens_answer_def ApiOk failed)
      next
        case 2
        with f ok show ?thesis
          by (auto simp: Answer TokensFor tokens_answer_def ApiOk session_ok_def)
      next
        case 3
        with seq http have "truthy (pair_access (pair_of body))" "truthy (pair_refresh (pair_of body))"
          by (auto simp: Answer TokensFor tokens_ok_def no_challenge_def)
        with f 3 show ?thesis
          by (auto simp: Answer TokensFor tokens_answer_def ApiOk session_ok_applied)
      qed
    qed (simp_all add: Answer TokensFor tokens_answer_def failed)
  next
    case (MeFor who)
    note f = flight_answered [OF ok i, unfolded MeFor, simplified]
    show ?thesis
    proof (cases "fetchMe http")
      case None
      have "session_ok storage (fst (chain_failed storage who ApiThrows (take_call i st)))"
        using f by (intro session_ok_failed [OF ok]) simp_all
      with None show ?thesis by (simp add: Answer MeFor me_answer_def)
    next
      case (Some u)
      have "ws_access st \<noteq> None" "ws_ref st \<noteq> None" "storage \<longrightarrow> ws_stored st = ws_ref st"
        using ok f by (auto simp: session_ok_def)
      with f have "session_ok storage ((take_call i st)\<lparr>ws_user := u\<rparr>)"
        "session_ok storage ((take_call i st)\<lparr>ws_user := u, ws_ready := True\<rparr>)"
        by (auto simp: session_ok_def in_flight_calls_def)
      then show ?thesis by (cases who) (simp_all add: Answer MeFor me_answer_def Some Let_def)
    qed
  qed
next
  case CallLogout
  with seq have "in_flight_calls st = []" by simp
  then show ?thesis
    by (simp add: CallLogout web_logout_def session_ok_def session_ops in_flight_calls_def)
next
  case RenewTick
  with seq have "in_flight_calls st = []" by simp
  with ok show ?thesis
    by (simp add: RenewTick renew_tick_def session_ok_def call_refresh_def in_flight_calls_def)
qed (use ok seq e in \<open>auto simp: session_ok_def in_flight_calls_def\<close>)


section \<open>Overtaking\<close>

text \<open>Answers of the API for the runs below.\<close>

definition sample_tokens :: http_outcome where
  "sample_tokens = Resp 200 (Some (JObj [(''accessToken'', JStr ''a''), (''refreshToken'', JStr ''r'')]))"

definition sample_me :: http_outcome where
  "sample_me = Resp 200 (Some (JObj [(''sub'', JStr ''u1''), (''role'', JStr ''admin'')]))"

text \<open>
  A logout can be undone by an answer in flight.  If a renewal is under way when the user
  logs out, the session is cleared, but the answer to the renewal applies the new pair: access
  token, stored refresh token and user are back, although the user logged out; and if only the
  lookup of the user was under way, an identified user is shown without a session.
\<close>

theorem logout_undone_by_pending_renewal:
  defines "st0 \<equiv> \<lparr>ws_user = ANONYMOUS, ws_access = Some ''a0'', ws_ready = True, ws_ref = Some ''r0'',
      ws_stored = Some ''r0'', ws_calls = []\<rparr>"
  shows "fst (step_run (web_step str True) st0 [RenewTick, CallLogout, Answer 0 sample_tokens, Answer 1 sample_me])
      = \<lparr>ws_user = \<lparr>sub = Some ''u1'', email = None, user_role = Admin\<rparr>, ws_access = Some ''a'', ws_ready = True,
         ws_ref = Some ''r'', ws_stored = Some ''r'', ws_calls = [Revoking]\<rparr>
    \<and> fst (step_run (web_step str True) st0 [RenewTick, Answer 0 sample_tokens, CallLogout, Answer 0 sample_me])
      = \<lparr>ws_user = \<lparr>sub = Some ''u1'', email = None, user_role = Admin\<rparr>, ws_access = None, ws_ready = True,
         ws_ref = None, ws_stored = None, ws_calls = [Revoking]\<rparr>"
  by (simp add: st0_def body_throws_def renew_tick_def web_logout_def tokens_answer_def auth_answer_def sample_tokens_def sample_me_def
      resp_ok_def me_answer_def fetchMe_def user_of_def pair_of_def session_ops take_call_def remove_nth.simps)


end
