(* ===== verification/WebPanels.thy ===== *)
theory WebPanels
  imports WebAuth
begin

text \<open>
  The stateful components of apps/web/src/components and the locale of apps/web/src/i18n:
  the restart button, the two paged panels, which panels a user sees, the alert summaries and
  the choice of language.  What they render is in theory WebViews; a translated text is the key
  and the parameters given to the translator.
\<close>

section \<open>restart-button.tsx\<close>

definition CONFIRM_TIMEOUT_MS :: int where "CONFIRM_TIMEOUT_MS = 3000"

datatype button_status = Idle | Confirm | Pending | Done | Error

datatype button_timer = ConfirmExpires | ShowExpires

text \<open>Timers are never cleared; \<open>btn_calls\<close> counts the restart requests in flight.\<close>

record button_state =
  btn_status :: button_status
  btn_message :: "api_result option"
  btn_timers :: "(button_timer \<times> int) list" \<comment> \<open>with the due time\<close>
  btn_calls :: nat

definition button_init :: button_state where
  "button_init = \<lparr>btn_status = Idle, btn_message = None, btn_timers = [], btn_calls = 0\<rparr>"

datatype button_event = Click int | CallReturns api_result int | ButtonTimer nat int

definition add_timer :: "button_timer \<Rightarrow> int \<Rightarrow> button_state \<Rightarrow> button_state" where
  "add_timer t now st = st\<lparr>btn_timers := btn_timers st @ [(t, now + CONFIRM_TIMEOUT_MS)]\<rparr>"

text \<open>\<open>onClick\<close>; the boolean says whether the request is sent.\<close>

definition on_click :: "string option \<Rightarrow> int \<Rightarrow> button_state \<Rightarrow> button_state \<times> bool" where
  "on_click token now st =
     (if btn_status st \<noteq> Confirm then (add_timer ConfirmExpires now (st\<lparr>btn_status := Confirm\<rparr>), False)
      else if \<not> truthy token then (st, False)
      else (st\<lparr>btn_status := Pending, btn_message := None, btn_calls := btn_calls st + 1\<rparr>, True))"

definition call_returned :: "api_result \<Rightarrow> int \<Rightarrow> button_state \<Rightarrow> button_state" where
  "call_returned r now st =
     (let st1 = st\<lparr>btn_calls := btn_calls st - 1\<rparr>
      in case r of
           ApiOk j \<Rightarrow> add_timer ShowExpires now (st1\<lparr>btn_status := Done\<rparr>)
         | e \<Rightarrow> add_timer ShowExpires now (st1\<lparr>btn_status := Error, btn_message := Some e\<rparr>))"

definition button_timer_fires :: "nat \<Rightarrow> button_state \<Rightarrow> button_state" where
  "button_timer_fires i st =
     (let st1 = st\<lparr>btn_timers := remove_nth i (btn_timers st)\<rparr>
      in case fst (btn_timers st ! i) of
           ConfirmExpires \<Rightarrow> (if btn_status st = Confirm then st1\<lparr>btn_status := Idle\<rparr> else st1)
         | ShowExpires \<Rightarrow> st1\<lparr>btn_status := Idle\<rparr>)"

fun button_step :: "string option \<Rightarrow> button_state \<Rightarrow> button_event \<Rightarrow> button_state \<times> bool list" where
  "button_step token st (Click now) = (let (st1, sent) = on_click token now st in (st1, if sent then [True] else []))"
| "button_step token st (CallReturns r now) = (call_returned r now st, [])"
| "button_step token st (ButtonTimer i now) = (button_timer_fires i st, [])"

text \<open>The button is disabled while pending; timers are never early.\<close>

fun button_enabled :: "button_state \<Rightarrow> button_event \<Rightarrow> bool" where
  "button_enabled st (Click now) = (btn_status st \<noteq> Pending)"
| "button_enabled st (CallReturns r now) = (0 < btn_calls st)"
| "button_enabled st (ButtonTimer i now) = (i < length (btn_timers st) \<and> snd (btn_timers st ! i) \<le> now)"

inductive button_reach :: "string option \<Rightarrow> button_event list \<Rightarrow> button_state \<Rightarrow> nat \<Rightarrow> bool" for token where
  button_start: "button_reach token [] button_init 0"
| button_more: "\<lbrakk>button_reach token es st n; button_enabled st e; button_step token st e = (st1, sent)\<rbrakk>
    \<Longrightarrow> button_reach token (es @ [e]) st1 (n + length sent)"

definition clicks :: "button_event list \<Rightarrow> nat" where
  "clicks es = length (filter (\<lambda>e. case e of Click _ \<Rightarrow> True | _ \<Rightarrow> False) es)"

lemma button_two_clicks:
  "button_reach token es st n \<Longrightarrow> 2 * n + (if btn_status st = Confirm then 1 else 0) \<le> clicks es"
proof (induction rule: button_reach.induct)
  case button_start
  show ?case by (simp add: button_init_def)
next
  case (button_more es st n e st1 sent)
  then show ?case
  proof (cases e)
    case (Click now)
    with button_more show ?thesis
      by (auto simp: on_click_def add_timer_def clicks_def split: if_splits)
  next
    case (CallReturns r now)
    with button_more show ?thesis
      by (auto simp: call_returned_def add_timer_def clicks_def Let_def split: api_result.splits)
  next
    case (ButtonTimer i now)
    with button_more show ?thesis
      by (auto simp: button_timer_fires_def clicks_def Let_def split: button_timer.splits if_splits)
  qed
qed

text \<open>
  No restart without a confirmation, and none without a token.  Along any run of the button
  (clicks, expiring timers, answers, in any order) at most half of the clicks, rounded down,
  send a request: a first click never does; without an access token nothing is sent.
\<close>

theorem restart_needs_confirmation:
  assumes "button_reach token es st n"
  shows "2 * n \<le> clicks es \<and> (n = 0 \<or> truthy token)"
proof -
  have "n = 0 \<or> truthy token"
    using assms by (induction rule: button_reach.induct)
      (auto simp: on_click_def elim!: button_step.elims split: if_splits)
  with button_two_clicks [OF assms] show ?thesis by simp
qed

theorem restart_needs_confirmation_witness:
  "button_reach (Some ''t'') ([] @ [Click 0] @ [Click 5]) \<lparr>btn_status = Pending, btn_message = None,
      btn_timers = [(ConfirmExpires, 3000)], btn_calls = 1\<rparr> 1
   \<and> 2 * (1 :: nat) \<le> clicks [Click 0, Click 5]"
proof -
  have 1: "button_reach (Some ''t'') ([] @ [Click 0]) \<lparr>btn_status = Confirm, btn_message = None,
      btn_timers = [(ConfirmExpires, 3000)], btn_calls = 0\<rparr> (0 + length ([] :: bool list))"
    by (rule button_more [OF button_start])
      (simp_all add: button_init_def on_click_def add_timer_def CONFIRM_TIMEOUT_MS_def)
  have 2: "button_reach (Some ''t'') (([] @ [Click 0]) @ [Click 5]) \<lparr>btn_status = Pending, btn_message = None,
      btn_timers = [(ConfirmExpires, 3000)], btn_calls = 1\<rparr> ((0 + length ([] :: bool list)) + length [True])"
    by (rule button_more [OF 1]) (simp_all add: on_click_def)
  from restart_needs_confirmation [OF 2] 2 show ?thesis by simp
qed

text \<open>
  A stale timer re-enables the button: the one that hides the result of a first restart fires
  while a second request is in flight and the button is clickable again.
\<close>

lemma button_reenabled_in_flight:
  "fst (step_run (button_step (Some ''t'')) button_init
     [Click 0, Click 1, CallReturns (ApiOk JNull) 100, Click 1000, Click 1100, ButtonTimer 1 3100])
   = \<lparr>btn_status = Idle, btn_message = None, btn_timers = [(ConfirmExpires, 3000), (ConfirmExpires, 4000)], btn_calls = 1\<rparr>"
  by (simp add: button_init_def on_click_def add_timer_def call_returned_def button_timer_fires_def
      CONFIRM_TIMEOUT_MS_def remove_nth.simps)

section \<open>What a user sees\<close>

datatype panel = RestartButton | TaskforgePanel | SecurityAuditPanel

text \<open>\<open>if (!hasRole(user, ...)) return null\<close>\<close>

fun panel_role :: "panel \<Rightarrow> role" where
  "panel_role RestartButton = Operator"
| "panel_role TaskforgePanel = Operator"
| "panel_role SecurityAuditPanel = Admin"

definition panel_visible :: "panel \<Rightarrow> auth_user \<Rightarrow> bool" where
  "panel_visible p user = hasRole user (panel_role p)"

text \<open>The queries of the panels run only with a token.\<close>

definition query_enabled :: "panel \<Rightarrow> auth_user \<Rightarrow> string option \<Rightarrow> bool" where
  "query_enabled p user token = (panel_visible p user \<and> token \<noteq> None)"

fun panel_route :: "panel \<Rightarrow> route" where
  "panel_route RestartButton = RestartAction"
| "panel_route TaskforgePanel = TaskforgeStatus"
| "panel_route SecurityAuditPanel = SecurityAuditList"

text \<open>
  The browser shows what the server allows.  For the user the API reports for a token, a
  panel is visible exactly when the guard lets a request with that token through to the route
  the panel calls; and a request that would be refused is refused as 401 for nobody and 403
  for somebody.
\<close>

theorem panels_agree_with_guard:
  shows "\<exists>user. guard_route lib env (Some (BEARER @ token)) AuthMe = Inr user
    \<and> guard_route lib env (Some (BEARER @ token)) (panel_route p)
        = (if panel_visible p user then Inr user else if sub user = None then Inl Unauthorized else Inl Forbidden)"
  by (cases p) (simp_all add: guard_route_def min_role_def canActivate_def Let_def panel_visible_def)

section \<open>Paging (alerts-feed-panel.tsx, security-audit-panel.tsx)\<close>

definition PAGE_SIZE :: nat where "PAGE_SIZE = 20"

definition prev_disabled :: "nat \<Rightarrow> bool" where "prev_disabled offset = (offset = 0)"

definition next_disabled :: "nat \<Rightarrow> nat \<Rightarrow> bool" where
  "next_disabled tot offset = (tot \<le> offset + PAGE_SIZE)"

definition page_prev :: "nat \<Rightarrow> nat" where "page_prev offset = offset - PAGE_SIZE"

definition page_next :: "nat \<Rightarrow> nat" where "page_next offset = offset + PAGE_SIZE"

text \<open>The offsets a user visits who presses "next" until it is disabled.\<close>

function visited :: "nat \<Rightarrow> nat \<Rightarrow> nat list" where
  "visited tot offset = offset # (if next_disabled tot offset then [] else visited tot (page_next offset))"
  by auto
termination
  by (relation "measure (\<lambda>(tot, offset). tot - offset)")
     (auto simp: next_disabled_def page_next_def PAGE_SIZE_def)

declare visited.simps [simp del]

lemma visited_drop:
  "concat (map (\<lambda>p. take PAGE_SIZE (drop p xs)) (visited (length xs) off)) = drop off xs"
proof (induction "length xs" off rule: visited.induct)
  case (1 off)
  show ?case
  proof (cases "next_disabled (length xs) off")
    case True
    then show ?thesis by (subst visited.simps) (simp add: next_disabled_def)
  next
    case False
    with 1 have "concat (map (\<lambda>p. take PAGE_SIZE (drop p xs)) (visited (length xs) (page_next off))) = drop (page_next off) xs"
      by simp
    moreover have "take PAGE_SIZE (drop off xs) @ drop (page_next off) xs = drop off xs"
      by (metis append_take_drop_id drop_drop add.commute page_next_def)
    ultimately show ?thesis using False by (subst visited.simps) simp
  qed
qed


section \<open>security-audit-panel.tsx\<close>

record audit_panel =
  ap_action :: "string option" \<comment> \<open>\<open>None\<close>: all actions\<close>
  ap_user :: string
  ap_skip :: nat

definition audit_panel_init :: audit_panel where
  "audit_panel_init = \<lparr>ap_action = None, ap_user = [], ap_skip = 0\<rparr>"

datatype audit_panel_event = SelectAction "string option" | TypeUser string | AuditPrev | AuditNext

fun audit_panel_step :: "audit_panel \<Rightarrow> audit_panel_event \<Rightarrow> audit_panel" where
  "audit_panel_step st (SelectAction a) = st\<lparr>ap_action := a, ap_skip := 0\<rparr>"
| "audit_panel_step st (TypeUser u) = st\<lparr>ap_user := u, ap_skip := 0\<rparr>"
| "audit_panel_step st AuditPrev = st\<lparr>ap_skip := page_prev (ap_skip st)\<rparr>"
| "audit_panel_step st AuditNext = st\<lparr>ap_skip := page_next (ap_skip st)\<rparr>"

text \<open>The query of the panel.\<close>

definition audit_panel_query ::
  "(json \<Rightarrow> string) \<Rightarrow> (api_request \<Rightarrow> http_outcome) \<Rightarrow> audit_panel \<Rightarrow> string \<Rightarrow> api_result" where
  "audit_panel_query str http st token =
     (let u = js_trim (ap_user st)
      in fetchSecurityAudit str http (ap_action st) (if u = [] then None else Some u) (int (ap_skip st)) (int PAGE_SIZE) token)"

text \<open>The offset stays on a page boundary and a new filter starts at the first page.\<close>

lemma audit_panel_pages: "PAGE_SIZE dvd ap_skip (foldl audit_panel_step audit_panel_init es)"
proof (induction es rule: rev_induct)
  case (snoc e es)
  then show ?case
    by (cases e) (auto simp: page_next_def page_prev_def dvd_diff_nat)
qed (simp add: audit_panel_init_def)

section \<open>alerts-feed-panel.tsx\<close>

record feed_state =
  feed_type :: "alert_type option" \<comment> \<open>\<open>None\<close>: all types\<close>
  feed_offset :: nat

definition feed_init :: feed_state where "feed_init = \<lparr>feed_type = None, feed_offset = 0\<rparr>"

datatype feed_event =
  SelectType "alert_type option"
| FeedPrev
| FeedNext
| NewAlert alert_type
| StatusChanged bool \<comment> \<open>live\<close>

text \<open>Each step says whether the current page is invalidated (and so fetched again).\<close>

fun feed_step :: "feed_state \<Rightarrow> feed_event \<Rightarrow> feed_state \<times> bool" where
  "feed_step st (SelectType t) = (\<lparr>feed_type = t, feed_offset = 0\<rparr>, False)"
| "feed_step st FeedPrev = (st\<lparr>feed_offset := page_prev (feed_offset st)\<rparr>, False)"
| "feed_step st FeedNext = (st\<lparr>feed_offset := page_next (feed_offset st)\<rparr>, False)"
| "feed_step st (NewAlert t) =
     (st, feed_offset st = 0 \<and> (feed_type st = None \<or> feed_type st = Some t))"
| "feed_step st (StatusChanged now_live) = (st, now_live)"

text \<open>The page the bot serves: newest first, of the chosen type.\<close>

definition feed_page :: "feed_state \<Rightarrow> alert_type list \<Rightarrow> alert_type list" where
  "feed_page st feed = take PAGE_SIZE (drop (feed_offset st)
     (filter (\<lambda>t. feed_type st = None \<or> feed_type st = Some t) feed))"

text \<open>\<open>useSummary\<close>: the key of the text and its parameters; \<open>str\<close> is \<open>String(x)\<close>.\<close>

definition payload_text :: "(json \<Rightarrow> string) \<Rightarrow> json \<Rightarrow> string \<Rightarrow> string" where
  "payload_text str p k = (case jfield k p of None \<Rightarrow> ''?'' | Some JNull \<Rightarrow> ''?'' | Some (JStr s) \<Rightarrow> s | Some v \<Rightarrow> str v)"

definition alert_summary ::
  "(json \<Rightarrow> string) \<Rightarrow> (string \<Rightarrow> string) \<Rightarrow> alert_type \<Rightarrow> json \<Rightarrow> string \<times> (string \<times> string) list" where
  "alert_summary str tr type p =
     (let arg = (\<lambda>name field. (name, payload_text str p field))
      in case type of
        Deploy \<Rightarrow> (''deploy'', [arg ''service'' ''service'',
          (''status'', tr (if jfield ''status'' p = Some (JStr ''success'') then ''deployOk'' else ''deployFailed'')),
          (''version'', case jfield ''version'' p of Some (JStr v) \<Rightarrow> '' ('' @ v @ '')'' | _ \<Rightarrow> [])])
      | ResourceAlert \<Rightarrow> (''resourceAlert'', [arg ''host'' ''host'', arg ''metric'' ''metric'', arg ''value'' ''value'',
          arg ''threshold'' ''threshold''])
      | ContainerDown \<Rightarrow> (''containerDown'', [arg ''container'' ''container'',
          (''exitCode'', case jfield ''exitCode'' p of Some (JNum q) \<Rightarrow> '' (exit '' @ str (JNum q) @ '')'' | _ \<Rightarrow> [])])
      | ContainerRestarted \<Rightarrow> (''containerRestarted'', [arg ''container'' ''container''])
      | JobDlq \<Rightarrow> (''jobDlq'', [arg ''service'' ''service'', arg ''queue'' ''queue'', arg ''name'' ''name'',
          arg ''attempts'' ''attemptsMade'', arg ''reason'' ''failedReason'']))"

text \<open>
  A push refreshes the page exactly when it could have changed on screen as a first page:
  if the new alert does not cause a refetch while the first page is shown, that page is
  unchanged by it.
\<close>

theorem push_refresh_is_complete:
  assumes "feed_offset st = 0" and "snd (feed_step st (NewAlert t)) = False"
  shows "feed_page st (t # feed) = feed_page st feed"
  using assms by (auto simp: feed_page_def)

theorem push_refresh_is_complete_witness:
  "feed_page \<lparr>feed_type = Some Deploy, feed_offset = 0\<rparr> [JobDlq, Deploy] = [Deploy]"
  using push_refresh_is_complete [of "\<lparr>feed_type = Some Deploy, feed_offset = 0\<rparr>" JobDlq "[Deploy]"]
  by (simp add: feed_page_def PAGE_SIZE_def)

section \<open>The language (i18n)\<close>

datatype ui_locale = Es | En

fun locale_name :: "ui_locale \<Rightarrow> string" where
  "locale_name Es = ''es''"
| "locale_name En = ''en''"

definition LOCALES :: "string list" where "LOCALES = [''es'', ''en'']"

definition DEFAULT_LOCALE :: string where "DEFAULT_LOCALE = ''es''"

definition isLocale :: "string option \<Rightarrow> bool" where
  "isLocale v = (case v of None \<Rightarrow> False | Some s \<Rightarrow> s \<in> set LOCALES)"

definition resolveLocale :: "string option \<Rightarrow> string" where
  "resolveLocale raw = (if isLocale raw then the raw else DEFAULT_LOCALE)"

definition ONE_YEAR_SEC :: int where "ONE_YEAR_SEC = 60 * 60 * 24 * 365"

type_synonym cookies = "string \<rightharpoonup> string \<times> int" \<comment> \<open>value and max age\<close>

definition LOCALE_COOKIE :: string where "LOCALE_COOKIE = ''locale''"

definition setLocale :: "ui_locale \<Rightarrow> cookies \<Rightarrow> cookies" where
  "setLocale l jar = jar(LOCALE_COOKIE \<mapsto> (locale_name l, ONE_YEAR_SEC))"

text \<open>The locale of a request, from its cookies.\<close>

definition request_locale :: "cookies \<Rightarrow> string" where
  "request_locale jar = resolveLocale (map_option fst (jar LOCALE_COOKIE))"

text \<open>The switch ignores the current language and clicks while a change is pending.\<close>

definition select_locale :: "ui_locale \<Rightarrow> bool \<Rightarrow> cookies \<Rightarrow> ui_locale \<Rightarrow> cookies" where
  "select_locale current pending jar nxt = (if nxt = current \<or> pending then jar else setLocale nxt jar)"

lemma locale_choice_sticks: "request_locale (setLocale l jar) = locale_name l"
  by (cases l) (simp_all add: request_locale_def setLocale_def resolveLocale_def isLocale_def LOCALES_def)

lemma locale_always_known: "request_locale jar \<in> set LOCALES"
  by (auto simp: request_locale_def resolveLocale_def isLocale_def LOCALES_def DEFAULT_LOCALE_def split: option.splits)

section \<open>log-viewer.tsx and live-dashboard.tsx\<close>

definition PIN_THRESHOLD_PX :: int where "PIN_THRESHOLD_PX = 40"

definition pinned_after_scroll :: "int \<Rightarrow> int \<Rightarrow> int \<Rightarrow> bool" where
  "pinned_after_scroll scrollHeight scrollTop clientHeight = (scrollHeight - scrollTop - clientHeight < PIN_THRESHOLD_PX)"

text \<open>Following the stream scrolls to the end, which keeps the viewer pinned.\<close>

lemma following_stays_pinned: "0 \<le> client \<Longrightarrow> pinned_after_scroll h (h - client) client"
  by (simp add: pinned_after_scroll_def PIN_THRESHOLD_PX_def)

definition select_service :: "string option \<Rightarrow> string \<Rightarrow> string option" where
  "select_service selected name = (if Some name = selected then None else Some name)"

definition running_count :: "service_state list \<Rightarrow> nat" where
  "running_count ss = length (filter (\<lambda>s. status s = Running) ss)"

end
