(* ===== verification/WebCharts.thy ===== *)
theory WebCharts
  imports Metrics "HOL-Library.AList"
begin

text \<open>
  The chart of a container: components/metrics-panel.tsx (which series a tab shows, how they are
  merged into rows, how often they are fetched) and lib/metrics/format.ts (the labels).
  Rendering by recharts is not modelled.  Numbers are exact rationals; where a double
  operation may round (\<open>value * 100\<close>) it is rounded; divisions by powers of two are exact.
  \<open>big\<close> is \<open>String(x)\<close> for numbers of 22 digits and more, which \<open>toFixed\<close> falls back to.
\<close>

section \<open>mergeSeries\<close>

record 'v metric_point =
  pt_t :: rat
  pt_v :: 'v

type_synonym 'v chart_row = "rat \<times> (metric_kind \<rightharpoonup> 'v)"

text \<open>\<open>byTime\<close> is a JavaScript Map: an update keeps the position, a new key goes last.\<close>

definition put_point :: "metric_kind \<Rightarrow> 'v metric_point \<Rightarrow> 'v chart_row list \<Rightarrow> 'v chart_row list" where
  "put_point kind p byTime =
     (let row = nullish (map_of byTime (pt_t p)) Map.empty
      in AList.update (pt_t p) (row(kind \<mapsto> pt_v p)) byTime)"

fun put_series :: "(metric_kind \<times> 'v metric_point list) list \<Rightarrow> 'v chart_row list \<Rightarrow> 'v chart_row list" where
  "put_series [] byTime = byTime"
| "put_series ((kind, points) # series) byTime = put_series series (fold (put_point kind) points byTime)"

definition mergeSeries :: "(metric_kind \<times> 'v metric_point list) list \<Rightarrow> 'v chart_row list" where
  "mergeSeries series = js_sort (\<lambda>a b. fst a \<le> fst b) (put_series series [])"

text \<open>Specification: the points in order, and the last value given for a time and a metric.\<close>

definition flat_points :: "(metric_kind \<times> 'v metric_point list) list \<Rightarrow> ((rat \<times> metric_kind) \<times> 'v) list" where
  "flat_points series = concat (map (\<lambda>(k, ps). map (\<lambda>p. ((pt_t p, k), pt_v p)) ps) series)"

definition value_at :: "(metric_kind \<times> 'v metric_point list) list \<Rightarrow> rat \<Rightarrow> metric_kind \<Rightarrow> 'v option" where
  "value_at series t k = map_of (rev (flat_points series)) (t, k)"

definition chart_times :: "(metric_kind \<times> 'v metric_point list) list \<Rightarrow> rat set" where
  "chart_times series = (fst \<circ> fst) ` set (flat_points series)"

text \<open>A table of rows read as one map; \<open>None\<close> where there is no row.\<close>

definition cell :: "'v chart_row list \<Rightarrow> rat \<Rightarrow> metric_kind \<Rightarrow> 'v option" where
  "cell rows t k = (case map_of rows t of None \<Rightarrow> None | Some r \<Rightarrow> r k)"

lemma cell_Nil [simp]: "cell [] t k = None"
  by (simp add: cell_def)

lemma put_point_keys:
  "distinct (map fst rows) \<Longrightarrow> distinct (map fst (put_point k p rows))"
  "fst ` set (put_point k p rows) = insert (pt_t p) (fst ` set rows)"
  by (simp_all add: put_point_def Let_def distinct_update dom_update)

lemma put_point_cell: "cell (put_point k p rows) t k' = (if t = pt_t p \<and> k' = k then Some (pt_v p) else cell rows t k')"
  by (auto simp: cell_def put_point_def Let_def update_conv nullish_def split: option.splits)

lemma put_points:
  "distinct (map fst rows) \<Longrightarrow>
     distinct (map fst (fold (put_point k) ps rows))
   \<and> fst ` set (fold (put_point k) ps rows) = fst ` set rows \<union> pt_t ` set ps
   \<and> (\<forall>t k'. cell (fold (put_point k) ps rows) t k' =
        (case map_of (rev (map (\<lambda>p. ((pt_t p, k), pt_v p)) ps)) (t, k') of Some v \<Rightarrow> Some v | None \<Rightarrow> cell rows t k'))"
proof (induction ps arbitrary: rows)
  case (Cons p ps)
  from Cons.IH [OF put_point_keys(1) [OF Cons.prems, of k p]] show ?case
    by (auto simp: put_point_keys(2) put_point_cell map_add_def split: option.splits)
qed simp

lemma put_series_spec:
  "distinct (map fst rows) \<Longrightarrow>
     distinct (map fst (put_series series rows))
   \<and> fst ` set (put_series series rows) = fst ` set rows \<union> chart_times series
   \<and> (\<forall>t k. cell (put_series series rows) t k =
        (case value_at series t k of Some v \<Rightarrow> Some v | None \<Rightarrow> cell rows t k))"
proof (induction series arbitrary: rows)
  case Nil
  then show ?case by (simp add: chart_times_def flat_points_def value_at_def)
next
  case (Cons s series)
  obtain k ps where s: "s = (k, ps)" by fastforce
  note pp = put_points [OF Cons.prems, of k ps]
  have times: "chart_times (s # series) = pt_t ` set ps \<union> chart_times series"
    by (force simp: chart_times_def flat_points_def s)
  have val: "value_at (s # series) t k' = (case value_at series t k' of Some v \<Rightarrow> Some v
      | None \<Rightarrow> map_of (rev (map (\<lambda>p. ((pt_t p, k), pt_v p)) ps)) (t, k'))" for t k'
    by (simp add: value_at_def flat_points_def s map_add_def split: option.splits)
  from Cons.IH [of "fold (put_point k) ps rows"] pp show ?case
    by (simp add: s [symmetric] times val Un_assoc) (simp add: s val split: option.splits)
qed

lemma map_of_js_sort:
  "distinct (map fst rows) \<Longrightarrow> map_of (js_sort le rows) = map_of rows"
  by (rule map_of_inject_set [THEN iffD2]) simp_all

text \<open>
  The chart shows every point in its place.  The rows of the merged chart are strictly
  ordered by time, there is one for exactly the times at which some series has a point, and a
  row holds for each metric the last value its series gave for that time, and nothing for the
  metrics without a point there.
\<close>

theorem chart_rows_exact:
  shows "sorted_wrt (<) (map fst (mergeSeries series))
    \<and> set (map fst (mergeSeries series)) = chart_times series
    \<and> cell (mergeSeries series) = value_at series"
proof -
  let ?rows = "put_series series []"
  have "distinct (map fst ([] :: 'v chart_row list))" by simp
  note p = put_series_spec [OF this, of series]
  have spec: "distinct (map fst ?rows)" "fst ` set ?rows = chart_times series" using p by simp_all
  have c: "cell ?rows t k = value_at series t k" for t k using p by (simp split: option.splits)
  have "total_preorder (\<lambda>a b :: 'v chart_row. fst a \<le> fst b)" by (auto simp: total_preorder_def)
  then have "sorted_wrt (\<lambda>a b. fst a \<le> fst b) (mergeSeries series)"
    unfolding mergeSeries_def by (rule sorted_wrt_js_sort)
  then have "sorted (map fst (mergeSeries series))" by (simp add: sorted_wrt_map)
  moreover have "distinct (map fst (mergeSeries series))" using spec(1) by (simp add: mergeSeries_def)
  ultimately have "sorted_wrt (<) (map fst (mergeSeries series))" by (simp add: strict_sorted_iff)
  moreover have "cell (mergeSeries series) t k = cell ?rows t k" for t k
    by (simp add: cell_def mergeSeries_def map_of_js_sort [OF spec(1)])
  ultimately show ?thesis using spec(2) by (simp add: mergeSeries_def fun_eq_iff c)
qed

section \<open>The panel\<close>

datatype metric_tab = TabCpu | TabRam | TabNet

datatype chart_format = Cores | Bytes | Rate

text \<open>\<open>TABS\<close>: the series of a tab, with their labels, and the format of its axis.\<close>

fun tab_series :: "metric_tab \<Rightarrow> (metric_kind \<times> string) list" where
  "tab_series TabCpu = [(CPU, ''cpu'')]"
| "tab_series TabRam = [(MEMORY, ''ram'')]"
| "tab_series TabNet = [(NETWORK_RX, ''rx''), (NETWORK_TX, ''tx'')]"

fun tab_format :: "metric_tab \<Rightarrow> chart_format" where
  "tab_format TabCpu = Cores"
| "tab_format TabRam = Bytes"
| "tab_format TabNet = Rate"

text \<open>The query function: all series or an error; \<open>fetch\<close> is \<open>fetchMetricSeries\<close> for the container
  and the range.\<close>

definition chart_query :: "(metric_kind \<Rightarrow> 'v metric_point list option) \<Rightarrow> metric_tab \<Rightarrow> 'v chart_row list option" where
  "chart_query fetch tab =
     (if list_ex (\<lambda>(k, l). fetch k = None) (tab_series tab) then None
      else Some (mergeSeries (map (\<lambda>(k, l). (k, the (fetch k))) (tab_series tab))))"

definition refetch_ms :: "bool \<Rightarrow> int" where
  "refetch_ms one_hour = (if one_hour then 30000 else 120000)"

text \<open>The label of a tooltip entry.\<close>

definition entry_label :: "metric_tab \<Rightarrow> metric_kind \<Rightarrow> string option" where
  "entry_label tab k = map_of (tab_series tab) k"

section \<open>format.ts\<close>

definition round_half_up :: "rat \<Rightarrow> int" where
  "round_half_up x = \<lfloor>x + 1/2\<rfloor>"

text \<open>\<open>x.toFixed(f)\<close>: the nearest multiple of \<open>10 ^ -f\<close>, the larger of two.\<close>

definition fixed_digits :: "nat \<Rightarrow> nat \<Rightarrow> string" where
  "fixed_digits f n =
     (let m = show_nat n; z = replicate (f + 1 - length m) (CHR ''0'') @ m; k = length z - f
      in if f = 0 then m else take k z @ ''.'' @ drop k z)"

definition to_fixed :: "(rat \<Rightarrow> string) \<Rightarrow> nat \<Rightarrow> rat \<Rightarrow> string" where
  "to_fixed big f x =
     (if 10 ^ 21 \<le> \<bar>x\<bar> then big x
      else (if x < 0 then ''-'' else []) @ fixed_digits f (nat (round_half_up (\<bar>x\<bar> * 10 ^ f))))"

definition formatCores :: "(rat \<Rightarrow> string) \<Rightarrow> rat \<Rightarrow> string" where
  "formatCores big v =
     (case round_double (v * 100) of
        Fin q \<Rightarrow> to_fixed big (if 1 \<le> v then 0 else 1) q @ ''%''
      | PosInf \<Rightarrow> ''Infinity%'' | NegInf \<Rightarrow> ''-Infinity%'' | NaN \<Rightarrow> ''NaN%'')"

definition formatBytes :: "(rat \<Rightarrow> string) \<Rightarrow> rat \<Rightarrow> string" where
  "formatBytes big v =
     (if 1073741824 \<le> v then to_fixed big 1 (v / 1073741824) @ '' GiB''
      else if 1048576 \<le> v then to_fixed big 1 (v / 1048576) @ '' MiB''
      else if 1024 \<le> v then to_fixed big 1 (v / 1024) @ '' KiB''
      else show_int (round_half_up v) @ '' B'')"

definition formatRate :: "(rat \<Rightarrow> string) \<Rightarrow> rat \<Rightarrow> string" where
  "formatRate big v = formatBytes big v @ ''/s''"

text \<open>The local time of an instant, as \<open>Date\<close> gives it.\<close>

record local_time =
  lt_hours :: nat
  lt_minutes :: nat
  lt_date :: nat
  lt_month :: nat \<comment> \<open>from 0\<close>

definition pad_two :: "nat \<Rightarrow> string" where
  "pad_two n = replicate (2 - length (show_nat n)) (CHR ''0'') @ show_nat n"

definition formatTick :: "(rat \<Rightarrow> local_time) \<Rightarrow> rat \<Rightarrow> int \<Rightarrow> string" where
  "formatTick clock t rangeHours =
     (let d = clock t; hh = pad_two (lt_hours d); mm = pad_two (lt_minutes d)
      in if rangeHours \<le> 24 then hh @ '':'' @ mm
         else show_nat (lt_date d) @ ''/'' @ show_nat (lt_month d + 1) @ '' '' @ hh @ ''h'')"

section \<open>Labels\<close>

lemma round_half_up_near: "\<bar>of_int (round_half_up x) - x\<bar> \<le> 1/2"
  unfolding round_half_up_def by linarith

lemma round_half_up_nonneg: "0 \<le> x \<Longrightarrow> 0 \<le> round_half_up x"
  by (simp add: round_half_up_def)

lemma show_nat_digit: "d < 10 \<Longrightarrow> show_nat d = [digit_char d]"
  by (subst show_nat.simps) simp

lemma show_nat_snoc: "10 \<le> n \<Longrightarrow> show_nat n = show_nat (n div 10) @ [digit_char (n mod 10)]"
  by (subst show_nat.simps) simp

lemma fixed_one: "fixed_digits 1 n = show_nat (n div 10) @ ''.'' @ show_nat (n mod 10)"
proof (cases "n < 10")
  case True
  then show ?thesis by (simp add: fixed_digits_def Let_def show_nat_digit digit_char_eval)
next
  case False
  have "show_nat (n div 10) \<noteq> []" by simp
  then have "length (show_nat (n div 10)) \<ge> 1" by (cases "show_nat (n div 10)") simp_all
  with False show ?thesis by (simp add: fixed_digits_def Let_def show_nat_snoc show_nat_digit)
qed

text \<open>One decimal of a quotient, with its error.\<close>

lemma to_fixed_one:
  assumes "0 \<le> x" and "x < 10 ^ 21"
  obtains n where "to_fixed big 1 x = show_nat (n div 10) @ ''.'' @ show_nat (n mod 10)" "\<bar>of_nat n / 10 - x\<bar> \<le> 1/20"
proof
  let ?n = "nat (round_half_up (x * 10))"
  show "to_fixed big 1 x = show_nat (?n div 10) @ ''.'' @ show_nat (?n mod 10)"
    using assms by (simp add: to_fixed_def fixed_one [unfolded One_nat_def])
  have "rat_of_nat ?n = of_int (round_half_up (x * 10))"
    using round_half_up_nonneg [of "x * 10"] assms(1) by simp
  moreover have "\<bar>of_int (round_half_up (x * 10)) - x * 10\<bar> \<le> 1/2" by (rule round_half_up_near)
  ultimately show "\<bar>of_nat ?n / 10 - x\<bar> \<le> 1/20" by (simp add: abs_le_iff field_simps)
qed

lemma scaled_error:
  assumes "\<bar>a - v / u\<bar> \<le> 1/20" and "(0 :: rat) < u"
  shows "\<bar>a * u - v\<bar> \<le> u / 20"
proof -
  have "a * u - v = (a - v / u) * u" using assms(2) by (simp add: field_simps)
  then have "\<bar>a * u - v\<bar> = \<bar>a - v / u\<bar> * u" using assms(2) by (simp add: abs_mult)
  with assms show ?thesis by (simp add: mult_right_mono [of _ "1/20" u, simplified])
qed

text \<open>
  A size label is right to its last digit.  For any non-negative size (below 10^21 GiB) the
  label is a number of bytes within half a byte, or a number with one decimal of the largest
  binary unit that fits, within a twentieth of that unit; and a rate is the label of its size
  per second.
\<close>

theorem size_label_accurate:
  assumes "0 \<le> v" and "v < 1073741824 * 10 ^ 21"
  shows "(v < 1024 \<and> (\<exists>n. formatBytes big v = show_int n @ '' B'' \<and> \<bar>of_int n - v\<bar> \<le> 1/2))
    \<or> (\<exists>u name n. (u, name) \<in> {(1024, '' KiB''), (1048576, '' MiB''), (1073741824, '' GiB'')}
         \<and> u \<le> v \<and> (u < 1073741824 \<longrightarrow> v < u * 1024)
         \<and> formatBytes big v = show_nat (n div 10) @ ''.'' @ show_nat (n mod 10) @ name
         \<and> \<bar>of_nat n / 10 * u - v\<bar> \<le> u / 20)"
proof (cases "v < 1024")
  case True
  then have "formatBytes big v = show_int (round_half_up v) @ '' B''" by (simp add: formatBytes_def)
  with True round_half_up_near [of v] show ?thesis by blast
next
  case False
  have unit: "\<exists>u name n. (u, name) \<in> {(1024, '' KiB''), (1048576, '' MiB''), (1073741824, '' GiB'')}
      \<and> u \<le> v \<and> (u < 1073741824 \<longrightarrow> v < u * 1024)
      \<and> formatBytes big v = show_nat (n div 10) @ ''.'' @ show_nat (n mod 10) @ name
      \<and> \<bar>of_nat n / 10 * u - v\<bar> \<le> u / 20"
    if u: "(u, name) \<in> {(1024, '' KiB''), (1048576, '' MiB''), (1073741824, '' GiB'')}" "0 < u" "v / u < 10 ^ 21"
      "u \<le> v" "u < 1073741824 \<longrightarrow> v < u * 1024" and f: "formatBytes big v = to_fixed big 1 (v / u) @ name" for u name
  proof -
    have "0 \<le> v / u" using u(2) assms(1) by simp
    then obtain n where n: "to_fixed big 1 (v / u) = show_nat (n div 10) @ ''.'' @ show_nat (n mod 10)"
      "\<bar>of_nat n / 10 - v / u\<bar> \<le> 1/20" using u(3) by (rule to_fixed_one)
    from f n(1) have "formatBytes big v = show_nat (n div 10) @ ''.'' @ show_nat (n mod 10) @ name" by simp
    with u scaled_error [OF n(2) u(2)] show ?thesis by blast
  qed
  have small: "v / u < 10 ^ 21" if "0 < u" "v < u * 1024" for u
  proof -
    have "v / u < 1024" using that by (simp add: field_simps)
    also have "(1024 :: rat) \<le> 10 ^ 21" by simp
    finally show ?thesis .
  qed
  consider "1073741824 \<le> v" | "1048576 \<le> v" "v < 1073741824" | "v < 1048576" by linarith
  then show ?thesis
  proof cases
    case 1
    then have f: "formatBytes big v = to_fixed big 1 (v / 1073741824) @ '' GiB''" by (simp only: formatBytes_def if_True)
    have "v / 1073741824 < 10 ^ 21" using assms(2) by (simp only: pos_divide_less_eq zero_less_numeral mult.commute)
    from unit [OF _ _ this _ _ f] 1 show ?thesis by simp
  next
    case 2
    then have f: "formatBytes big v = to_fixed big 1 (v / 1048576) @ '' MiB''"
      by (simp only: formatBytes_def not_le [symmetric] if_True if_False)
    from unit [OF _ _ small _ _ f] 2 show ?thesis by simp
  next
    case 3
    with False have f: "formatBytes big v = to_fixed big 1 (v / 1024) @ '' KiB''" by (simp add: formatBytes_def)
    from unit [OF _ _ small _ _ f] 3 False show ?thesis by simp
  qed
qed

theorem size_label_accurate_witness:
  "formatBytes (\<lambda>_. []) 29360128 = ''28.0 MiB''
   \<and> (\<exists>u name n. (u, name) \<in> {(1024, '' KiB''), (1048576, '' MiB''), (1073741824, '' GiB'')}
        \<and> u \<le> 29360128 \<and> \<bar>of_nat n / 10 * u - (29360128 :: rat)\<bar> \<le> u / 20)"
proof -
  have "\<lfloor>561 / 2 :: rat\<rfloor> = 280" by (rule floor_unique) simp_all
  then have "formatBytes (\<lambda>_. []) 29360128 = ''28.0 MiB''"
    by (simp add: formatBytes_def to_fixed_def fixed_one [unfolded One_nat_def] round_half_up_def show_nat.simps digit_char_eval)
  moreover have "(29360128 :: rat) < 1073741824 * 10 ^ 21" by simp
  ultimately show ?thesis
    using size_label_accurate [of 29360128 "\<lambda>_. []"] by auto
qed

end
