(* ===== verification/WebNodes.thy ===== *)
theory WebNodes
  imports WebApi
begin

text \<open>
  What a React component returns: a tree of elements with the texts it shows and the handlers it
  attaches.  Class names are kept where they depend on data (\<open>Tone\<close>), static ones are not.  The
  functions below read a tree the way a user does: which texts are shown, and which actions the
  elements offer.
\<close>

section \<open>Trees\<close>

text \<open>A text is data or the translation of a message key with its arguments (next-intl).\<close>

datatype arg = AStr string | ANum int

datatype label = Plain string | Uni utext | Tr string string "(string \<times> arg) list"

datatype 'a attr =
  OnClick 'a
| OnKeys "string list" 'a
| OnType "string \<Rightarrow> 'a"
| OnPick "string \<Rightarrow> 'a"
| OnSubmit 'a
| IsDisabled bool
| IsSubmit
| IsRequired
| HasPattern "string \<Rightarrow> bool"
| HasValue string
| TitleOf label
| PlaceholderOf label
| AriaLabel label
| IsPressed bool
| Tone string

datatype 'a node = Lbl label | El string "'a attr list" "'a node list"

text \<open>\<open>{condition && element}\<close>\<close>

definition shown_if :: "bool \<Rightarrow> 'a node \<Rightarrow> 'a node list" where
  "shown_if b n = (if b then [n] else [])"

section \<open>What an element offers\<close>

fun disables :: "'a attr \<Rightarrow> bool" where
  "disables (IsDisabled b) = b"
| "disables _ = False"

definition is_disabled :: "'a attr list \<Rightarrow> bool" where
  "is_disabled ats = list_ex disables ats"

fun attr_value :: "'a attr \<Rightarrow> string option" where
  "attr_value (HasValue v) = Some v"
| "attr_value _ = None"

definition value_of :: "'a attr list \<Rightarrow> string" where
  "value_of ats = js_join [] (List.map_filter attr_value ats)"

text \<open>The platform submits a form whose fields are valid and whose submit button is enabled;
  patterns apply to fields that are not empty.\<close>

fun field_ok :: "string \<Rightarrow> 'a attr list \<Rightarrow> 'a attr \<Rightarrow> bool" where
  "field_ok v ats IsRequired = (v \<noteq> [])"
| "field_ok v ats (HasPattern p) = (v = [] \<or> p v)"
| "field_ok v ats IsSubmit = (\<not> is_disabled ats)"
| "field_ok v ats _ = True"

fun form_ok :: "'a node \<Rightarrow> bool" where
  "form_ok (Lbl l) = True"
| "form_ok (El tag ats kids) = (list_all (field_ok (value_of ats) ats) ats \<and> list_all form_ok kids)"

fun option_value :: "'a node \<Rightarrow> string option" where
  "option_value (Lbl l) = None"
| "option_value (El tag ats kids) = (if tag = ''option'' then Some (value_of ats) else None)"

fun attr_offers :: "bool \<Rightarrow> 'a node list \<Rightarrow> 'a attr \<Rightarrow> 'a set" where
  "attr_offers off kids (OnClick a) = (if off then {} else {a})"
| "attr_offers off kids (OnKeys ks a) = (if off \<or> ks = [] then {} else {a})"
| "attr_offers off kids (OnType f) = (if off then {} else range f)"
| "attr_offers off kids (OnPick f) = (if off then {} else f ` set (List.map_filter option_value kids))"
| "attr_offers off kids (OnSubmit a) = (if list_all form_ok kids then {a} else {})"
| "attr_offers off kids _ = {}"

text \<open>The actions a user can take on a tree.\<close>

fun offered :: "'a node \<Rightarrow> 'a set" where
  "offered (Lbl l) = {}"
| "offered (El tag ats kids) =
     \<Union> (set (map (attr_offers (is_disabled ats) kids) ats)) \<union> \<Union> (set (map offered kids))"

definition offers :: "'a node list \<Rightarrow> 'a set" where
  "offers ns = \<Union> (set (map offered ns))"

lemma offers_simps [simp]:
  "offers [] = {}" "offers (n # ns) = offered n \<union> offers ns" "offers (ms @ ns) = offers ms \<union> offers ns"
  by (simp_all add: offers_def)

lemma offered_El: "offered (El tag ats kids) =
     \<Union> (set (map (attr_offers (is_disabled ats) kids) ats)) \<union> offers kids"
  by (simp add: offers_def)

declare offered.simps(2) [simp del]
declare offered_El [simp]

lemma offers_map: "offers (map f xs) = (\<Union>x\<in>set xs. offered (f x))"
  by (induction xs) auto

lemma offers_concat: "offers (concat nss) = (\<Union>ns\<in>set nss. offers ns)"
  by (induction nss) auto

lemma offers_shown_if [simp]: "offers (shown_if b n) = (if b then offered n else {})"
  by (simp add: shown_if_def)

lemma disabled_simps [simp]:
  "is_disabled [] = False" "is_disabled (a # ats) = (disables a \<or> is_disabled ats)"
  by (simp_all add: is_disabled_def)

section \<open>What a tree says\<close>

fun attr_labels :: "'a attr \<Rightarrow> label list" where
  "attr_labels (TitleOf l) = [l]"
| "attr_labels (PlaceholderOf l) = [l]"
| "attr_labels (AriaLabel l) = [l]"
| "attr_labels _ = []"

fun labels :: "'a node \<Rightarrow> label list" where
  "labels (Lbl l) = [l]"
| "labels (El tag ats kids) = concat (map attr_labels ats) @ concat (map labels kids)"

definition says :: "'a node list \<Rightarrow> label list" where
  "says ns = concat (map labels ns)"

lemma says_simps [simp]:
  "says [] = []" "says (n # ns) = labels n @ says ns" "says (ms @ ns) = says ms @ says ns"
  by (simp_all add: says_def)

lemma labels_El: "labels (El tag ats kids) = concat (map attr_labels ats) @ says kids"
  by (simp add: says_def)

declare labels.simps(2) [simp del]
declare labels_El [simp]

lemma says_shown_if [simp]: "says (shown_if b n) = (if b then labels n else [])"
  by (simp add: shown_if_def)

lemma says_map: "says (map f xs) = concat (map (\<lambda>x. labels (f x)) xs)"
  by (simp add: says_def o_def)

section \<open>Results of React Query\<close>

text \<open>An error keeps the data of the last success.\<close>

record 'd query_view =
  q_error :: "api_result option"
  q_loading :: bool
  q_data :: "'d option"

text \<open>\<open>err instanceof XApiError ? err.message : t(key)\<close>\<close>

definition error_label :: "string \<Rightarrow> string \<Rightarrow> api_result \<Rightarrow> label" where
  "error_label ns key e = (case e of ApiError m n \<Rightarrow> Plain m | _ \<Rightarrow> Tr ns key [])"

end
