(* ===== verification/WebViews.thy ===== *)
theory WebViews
  imports WebNodes WebPanels WebCharts WebLive WebLogs
begin

text \<open>
  What the components of apps/web/src/components render, as trees (theory WebNodes) over the state
  the other Web theories keep.  Functions passed as props are actions passed as arguments.
  \<open>date\<close> is \<open>Date.parse\<close>, \<open>str\<close> is \<open>String(x)\<close>.
\<close>

section \<open>Actions of the page\<close>

datatype panel_tab = MetricsTab | LogsTab

datatype dialog_event = TypeEmail string | TypePassword string | SubmitLogin | DialogDo modal_event

datatype ui_action =
  PickLocale ui_locale
| OpenLogin
| ClickLogout
| Dialog dialog_event
| SelectCard string
| ClosePanel
| ShowPanel panel_tab
| ShowMetric metric_tab
| ShowRange metric_range
| ClickRestart
| OnFeed feed_event
| OnAudit audit_panel_event

section \<open>connection-badge.tsx, dependencies-badge.tsx, locale-switcher.tsx\<close>

fun connection_name :: "connection_status \<Rightarrow> string" where
  "connection_name Connecting = ''connecting''"
| "connection_name Live = ''live''"
| "connection_name Reconnecting = ''reconnecting''"

fun connection_dot :: "connection_status \<Rightarrow> string" where
  "connection_dot Connecting = ''bg-cci-slate''"
| "connection_dot Live = ''bg-cci-success''"
| "connection_dot Reconnecting = ''bg-cci-warn''"

definition connection_badge :: "connection_status \<Rightarrow> 'a node" where
  "connection_badge s = El ''span'' []
     [El ''span'' [Tone (connection_dot s), Tone (if s \<noteq> Connecting then [] else ''animate-pulse'')] [],
      Lbl (Tr ''connection'' (connection_name s) [])]"

fun dependency_dot :: "dependency_status \<Rightarrow> string" where
  "dependency_dot Up = ''bg-cci-success''"
| "dependency_dot Down = ''bg-cci-danger''"

definition dependency_item :: "string \<times> dependency_status \<Rightarrow> 'a node" where
  "dependency_item d = (let l = Tr ''dependenciesBadge'' (''name.'' @ fst d) []
     in El ''span'' [TitleOf l] [El ''span'' [Tone (dependency_dot (snd d))] [], Lbl l])"

definition dependencies_badge :: "(string \<times> dependency_status) list query_view \<Rightarrow> 'a node list" where
  "dependencies_badge q =
     (let deps = nullish (q_data q) []
      in if deps = [] then [] else [El ''span'' [] (map dependency_item deps)])"

definition upper_char :: "char \<Rightarrow> char" where
  "upper_char c = (let n = of_char c :: nat in if 97 \<le> n \<and> n \<le> 122 then char_of (n - 32) else c)"

definition locale_button :: "ui_locale \<Rightarrow> bool \<Rightarrow> ui_locale \<Rightarrow> ui_action node" where
  "locale_button current pending l =
     El ''button'' [IsDisabled pending, OnClick (PickLocale l), IsPressed (l = current)]
       [Lbl (Plain (map upper_char (locale_name l)))]"

definition locale_switcher :: "ui_locale \<Rightarrow> bool \<Rightarrow> ui_action node" where
  "locale_switcher current pending =
     El ''div'' [AriaLabel (Plain ''Idioma / Language'')] (map (locale_button current pending) [Es, En])"

section \<open>service-card.tsx\<close>

fun tone_dot :: "status_tone \<Rightarrow> string" where
  "tone_dot ToneOk = ''bg-cci-success''"
| "tone_dot ToneWarn = ''bg-cci-warn''"
| "tone_dot ToneDown = ''bg-cci-danger''"

fun tone_text :: "status_tone \<Rightarrow> string" where
  "tone_text ToneOk = ''text-cci-success''"
| "tone_text ToneWarn = ''text-cci-warn''"
| "tone_text ToneDown = ''text-cci-danger''"

fun status_key :: "container_status \<Rightarrow> string" where
  "status_key Created = ''created''"
| "status_key Running = ''running''"
| "status_key Paused = ''paused''"
| "status_key Restarting = ''restarting''"
| "status_key Exited = ''exited''"
| "status_key Dead = ''dead''"

fun health_key :: "container_health \<Rightarrow> string" where
  "health_key Healthy = ''healthy''"
| "health_key Unhealthy = ''unhealthy''"
| "health_key Starting = ''starting''"
| "health_key NoHealth = ''none''"

definition EM_DASH :: label where "EM_DASH = Uni [0x2014]"

definition service_card ::
  "(string \<Rightarrow> int) \<Rightarrow> service_state \<Rightarrow> int \<Rightarrow> bool \<Rightarrow> 'a \<Rightarrow> 'a node" where
  "service_card date s now selected onSelect =
     (let tone = statusTone (status s) (health s); uptime = formatUptime date (startedAt s) now
      in El ''article'' [IsPressed selected, OnClick onSelect, OnKeys [''Enter'', '' ''] onSelect]
        [El ''header'' []
           [El ''h3'' [] [El ''span'' [Tone (tone_dot tone)] [], El ''span'' [] [Lbl (Plain (service s))]],
            El ''span'' [] [Lbl (Plain (project s))]],
         El ''p'' [TitleOf (Plain (img s))] [Lbl (Plain (img s))],
         El ''footer'' []
           [El ''span'' [Tone (tone_text tone)]
              [Lbl (Tr ''serviceCard'' (''status.'' @ case_sum status_key health_key (statusLabel (status s) (health s))) [])],
            El ''span'' []
              [Lbl (if truthy uptime then Tr ''serviceCard'' ''uptime'' [(''uptime'', AStr (the uptime))] else EM_DASH)]]])"

section \<open>restart-button.tsx\<close>

fun button_status_key :: "button_status \<Rightarrow> string" where
  "button_status_key Idle = ''idle''"
| "button_status_key Confirm = ''confirm''"
| "button_status_key Pending = ''pending''"
| "button_status_key Done = ''done''"
| "button_status_key Error = ''error''"

definition button_tone :: "button_status \<Rightarrow> string" where
  "button_tone s =
     (if s = Error then ''border-cci-danger text-cci-danger''
      else if s = Done then ''border-cci-success text-cci-success''
      else if s = Confirm then ''border-cci-warn text-cci-warn''
      else ''border-cci-line text-cci-muted hover:bg-cci-surface-2 hover:text-cci-text'')"

definition button_title :: "button_state \<Rightarrow> 'a attr list" where
  "button_title b = (case btn_message b of None \<Rightarrow> [] | Some e \<Rightarrow> [TitleOf (error_label ''restartButton'' ''genericError'' e)])"

definition restart_button :: "auth_user \<Rightarrow> button_state \<Rightarrow> ui_action node list" where
  "restart_button user b =
     (if \<not> panel_visible RestartButton user then []
      else [El ''span'' []
        [El ''button'' ([OnClick ClickRestart, IsDisabled (btn_status b = Pending), Tone (button_tone (btn_status b))]
             @ button_title b)
           [Lbl (Tr ''restartButton'' (button_status_key (btn_status b)) [])]]])"

section \<open>log-viewer.tsx\<close>

fun source_tone :: "log_source \<Rightarrow> string" where
  "source_tone Stderr = ''text-cci-amber''"
| "source_tone Stdout = ''text-cci-text''"

definition log_row :: "log_line \<Rightarrow> 'a node" where
  "log_row l = El ''li'' []
     [El ''span'' [] [Lbl (Uni (take 8 (drop 11 (line_ts l))))],
      El ''span'' [Tone (source_tone (line_source l))] [Lbl (Uni (ltext l))]]"

definition MIDDLE_DOT :: label where "MIDDLE_DOT = Uni [0x20, 0xB7, 0x20]"

definition log_viewer :: "hook_state \<Rightarrow> bool \<Rightarrow> 'a node" where
  "log_viewer h pinned =
     (let lines = buf_lines (hook_buffer h); dropped = buf_dropped (hook_buffer h)
      in El ''div'' []
        [El ''div'' []
           [if truthy (hook_error h) then El ''p'' [] [Lbl (Plain (the (hook_error h)))]
            else if lines = [] then El ''p'' [] [Lbl (Tr ''logViewer'' ''waiting'' [])]
            else El ''ol'' [] (map log_row lines)],
         El ''footer'' []
           (El ''span'' [] (Lbl (Tr ''logViewer'' ''lineCount'' [(''count'', ANum (int (length lines)))])
              # shown_if (\<not> pinned) (El ''span'' [] [Lbl MIDDLE_DOT, Lbl (Tr ''logViewer'' ''scrollPaused'' [])]))
            # shown_if (0 < dropped) (El ''span'' [] [Lbl (Tr ''logViewer'' ''dropped'' [(''count'', ANum (int dropped))])]))])"

section \<open>metrics-panel.tsx\<close>

definition selector_button :: "bool \<Rightarrow> 'a \<Rightarrow> label \<Rightarrow> 'a node" where
  "selector_button active onClick l =
     El ''button'' [OnClick onClick, Tone (if active then ''bg-cci-surface-2 text-cci-text''
        else ''text-cci-muted hover:bg-cci-surface-2 hover:text-cci-text'')] [Lbl l]"

fun tab_message :: "metric_tab \<Rightarrow> string" where
  "tab_message TabCpu = ''tabCpu''"
| "tab_message TabRam = ''tabRam''"
| "tab_message TabNet = ''tabNet''"

definition METRIC_TABS :: "metric_tab list" where "METRIC_TABS = [TabCpu, TabRam, TabNet]"

fun range_name :: "metric_range \<Rightarrow> string" where
  "range_name OneHour = ''1h''"
| "range_name OneDay = ''24h''"
| "range_name OneWeek = ''7d''"

definition RANGES :: "metric_range list" where "RANGES = [OneHour, OneDay, OneWeek]"

text \<open>Colour and dash of a series (\<open>TABS\<close>).\<close>

definition series_stroke :: "metric_kind \<Rightarrow> string" where
  "series_stroke k = (if k = NETWORK_RX then ''var(--cci-amber)'' else ''var(--cci-slate)'')"

definition series_dash :: "metric_kind \<Rightarrow> string option" where
  "series_dash k = (if k = NETWORK_TX then Some ''6 3'' else None)"

definition stroke_attrs :: "metric_kind \<Rightarrow> 'a attr list" where
  "stroke_attrs k = Tone (series_stroke k) # (case series_dash k of None \<Rightarrow> [] | Some d \<Rightarrow> [Tone d])"

definition legend :: "(metric_kind \<times> string) list \<Rightarrow> 'a node" where
  "legend series = El ''span'' []
     (map (\<lambda>(k, l). El ''span'' [] [El ''svg'' [] [El ''line'' (stroke_attrs k) []], Lbl (Plain l)]) series)"

text \<open>The lines given to the chart, each with the values of its metric in the rows.\<close>

definition chart_lines :: "(metric_kind \<times> string) list \<Rightarrow> 'v chart_row list \<Rightarrow> (metric_kind \<times> string \<times> (rat \<times> 'v option) list) list" where
  "chart_lines series rows = map (\<lambda>(k, l). (k, l, map (\<lambda>(t, row). (t, row k)) rows)) series"

text \<open>The three parts of the panel: header, message or chart, tooltip.\<close>

definition metrics_header :: "metric_tab \<Rightarrow> metric_range \<Rightarrow> ui_action node" where
  "metrics_header tab rng =
     El ''div'' []
       [El ''div'' [] (map (\<lambda>i. selector_button (i = tab) (ShowMetric i) (Tr ''metricsPanel'' (tab_message i) [])) METRIC_TABS),
        El ''div'' []
          (shown_if (1 < length (tab_series tab)) (legend (tab_series tab))
           @ [El ''div'' [] (map (\<lambda>i. selector_button (i = rng) (ShowRange i) (Plain (range_name i))) RANGES)])]"

definition metrics_body ::
  "metric_tab \<Rightarrow> 'v chart_row list query_view \<Rightarrow> label + (metric_kind \<times> string \<times> (rat \<times> 'v option) list) list" where
  "metrics_body tab q =
     (let rows = nullish (q_data q) []
      in if q_error q \<noteq> None then Inl (Tr ''metricsPanel'' ''error'' [])
         else if rows = [] then Inl (Tr ''metricsPanel'' (if q_loading q then ''loading'' else ''empty'') [])
         else Inr (chart_lines (tab_series tab) rows))"

fun apply_format :: "(rat \<Rightarrow> string) \<Rightarrow> chart_format \<Rightarrow> rat \<Rightarrow> string" where
  "apply_format big Cores v = formatCores big v"
| "apply_format big Bytes v = formatBytes big v"
| "apply_format big Rate v = formatRate big v"

definition axis_tick :: "(rat \<Rightarrow> local_time) \<Rightarrow> metric_range \<Rightarrow> rat \<Rightarrow> string" where
  "axis_tick clock rng t = formatTick clock t (RANGE_HOURS rng)"

text \<open>The content of the tooltip for the entries recharts passes.\<close>

definition tooltip ::
  "(rat \<Rightarrow> local_time) \<Rightarrow> (rat \<Rightarrow> string) \<Rightarrow> metric_tab \<Rightarrow> metric_range \<Rightarrow> bool \<Rightarrow> (metric_kind \<times> rat) list \<Rightarrow> rat \<Rightarrow> 'a node list" where
  "tooltip clock big tab rng active payload t =
     (if \<not> active \<or> payload = [] then []
      else [El ''div'' []
        (El ''p'' [] [Lbl (Plain (axis_tick clock rng t))]
         # map (\<lambda>(k, v). El ''p'' [] [Lbl (Plain (nullish (entry_label tab k) [] @ '': '' @ apply_format big (tab_format tab) v))]) payload)])"

definition metrics_panel :: "metric_tab \<Rightarrow> metric_range \<Rightarrow> 'v chart_row list query_view \<Rightarrow> ui_action node" where
  "metrics_panel tab rng q =
     El ''div'' []
       [metrics_header tab rng,
        El ''div'' []
          [case metrics_body tab q of
             Inl l \<Rightarrow> El ''p'' [] [Lbl l]
           | Inr lines \<Rightarrow> El ''LineChart'' [] (map (\<lambda>(k, l, vs). El ''Line'' (stroke_attrs k) [Lbl (Plain l)]) lines)]]"

section \<open>container-panel.tsx\<close>

definition tab_button :: "bool \<Rightarrow> 'a \<Rightarrow> label \<Rightarrow> 'a node" where
  "tab_button active onClick l =
     El ''button'' [OnClick onClick, IsPressed active, Tone (if active then ''bg-cci-surface-2 text-cci-text''
        else ''text-cci-muted hover:bg-cci-surface-2 hover:text-cci-text'')] [Lbl l]"

definition container_panel ::
  "string \<Rightarrow> panel_tab \<Rightarrow> ui_action node list \<Rightarrow> ui_action node \<Rightarrow> ui_action node \<Rightarrow> ui_action \<Rightarrow> ui_action node" where
  "container_panel cont tab restart metrics logs onClose =
     El ''section'' []
       [El ''header'' []
          [El ''h2'' []
             [El ''span'' [] [Lbl (Plain cont)],
              El ''nav'' [AriaLabel (Tr ''containerPanel'' ''viewLabel'' [])]
                [tab_button (tab = MetricsTab) (ShowPanel MetricsTab) (Tr ''containerPanel'' ''tabMetrics'' []),
                 tab_button (tab = LogsTab) (ShowPanel LogsTab) (Tr ''containerPanel'' ''tabLogs'' [])]],
           El ''div'' [] (restart @ [El ''button'' [OnClick onClose] [Lbl (Tr ''containerPanel'' ''close'' [])]])],
        (if tab = MetricsTab then metrics else logs)]"

section \<open>Panels with a query\<close>

text \<open>\<open>t.slice(0, 19).replace("T", " ")\<close>\<close>

fun replace_first :: "char \<Rightarrow> char \<Rightarrow> string \<Rightarrow> string" where
  "replace_first a b [] = []"
| "replace_first a b (c # cs) = (if c = a then b # cs else c # replace_first a b cs)"

definition stamp :: "string \<Rightarrow> string" where
  "stamp t = replace_first (CHR ''T'') (CHR '' '') (take 19 t)"

text \<open>The error, loading and empty states the panels share, before the data itself.\<close>

definition query_state :: "string \<Rightarrow> bool \<Rightarrow> bool \<Rightarrow> 'd query_view \<Rightarrow> label option" where
  "query_state ns loading nothing q =
     (case q_error q of
        Some e \<Rightarrow> Some (error_label ns ''error'' e)
      | None \<Rightarrow> if loading then Some (Tr ns ''loading'' []) else if nothing then Some (Tr ns ''empty'' []) else None)"

definition query_body :: "label option \<Rightarrow> 'a node \<Rightarrow> 'a node" where
  "query_body st n = (case st of Some l \<Rightarrow> El ''p'' [] [Lbl l] | None \<Rightarrow> n)"

definition pager :: "string \<Rightarrow> nat \<Rightarrow> nat \<Rightarrow> 'a \<Rightarrow> 'a \<Rightarrow> 'a node" where
  "pager ns total_count offset onPrev onNext =
     El ''footer'' []
       [El ''span'' [] [Lbl (Tr ns ''total'' [(''total'', ANum (int total_count))])],
        El ''div'' []
          [El ''button'' [IsDisabled (prev_disabled offset), OnClick onPrev] [Lbl (Tr ns ''prev'' [])],
           El ''button'' [IsDisabled (next_disabled total_count offset), OnClick onNext] [Lbl (Tr ns ''next'' [])]]]"

subsection \<open>alerts-feed-panel.tsx\<close>

record feed_item = alert_item +
  receivedAt :: string
  payload :: json

fun type_name :: "alert_type \<Rightarrow> string" where
  "type_name Deploy = ''deploy''"
| "type_name ResourceAlert = ''resource_alert''"
| "type_name ContainerDown = ''container_down''"
| "type_name ContainerRestarted = ''container_restarted''"
| "type_name JobDlq = ''job_dlq''"

fun type_tone :: "alert_type \<Rightarrow> string" where
  "type_tone Deploy = ''text-cci-slate''"
| "type_tone ResourceAlert = ''text-cci-warn''"
| "type_tone ContainerDown = ''text-cci-danger''"
| "type_tone ContainerRestarted = ''text-cci-muted''"
| "type_tone JobDlq = ''text-cci-danger''"

text \<open>The value of an option of the select: empty for all types.\<close>

definition picked_type :: "string \<Rightarrow> alert_type option" where
  "picked_type v = List.find (\<lambda>t. type_name t = v) ALERT_TYPES"

definition type_option :: "alert_type \<Rightarrow> 'a node" where
  "type_option t = El ''option'' [HasValue (type_name t)] [Lbl (Tr ''alertsFeed'' (''type.'' @ type_name t) [])]"

definition summary_label :: "(json \<Rightarrow> string) \<Rightarrow> (string \<Rightarrow> string) \<Rightarrow> feed_item \<Rightarrow> label" where
  "summary_label str tr a = (case alert_summary str tr (alert_kind a) (payload a) of
     (k, args) \<Rightarrow> Tr ''alertsFeed.summary'' k (map (map_prod id AStr) args))"

definition feed_row :: "(json \<Rightarrow> string) \<Rightarrow> (string \<Rightarrow> string) \<Rightarrow> feed_item \<Rightarrow> 'a node" where
  "feed_row str tr a = El ''li'' []
     [El ''span'' [] [Lbl (Plain (stamp (receivedAt a)))],
      El ''span'' [Tone (type_tone (alert_kind a))] [Lbl (Tr ''alertsFeed'' (''type.'' @ type_name (alert_kind a)) [])],
      El ''span'' [] [Lbl (summary_label str tr a)]]"

definition feed_panel ::
  "(json \<Rightarrow> string) \<Rightarrow> (string \<Rightarrow> string) \<Rightarrow> feed_state \<Rightarrow> (nat \<times> feed_item list) query_view \<Rightarrow> ui_action node" where
  "feed_panel str tr st q =
     (let total_count = fst (nullish (q_data q) (0, [])); items = snd (nullish (q_data q) (0, []))
      in El ''section'' []
        [El ''header'' []
           [El ''h2'' [] [Lbl (Tr ''alertsFeed'' ''title'' [])],
            El ''select'' [HasValue (case feed_type st of None \<Rightarrow> [] | Some t \<Rightarrow> type_name t),
                OnPick (\<lambda>v. OnFeed (SelectType (picked_type v)))]
              (El ''option'' [HasValue []] [Lbl (Tr ''alertsFeed'' ''allTypes'' [])] # map type_option ALERT_TYPES)],
         El ''div'' []
           [query_body (query_state ''alertsFeed'' (q_loading q) (items = []) q) (El ''ol'' [] (map (feed_row str tr) items))],
         pager ''alertsFeed'' total_count (feed_offset st) (OnFeed FeedPrev) (OnFeed FeedNext)])"

subsection \<open>security-audit-panel.tsx\<close>

definition SECURITY_AUDIT_ACTIONS :: "string list" where
  "SECURITY_AUDIT_ACTIONS = [''USER_REGISTERED'', ''EMAIL_VERIFIED'', ''EMAIL_VERIFICATION_RESENT'', ''LOGIN_SUCCEEDED'',
     ''LOGIN_FAILED'', ''LOGOUT'', ''TOKEN_REUSE_DETECTED'', ''SESSION_REVOKED'', ''PASSWORD_RESET_REQUESTED'',
     ''PASSWORD_RESET_COMPLETED'', ''OAUTH_LOGIN'', ''OAUTH_ACCOUNT_LINKED'', ''ROLES_UPDATED'', ''TWO_FACTOR_ENABLED'',
     ''TWO_FACTOR_DISABLED'', ''TWO_FACTOR_BACKUP_CODE_USED'', ''TWO_FACTOR_BACKUP_CODES_REGENERATED'',
     ''CLIENT_TOKEN_ISSUED'', ''CLIENT_TOKEN_REJECTED'']"

record security_event =
  se_id :: string
  se_action :: string
  se_userId :: "string option"
  se_actorId :: "string option"
  se_ip :: "string option"
  se_createdAt :: string

definition detail :: "string \<Rightarrow> string option \<Rightarrow> 'a node list" where
  "detail before v = (if truthy v then [El ''span'' [] [Lbl (Plain (before @ the v))]] else [])"

definition security_row :: "security_event \<Rightarrow> 'a node" where
  "security_row e = El ''li'' []
     ([El ''span'' [] [Lbl (Plain (stamp (se_createdAt e)))],
       El ''span'' [] [Lbl (Plain (se_action e))]]
      @ detail ''user:'' (se_userId e) @ detail ''by:'' (se_actorId e) @ detail [] (se_ip e))"

definition picked_action :: "string \<Rightarrow> string option" where
  "picked_action v = (if v = [] then None else Some v)"

definition audit_panel_view ::
  "auth_user \<Rightarrow> audit_panel \<Rightarrow> (nat \<times> security_event list) query_view \<Rightarrow> ui_action node list" where
  "audit_panel_view user st q =
     (if \<not> panel_visible SecurityAuditPanel user then []
      else let total_count = fst (nullish (q_data q) (0, [])); events = snd (nullish (q_data q) (0, []))
      in [El ''section'' []
        [El ''header'' []
           [El ''h2'' [] [Lbl (Tr ''securityAudit'' ''title'' [])],
            El ''div'' []
              [El ''select'' [HasValue (nullish (ap_action st) []), OnPick (\<lambda>v. OnAudit (SelectAction (picked_action v)))]
                 (El ''option'' [HasValue []] [Lbl (Tr ''securityAudit'' ''allActions'' [])]
                  # map (\<lambda>a. El ''option'' [HasValue a] [Lbl (Plain a)]) SECURITY_AUDIT_ACTIONS),
               El ''input'' [HasValue (ap_user st), OnType (\<lambda>v. OnAudit (TypeUser v)),
                 PlaceholderOf (Tr ''securityAudit'' ''userIdPlaceholder'' [])] []]],
         El ''div'' []
           [query_body (query_state ''securityAudit'' (q_loading q) (events = []) q) (El ''ol'' [] (map security_row events))],
         pager ''securityAudit'' total_count (ap_skip st) (OnAudit AuditPrev) (OnAudit AuditNext)]])"

subsection \<open>taskforge-status-panel.tsx\<close>

record failed_job = job_record +
  fj_name :: string
  fj_state :: string
  fj_attempts :: nat
  fj_reason :: "string option"

fun state_tone :: "taskforge_state \<Rightarrow> string" where
  "state_tone Queued = ''text-cci-muted''"
| "state_tone Delayed = ''text-cci-muted''"
| "state_tone Active = ''text-cci-warn''"
| "state_tone Completed = ''text-cci-success''"
| "state_tone Failed = ''text-cci-danger''"
| "state_tone Dlq = ''text-cci-danger''"

definition SHOWN_STATES :: "taskforge_state list" where
  "SHOWN_STATES = [Queued, Active, Delayed, Completed, Failed, Dlq]"

definition count_item :: "(taskforge_state \<Rightarrow> nat) \<Rightarrow> taskforge_state \<Rightarrow> 'a node" where
  "count_item counts s = El ''span'' []
     [El ''span'' [Tone (state_tone s)] [Lbl (Plain (show_nat (counts s)))],
      El ''span'' [] [Lbl (Tr ''taskforgeStatus'' (''state.'' @ state_name s) [])]]"

definition job_tone :: "string \<Rightarrow> string" where
  "job_tone s = nullish (map_option state_tone (List.find (\<lambda>x. state_name x = s) SHOWN_STATES)) ''text-cci-muted''"

definition job_row :: "failed_job \<Rightarrow> 'a node" where
  "job_row j = El ''li'' []
     ([El ''span'' [Tone (job_tone (fj_state j))] [Lbl (Plain (fj_state j))],
       El ''span'' [] [Lbl (Plain (fj_name j))],
       El ''span'' [] [Lbl (Tr ''taskforgeStatus'' ''attempts'' [(''count'', ANum (int (fj_attempts j)))])]]
      @ (if truthy (fj_reason j)
         then [El ''span'' [TitleOf (Plain (the (fj_reason j)))] [Lbl (Plain (the (fj_reason j)))]] else []))"

definition taskforge_panel ::
  "auth_user \<Rightarrow> ((taskforge_state \<Rightarrow> nat) \<times> failed_job list) query_view \<Rightarrow> ui_action node list" where
  "taskforge_panel user q =
     (if \<not> panel_visible TaskforgePanel user then []
      else let counts = map_option fst (q_data q); failures = snd (nullish (q_data q) (\<lambda>_. 0, []))
      in [El ''section'' []
        ([El ''header'' [] [El ''h2'' [] [Lbl (Tr ''taskforgeStatus'' ''title'' [])]],
          El ''div'' []
            [query_body (query_state ''taskforgeStatus'' (q_loading q \<or> counts = None) False q)
              (El ''div'' [] (map (count_item (the counts)) SHOWN_STATES))]]
         @ shown_if (failures \<noteq> [])
             (El ''div'' [] [El ''p'' [] [Lbl (Tr ''taskforgeStatus'' ''recentFailures'' [])],
               El ''ol'' [] (map job_row failures)]))])"

section \<open>login-modal.tsx, user-menu.tsx\<close>

definition login_field :: "string \<Rightarrow> 'a node \<Rightarrow> 'a node" where
  "login_field key n = El ''label'' [] [El ''span'' [] [Lbl (Tr ''loginModal'' key [])], n]"

definition submit_button :: "bool \<Rightarrow> string \<Rightarrow> 'a node" where
  "submit_button submitting key =
     El ''button'' [IsSubmit, IsDisabled submitting] [Lbl (Tr ''loginModal'' (if submitting then ''submitting'' else key) [])]"

text \<open>\<open>{error && ...}\<close>: an empty message is not shown.\<close>

definition modal_error_line :: "login_modal \<Rightarrow> 'a node list" where
  "modal_error_line m =
     (case modal_error m of
        None \<Rightarrow> []
      | Some e \<Rightarrow> (let l = error_label ''loginModal'' (if modal_two_factor m then ''codeError'' else ''loginError'') e
                  in if l = Plain [] then [] else [El ''p'' [] [Lbl l]]))"

text \<open>\<open>pattern="\d{6}"\<close>, and the pattern of the platform for an email.\<close>

definition six_digits :: "string \<Rightarrow> bool" where
  "six_digits v = (length v = 6 \<and> list_all (is_digit 10) v)"

definition login_modal_view :: "(string \<Rightarrow> bool) \<Rightarrow> login_modal \<Rightarrow> string \<Rightarrow> string \<Rightarrow> ui_action node" where
  "login_modal_view email_ok m email_typed password =
     El ''div'' [OnClick (Dialog (DialogDo CloseClicked))]
       [El ''div'' []
         [El ''div'' []
            [El ''h2'' [] [Lbl (Tr ''loginModal'' ''title'' [])],
             El ''button'' [OnClick (Dialog (DialogDo CloseClicked))] [Lbl (Tr ''loginModal'' ''close'' [])]],
          (if \<not> modal_two_factor m then
             El ''form'' [OnSubmit (Dialog SubmitLogin)]
               ([login_field ''emailLabel'' (El ''input'' [HasPattern email_ok, IsRequired, HasValue email_typed,
                   OnType (\<lambda>v. Dialog (TypeEmail v))] []),
                 login_field ''passwordLabel'' (El ''input'' [IsRequired, HasValue password,
                   OnType (\<lambda>v. Dialog (TypePassword v))] [])]
                @ modal_error_line m @ [submit_button (modal_submitting m) ''submit''])
           else
             El ''form'' [OnSubmit (Dialog (DialogDo SubmitCode))]
               ([El ''p'' [] [Lbl (Tr ''loginModal'' ''twoFactorHint'' [])],
                 login_field ''codeLabel'' (El ''input'' [HasPattern six_digits, IsRequired, HasValue (modal_code m),
                   OnType (\<lambda>v. Dialog (DialogDo (CodeTyped v)))] [])]
                @ modal_error_line m @ [submit_button (modal_submitting m) ''verify'']))]]"

definition user_menu :: "auth_user \<Rightarrow> bool \<Rightarrow> ui_action node \<Rightarrow> ui_action node list" where
  "user_menu user show_login modal =
     (if sub user = None then
        El ''button'' [OnClick OpenLogin] [Lbl (Tr ''userMenu'' ''login'' [])] # shown_if show_login modal
      else [El ''div'' []
        [El ''span'' [] [Lbl (Plain (nullish (auth_user.email user) []))],
         El ''span'' [] [Lbl (Plain (role_name (user_role user)))],
         El ''button'' [OnClick ClickLogout] [Lbl (Tr ''userMenu'' ''logout'' [])]]])"

section \<open>live-dashboard.tsx\<close>

definition dashboard_subtitle :: "service_state list \<Rightarrow> label" where
  "dashboard_subtitle ss =
     (if ss \<noteq> [] then Tr ''dashboard'' ''subtitleCount'' [(''count'', ANum (int (length ss))), (''running'', ANum (int (running_count ss)))]
      else Tr ''dashboard'' ''subtitleWaiting'' [])"

definition dashboard_grid :: "(string \<Rightarrow> int) \<Rightarrow> service_state list \<Rightarrow> int \<Rightarrow> string option \<Rightarrow> ui_action node" where
  "dashboard_grid date ss now selected =
     El ''div'' [] (map (\<lambda>s. service_card date s now (Some (sname s) = selected) (SelectCard (sname s))) ss)"

end
