(* ===== verification/WebPage.thy ===== *)
theory WebPage
  imports WebViews
begin

text \<open>
  The page of the browser as one machine: components/live-dashboard.tsx and the components below
  it, over the providers of lib/live and lib/auth.  A user acts through what the rendered tree
  offers; the other events are answers, pushes and timers.  Components keep their state while
  they stay mounted at their place in the tree and lose it when they are unmounted.
\<close>

section \<open>State\<close>

record page =
  pg_live :: live_state
  pg_session :: web_session
  pg_locale :: ui_locale
  pg_switching :: "ui_locale option" \<comment> \<open>the pending transition of the switcher\<close>
  pg_selected :: "string option"
  pg_panel :: panel_tab
  pg_metric :: metric_tab
  pg_range :: metric_range
  pg_button :: button_state
  pg_hook :: hook_state
  pg_pinned :: bool
  pg_login :: bool \<comment> \<open>\<open>showLogin\<close>\<close>
  pg_modal :: login_modal
  pg_email :: string
  pg_password :: string
  pg_instance :: nat \<comment> \<open>of the dialog, one for every mount\<close>
  pg_waiting :: "(caller \<times> nat) list" \<comment> \<open>calls of dialogs, with their instance\<close>
  pg_feed :: feed_state
  pg_audit :: audit_panel
  pg_now :: int

definition page_init :: "bool \<Rightarrow> string option \<Rightarrow> ui_locale \<Rightarrow> int \<Rightarrow> page" where
  "page_init storage stored l now =
     \<lparr>pg_live = live_init, pg_session = fst (mount storage (web_init stored)), pg_locale = l, pg_switching = None,
      pg_selected = None, pg_panel = MetricsTab, pg_metric = TabCpu, pg_range = OneHour, pg_button = button_init,
      pg_hook = hook_init, pg_pinned = True, pg_login = False, pg_modal = modal_init, pg_email = [], pg_password = [],
      pg_instance = 0, pg_waiting = [], pg_feed = feed_init, pg_audit = audit_panel_init, pg_now = now\<rparr>"

abbreviation pg_user :: "page \<Rightarrow> auth_user" where "pg_user p \<equiv> ws_user (pg_session p)"

abbreviation pg_token :: "page \<Rightarrow> string option" where "pg_token p \<equiv> ws_access (pg_session p)"

section \<open>The tree\<close>

text \<open>Results of the queries (React Query).\<close>

record 'v page_queries =
  qv_deps :: "(string \<times> dependency_status) list query_view"
  qv_feed :: "(nat \<times> feed_item list) query_view"
  qv_audit :: "(nat \<times> security_event list) query_view"
  qv_taskforge :: "((taskforge_state \<Rightarrow> nat) \<times> failed_job list) query_view"
  qv_metrics :: "'v chart_row list query_view"

text \<open>What the tree takes from the platform.\<close>

record page_lib =
  pl_date :: "string \<Rightarrow> int"
  pl_str :: "json \<Rightarrow> string"
  pl_email_ok :: "string \<Rightarrow> bool"
  pl_collation :: "string \<Rightarrow> string \<Rightarrow> bool"
  pl_storage :: bool \<comment> \<open>\<open>localStorage\<close> can be used\<close>
  pl_tr :: "ui_locale \<Rightarrow> string \<Rightarrow> string" \<comment> \<open>\<open>t\<close> of \<open>alertsFeed.summary\<close>\<close>

definition page_header :: "page_lib \<Rightarrow> 'v page_queries \<Rightarrow> page \<Rightarrow> ui_action node" where
  "page_header lib q p =
     El ''header'' []
       [El ''div'' []
          [El ''h1'' [] [Lbl (Plain ''Core ''), El ''span'' [] [Lbl (Plain ''Dashboard'')]],
           El ''p'' [] [Lbl (dashboard_subtitle (lv_services (pg_live p)))]],
        El ''div'' []
          (locale_switcher (pg_locale p) (pg_switching p \<noteq> None)
           # user_menu (pg_user p) (pg_login p) (login_modal_view (pl_email_ok lib) (pg_modal p) (pg_email p) (pg_password p))
           @ dependencies_badge (qv_deps q)
           @ [connection_badge (lv_status (pg_live p))])]"

definition page_panel :: "'v page_queries \<Rightarrow> page \<Rightarrow> ui_action node list" where
  "page_panel q p =
     (if truthy (pg_selected p)
      then [El ''div'' [] [container_panel (the (pg_selected p)) (pg_panel p) (restart_button (pg_user p) (pg_button p))
              (metrics_panel (pg_metric p) (pg_range p) (qv_metrics q)) (log_viewer (pg_hook p) (pg_pinned p)) ClosePanel]]
      else [])"

definition page_ecosystem :: "page_lib \<Rightarrow> 'v page_queries \<Rightarrow> page \<Rightarrow> ui_action node" where
  "page_ecosystem lib q p =
     El ''div'' []
       (taskforge_panel (pg_user p) (qv_taskforge q)
        @ audit_panel_view (pg_user p) (pg_audit p) (qv_audit q)
        @ [feed_panel (pl_str lib) (pl_tr lib (pg_locale p)) (pg_feed p) (qv_feed q)])"

text \<open>\<open>DashboardContent\<close>\<close>

definition page_view :: "page_lib \<Rightarrow> 'v page_queries \<Rightarrow> page \<Rightarrow> ui_action node" where
  "page_view lib q p =
     El ''section'' []
       (page_header lib q p # page_panel q p
        @ [dashboard_grid (pl_date lib) (lv_services (pg_live p)) (pg_now p) (pg_selected p), page_ecosystem lib q p])"

section \<open>Mounting\<close>

definition dialog_mounted :: "page \<Rightarrow> bool" where
  "dialog_mounted p = (sub (pg_user p) = None \<and> pg_login p)"

definition panel_mounted :: "page \<Rightarrow> bool" where
  "panel_mounted p = truthy (pg_selected p)"

text \<open>The container of the mounted log viewer.\<close>

definition log_target :: "page \<Rightarrow> string option" where
  "log_target p = (if panel_mounted p \<and> pg_panel p = LogsTab then pg_selected p else None)"

text \<open>After a render: state of components that were unmounted is lost, effects whose
  dependencies changed run again.\<close>

definition fresh_dialog :: "page \<Rightarrow> page \<Rightarrow> page" where
  "fresh_dialog old p =
     (if dialog_mounted p \<and> \<not> dialog_mounted old
      then p\<lparr>pg_modal := modal_init, pg_email := [], pg_password := [], pg_instance := pg_instance p + 1\<rparr> else p)"

definition fresh_panel :: "page \<Rightarrow> page \<Rightarrow> page" where
  "fresh_panel old p =
     (if \<not> panel_mounted p
      then p\<lparr>pg_panel := MetricsTab, pg_metric := TabCpu, pg_range := OneHour, pg_button := button_init, pg_pinned := True\<rparr>
      else if pg_panel p \<noteq> pg_panel old then p\<lparr>pg_metric := TabCpu, pg_range := OneHour, pg_pinned := True\<rparr>
      else p)"

definition follow_logs :: "page \<Rightarrow> page \<Rightarrow> page \<times> hook_effect list" where
  "follow_logs old p =
     (if log_target p = log_target old \<and> (log_target p = None \<or> lv_status (pg_live p) = lv_status (pg_live old))
      then (p, [])
      else let (h, out) = hook_step (pg_hook p) (DepsChange True (log_target p) (lv_status (pg_live p) = Live))
           in (p\<lparr>pg_hook := h\<rparr>, out))"

section \<open>Events\<close>

datatype page_event =
  UserDoes ui_action int
| LiveSays live_event
| AlertPushed alert_type
| SessionSays web_event nat
| RestartReturns api_result int
| TimerFires nat int
| LogsSay hook_event
| ScrollEnds bool
| LocaleSwitched
| Tick int

datatype page_effect =
  RequestRestart string string
| SessionDid web_effect
| LiveDid live_emit
| HookDid hook_effect
| SwitchLocale ui_locale
| RefetchFeed

text \<open>A call of the dialog to the session, remembered with the instance that awaits it.\<close>

definition dialog_call :: "page_lib \<Rightarrow> page \<Rightarrow> modal_event \<Rightarrow> page \<times> page_effect list" where
  "dialog_call lib p e =
     (let (m, calls) = modal_step (pg_modal p) e; (s, out) = step_run (web_step (pl_str lib) (pl_storage lib)) (pg_session p) calls
      in (p\<lparr>pg_modal := m, pg_login := (pg_login p \<and> modal_open m), pg_session := s,
            pg_waiting := pg_waiting p @ map (\<lambda>c. (case c of CallVerify _ _ \<Rightarrow> Verifying | _ \<Rightarrow> LoggingIn, pg_instance p)) calls\<rparr>,
          map SessionDid out))"

fun user_step :: "page_lib \<Rightarrow> page \<Rightarrow> ui_action \<Rightarrow> int \<Rightarrow> page \<times> page_effect list" where
  "user_step lib p (PickLocale l) now =
     (if l = pg_locale p \<or> pg_switching p \<noteq> None then (p, []) else (p\<lparr>pg_switching := Some l\<rparr>, [SwitchLocale l]))"
| "user_step lib p OpenLogin now = (p\<lparr>pg_login := True\<rparr>, [])"
| "user_step lib p ClickLogout now =
     (let (s, out) = web_step (pl_str lib) (pl_storage lib) (pg_session p) CallLogout in (p\<lparr>pg_session := s\<rparr>, map SessionDid out))"
| "user_step lib p (Dialog (TypeEmail v)) now = (p\<lparr>pg_email := v\<rparr>, [])"
| "user_step lib p (Dialog (TypePassword v)) now = (p\<lparr>pg_password := v\<rparr>, [])"
| "user_step lib p (Dialog SubmitLogin) now =
     dialog_call lib p (SubmitCredentials (pg_email p) (pg_password p))"
| "user_step lib p (Dialog (DialogDo e)) now = dialog_call lib p e"
| "user_step lib p (SelectCard name) now = (p\<lparr>pg_selected := select_service (pg_selected p) name\<rparr>, [])"
| "user_step lib p ClosePanel now = (p\<lparr>pg_selected := None\<rparr>, [])"
| "user_step lib p (ShowPanel t) now = (p\<lparr>pg_panel := t\<rparr>, [])"
| "user_step lib p (ShowMetric t) now = (p\<lparr>pg_metric := t\<rparr>, [])"
| "user_step lib p (ShowRange r) now = (p\<lparr>pg_range := r\<rparr>, [])"
| "user_step lib p ClickRestart now =
     (let (b, sent) = on_click (pg_token p) now (pg_button p)
      in (p\<lparr>pg_button := b\<rparr>, if sent then [RequestRestart (the (pg_selected p)) (the (pg_token p))] else []))"
| "user_step lib p (OnFeed e) now =
     (let (f, again) = feed_step (pg_feed p) e in (p\<lparr>pg_feed := f\<rparr>, if again then [RefetchFeed] else []))"
| "user_step lib p (OnAudit e) now = (p\<lparr>pg_audit := audit_panel_step (pg_audit p) e\<rparr>, [])"


text \<open>The promise of a dialog call settles: \<open>onClose\<close> acts on the menu, the rest on the instance that called.\<close>

definition dialog_settled :: "page \<Rightarrow> nat \<Rightarrow> caller \<Rightarrow> caller_result \<Rightarrow> page" where
  "dialog_settled p i who r =
     (let m = fst (modal_step (pg_modal p) (if who = Verifying then VerifyReturned r else LoginReturned r));
          closes = (case r of Succeeded \<Rightarrow> True | AskCode _ \<Rightarrow> who = Verifying | FailedWith _ \<Rightarrow> False)
      in p\<lparr>pg_waiting := remove_nth i (pg_waiting p),
           pg_login := (pg_login p \<and> \<not> closes),
           pg_modal := (if snd (pg_waiting p ! i) = pg_instance p then m else pg_modal p)\<rparr>)"

fun caller_done :: "web_effect \<Rightarrow> (caller \<times> caller_result) option" where
  "caller_done (CallerDone who r) = Some (who, r)"
| "caller_done _ = None"

definition answered_step :: "page_lib \<Rightarrow> page \<Rightarrow> web_event \<Rightarrow> nat \<Rightarrow> page \<times> page_effect list" where
  "answered_step lib p e i =
     (let (s, out) = web_step (pl_str lib) (pl_storage lib) (pg_session p) e
      in (fold (\<lambda>(who, r) p. dialog_settled p i who r) (List.map_filter caller_done out) (p\<lparr>pg_session := s\<rparr>),
          map SessionDid out))"

fun event_step :: "page_lib \<Rightarrow> page \<Rightarrow> page_event \<Rightarrow> page \<times> page_effect list" where
  "event_step lib p (UserDoes a now) = user_step lib p a now"
| "event_step lib p (LiveSays e) =
     (let (l, out) = live_step (pl_collation lib) (pg_live p) e in (p\<lparr>pg_live := l\<rparr>, map LiveDid out))"
| "event_step lib p (AlertPushed t) = (p, if snd (feed_step (pg_feed p) (NewAlert t)) then [RefetchFeed] else [])"
| "event_step lib p (SessionSays e i) = answered_step lib p e i"
| "event_step lib p (RestartReturns r now) = (p\<lparr>pg_button := call_returned r now (pg_button p)\<rparr>, [])"
| "event_step lib p (TimerFires i now) = (p\<lparr>pg_button := button_timer_fires i (pg_button p)\<rparr>, [])"
| "event_step lib p (LogsSay e) = (let (h, out) = hook_step (pg_hook p) e in (p\<lparr>pg_hook := h\<rparr>, map HookDid out))"
| "event_step lib p (ScrollEnds b) = (p\<lparr>pg_pinned := b\<rparr>, [])"
| "event_step lib p LocaleSwitched = (p\<lparr>pg_locale := nullish (pg_switching p) (pg_locale p), pg_switching := None\<rparr>, [])"
| "event_step lib p (Tick now) = (p\<lparr>pg_now := now\<rparr>, [])"

text \<open>The effect of the feed on the connection status.\<close>

definition feed_follows :: "page \<Rightarrow> page \<Rightarrow> page_effect list" where
  "feed_follows old p =
     (if lv_status (pg_live p) \<noteq> lv_status (pg_live old)
        \<and> snd (feed_step (pg_feed p) (StatusChanged (lv_status (pg_live p) = Live)))
      then [RefetchFeed] else [])"

definition page_step :: "page_lib \<Rightarrow> page \<Rightarrow> page_event \<Rightarrow> page \<times> page_effect list" where
  "page_step lib p e =
     (let (p1, out) = event_step lib p e;
          (p2, hook) = follow_logs p (fresh_panel p (fresh_dialog p p1))
      in (p2, out @ feed_follows p p1 @ map HookDid hook))"

text \<open>What may happen: the user does what the tree offers; an answer to a dialog belongs to a call
  that waits.\<close>

definition answers_dialog :: "page_lib \<Rightarrow> page \<Rightarrow> web_event \<Rightarrow> nat \<Rightarrow> bool" where
  "answers_dialog lib p e i =
     list_all (\<lambda>(who, r). i < length (pg_waiting p) \<and> fst (pg_waiting p ! i) = who)
       (List.map_filter caller_done (snd (web_step (pl_str lib) (pl_storage lib) (pg_session p) e)))"

fun from_outside :: "web_event \<Rightarrow> bool" where
  "from_outside RenewTick = True"
| "from_outside (Answer i http) = True"
| "from_outside _ = False"

fun page_enabled :: "page_lib \<Rightarrow> 'v page_queries \<Rightarrow> page \<Rightarrow> page_event \<Rightarrow> bool" where
  "page_enabled lib q p (UserDoes a now) = (a \<in> offered (page_view lib q p))"
| "page_enabled lib q p (LiveSays e) = live_enabled (pg_live p) e"
| "page_enabled lib q p (SessionSays e i) = (from_outside e \<and> web_enabled (pg_session p) e \<and> answers_dialog lib p e i)"
| "page_enabled lib q p (RestartReturns r now) = button_enabled (pg_button p) (CallReturns r now)"
| "page_enabled lib q p (TimerFires i now) = button_enabled (pg_button p) (ButtonTimer i now)"
| "page_enabled lib q p (LogsSay e) = (case e of DepsChange _ _ _ \<Rightarrow> False | _ \<Rightarrow> True)"
| "page_enabled lib q p (ScrollEnds b) = (log_target p \<noteq> None)"
| "page_enabled lib q p LocaleSwitched = (pg_switching p \<noteq> None)"
| "page_enabled lib q p _ = True"

inductive page_run ::
  "page_lib \<Rightarrow> string option \<Rightarrow> ui_locale \<Rightarrow> int \<Rightarrow> page_event list \<Rightarrow> page \<Rightarrow> page_effect list \<Rightarrow> bool"
  for lib stored l now where
  page_start: "page_run lib stored l now [] (page_init (pl_storage lib) stored l now)
     (map SessionDid (snd (mount (pl_storage lib) (web_init stored))))"
| page_more: "\<lbrakk>page_run lib stored l now es p out; page_enabled lib (q :: rat page_queries) p e; page_step lib p e = (p1, out1)\<rbrakk>
    \<Longrightarrow> page_run lib stored l now (es @ [e]) p1 (out @ out1)"

end
