(* ===== verification/WebPageLaws.thy ===== *)
theory WebPageLaws
  imports WebPage
begin

text \<open>
  What holds of the page: which controls it shows to whom, how it runs the providers below it, and
  when a restart request leaves it.
\<close>

section \<open>Who is offered what\<close>

named_theorems view_defs \<open>definitions of the components\<close>

lemmas [view_defs] = connection_badge_def dependencies_badge_def dependency_item_def locale_switcher_def
  locale_button_def service_card_def restart_button_def button_title_def log_viewer_def log_row_def
  selector_button_def legend_def stroke_attrs_def metrics_header_def metrics_panel_def tab_button_def
  container_panel_def query_body_def pager_def type_option_def feed_row_def feed_panel_def detail_def
  security_row_def audit_panel_view_def count_item_def job_row_def taskforge_panel_def login_field_def
  submit_button_def modal_error_line_def login_modal_view_def user_menu_def dashboard_grid_def
  page_header_def page_panel_def page_ecosystem_def page_view_def

lemma offered_texts [simp]:
  "offered (connection_badge s) = {}" "offers (dependencies_badge d) = {}" "offered (log_viewer h pinned) = {}"
  "offered (feed_row str tr a) = {}" "offered (security_row e) = {}" "offered (job_row j) = {}"
  "offered (count_item c t) = {}" "offered (legend series) = {}" "offers (modal_error_line m) = {}"
  by (auto simp: view_defs Let_def offers_map split: option.splits)

lemma offered_lists [simp]:
  "offers (map (feed_row str tr) as) = {}" "offers (map security_row es) = {}" "offers (map job_row js) = {}"
  "offers (map (count_item c) ts) = {}"
  by (simp_all add: offers_map)

lemma offers_taskforge [simp]: "offers (taskforge_panel user q) = {}"
  by (simp add: taskforge_panel_def query_body_def Let_def split: option.splits)

lemma offers_restart_button:
  "offers (restart_button user b) = (if panel_visible RestartButton user \<and> btn_status b \<noteq> Pending then {ClickRestart} else {})"
  by (auto simp: restart_button_def button_title_def split: option.splits)

lemma offered_grid: "offered (dashboard_grid date ss now sel) = (SelectCard \<circ> sname) ` set ss"
  by (auto simp: dashboard_grid_def service_card_def Let_def offers_map)

lemma offered_metrics: "offered (metrics_panel tab r q) = range ShowMetric \<union> range ShowRange"
proof -
  have tabs: "set METRIC_TABS = UNIV" by (auto simp: METRIC_TABS_def) (metis metric_tab.exhaust)
  have ranges: "set RANGES = UNIV" by (auto simp: RANGES_def) (metis metric_range.exhaust)
  show ?thesis
    by (auto simp: metrics_panel_def metrics_header_def selector_button_def stroke_attrs_def offers_map tabs ranges
        split: sum.splits option.splits)
qed

lemma offered_dialog: "offered (login_modal_view ok m e w) \<subseteq> range Dialog"
  by (auto simp: login_modal_view_def login_field_def submit_button_def)

lemma offered_switcher: "offered (locale_switcher l pending) \<subseteq> range PickLocale"
  by (auto simp: locale_switcher_def locale_button_def)

lemma offers_menu: "offers (user_menu user sh (login_modal_view ok m e w)) \<subseteq> {OpenLogin, ClickLogout} \<union> range Dialog"
  using offered_dialog [of ok m e w] by (auto simp: user_menu_def)

lemma offered_feed: "offered (feed_panel str tr st q) \<subseteq> range OnFeed"
  by (auto simp: feed_panel_def pager_def query_body_def type_option_def Let_def offers_map split: option.splits)

lemma offers_audit: "offers (audit_panel_view user st q) \<subseteq> range OnAudit"
  by (auto simp: audit_panel_view_def pager_def query_body_def Let_def offers_map split: option.splits)

text \<open>The actions of the page by the parts that offer them.\<close>

lemma offered_page:
  "offered (page_view lib q p) =
     offered (page_header lib q p) \<union> offers (page_panel q p) \<union> (SelectCard \<circ> sname) ` set (lv_services (pg_live p))
     \<union> offered (page_ecosystem lib q p)"
  by (auto simp: page_view_def offered_grid)

lemma offered_header: "offered (page_header lib q p) \<subseteq> range PickLocale \<union> {OpenLogin, ClickLogout} \<union> range Dialog"
  using offered_switcher [of "pg_locale p" "pg_switching p \<noteq> None"] offers_menu
  by (auto simp: page_header_def; blast)

lemma offered_ecosystem: "offered (page_ecosystem lib q p) \<subseteq> range OnFeed \<union> range OnAudit"
  using offered_feed offers_audit by (auto simp: page_ecosystem_def; blast)

lemma offers_panel:
  "offers (page_panel q p) =
     (if panel_mounted p
      then offers (restart_button (pg_user p) (pg_button p)) \<union> range ShowPanel \<union> {ClosePanel}
        \<union> (if pg_panel p = MetricsTab then range ShowMetric \<union> range ShowRange else {})
      else {})"
proof -
  have tabs: "range ShowPanel = {ShowPanel MetricsTab, ShowPanel LogsTab}"
    by (auto intro: panel_tab.exhaust)
  show ?thesis
    by (auto simp: page_panel_def container_panel_def tab_button_def panel_mounted_def offered_metrics tabs)
qed

lemma restart_offered:
  "ClickRestart \<in> offered (page_view lib q p) \<longleftrightarrow>
     panel_mounted p \<and> panel_visible RestartButton (pg_user p) \<and> btn_status (pg_button p) \<noteq> Pending"
  using offered_header [of lib q p] offered_ecosystem [of lib q p]
  by (auto simp: offered_page offers_panel offers_restart_button split: if_splits)

lemma card_offered:
  "SelectCard n \<in> offered (page_view lib q p) \<longleftrightarrow> n \<in> sname ` set (lv_services (pg_live p))"
  using offered_header [of lib q p] offered_ecosystem [of lib q p]
  by (auto simp: offered_page offers_panel offers_restart_button split: if_splits)

section \<open>Which panels are shown\<close>

text \<open>The name space of the messages a component uses.\<close>

fun label_ns :: "label \<Rightarrow> string" where
  "label_ns (Tr ns key args) = ns"
| "label_ns _ = []"

definition speaks :: "string set \<Rightarrow> label list \<Rightarrow> bool" where
  "speaks nss ls \<longleftrightarrow> label_ns ` set ls \<subseteq> insert [] nss"

lemma speaks_simps [simp]:
  "speaks nss []" "speaks nss (l # ls) \<longleftrightarrow> label_ns l \<in> insert [] nss \<and> speaks nss ls"
  "speaks nss (ls @ ms) \<longleftrightarrow> speaks nss ls \<and> speaks nss ms"
  "speaks nss (concat lss) \<longleftrightarrow> list_all (speaks nss) lss"
  "speaks nss (map f xs) \<longleftrightarrow> (\<forall>x\<in>set xs. label_ns (f x) \<in> insert [] nss)"
  by (auto simp: speaks_def list_all_iff)

lemma speaks_title: "speaks nss ls \<Longrightarrow> ns \<notin> insert [] nss \<Longrightarrow> Tr ns key args \<notin> set ls"
  by (force simp: speaks_def)

lemma label_ns_error [simp]: "label_ns (error_label ns key e) \<in> {[], ns}"
  by (simp add: error_label_def split: api_result.splits)

lemma speaks_cards: "speaks {''serviceCard''} (labels (dashboard_grid date ss now sel))"
  by (simp add: dashboard_grid_def service_card_def EM_DASH_def Let_def says_map list_all_iff)

lemma speaks_mono: "speaks nss ls \<Longrightarrow> nss \<subseteq> nss' \<Longrightarrow> speaks nss' ls"
  by (auto simp: speaks_def)

lemma speaks_restart: "speaks {''restartButton''} (says (restart_button user b))"
  using label_ns_error [of "''restartButton''" "''genericError''"]
  by (auto simp: restart_button_def button_title_def split: option.splits)

lemma speaks_metrics: "speaks {''metricsPanel''} (labels (metrics_panel tab r q))"
  by (auto simp: metrics_panel_def metrics_header_def metrics_body_def selector_button_def legend_def stroke_attrs_def
      Let_def says_map list_all_iff split: option.splits sum.splits if_splits)

lemma speaks_logs: "speaks {''logViewer''} (labels (log_viewer h pinned))"
  by (simp add: log_viewer_def log_row_def MIDDLE_DOT_def Let_def says_map list_all_iff)

lemma speaks_panel:
  "speaks {''containerPanel'', ''restartButton'', ''metricsPanel'', ''logViewer''} (says (page_panel (q :: 'v page_queries) p))"
    (is "speaks ?N _")
proof -
  have "speaks ?N (says (restart_button user b))" for user b by (rule speaks_mono [OF speaks_restart]) simp
  moreover have "speaks ?N (labels (metrics_panel tab r mq))" for tab r and mq :: "'v chart_row list query_view" by (rule speaks_mono [OF speaks_metrics]) simp
  moreover have "speaks ?N (labels (log_viewer h pinned :: ui_action node))" for h pinned by (rule speaks_mono [OF speaks_logs]) simp
  ultimately show ?thesis by (simp add: page_panel_def container_panel_def tab_button_def)
qed

lemma speaks_dialog: "speaks {''loginModal''} (labels (login_modal_view ok m e w))"
  using label_ns_error [of "''loginModal''"]
  by (auto simp: login_modal_view_def login_field_def submit_button_def modal_error_line_def Let_def split: option.splits)

lemma speaks_header:
  "speaks {''dashboard'', ''userMenu'', ''loginModal'', ''dependenciesBadge'', ''connection''} (labels (page_header lib q p))"
proof -
  have "speaks {''dashboard'', ''userMenu'', ''loginModal'', ''dependenciesBadge'', ''connection''}
      (labels (login_modal_view ok m e w))" for ok m e w
    using speaks_dialog [of ok m e w] by (auto simp: speaks_def)
  then show ?thesis
    by (auto simp: page_header_def dashboard_subtitle_def locale_switcher_def locale_button_def user_menu_def
        dependencies_badge_def dependency_item_def connection_badge_def Let_def says_map list_all_iff shown_if_def)
qed

lemma speaks_feed: "speaks {''alertsFeed'', ''alertsFeed.summary''} (labels (feed_panel str tr st q))"
  using label_ns_error [of "''alertsFeed''"]
  by (auto simp: feed_panel_def query_body_def query_state_def pager_def type_option_def feed_row_def summary_label_def
      Let_def says_map list_all_iff split: option.splits prod.splits if_splits)

lemma speaks_taskforge: "speaks {''taskforgeStatus''} (says (taskforge_panel user q))"
  using label_ns_error [of "''taskforgeStatus''"]
  by (auto simp: taskforge_panel_def query_body_def query_state_def count_item_def job_row_def
      Let_def says_map list_all_iff split: option.splits if_splits)

lemma speaks_audit: "speaks {''securityAudit''} (says (audit_panel_view user st q))"
  using label_ns_error [of "''securityAudit''"]
  by (auto simp: audit_panel_view_def query_body_def query_state_def pager_def security_row_def detail_def
      Let_def says_map list_all_iff split: option.splits if_splits)

lemma taskforge_title:
  "Tr ''taskforgeStatus'' ''title'' [] \<in> set (says (taskforge_panel user q)) \<longleftrightarrow> panel_visible TaskforgePanel user"
  by (simp add: taskforge_panel_def Let_def)

lemma audit_title:
  "Tr ''securityAudit'' ''title'' [] \<in> set (says (audit_panel_view user st q)) \<longleftrightarrow> panel_visible SecurityAuditPanel user"
  by (simp add: audit_panel_view_def Let_def)

lemma labels_page:
  "labels (page_view lib q p) = labels (page_header lib q p) @ says (page_panel q p)
     @ labels (dashboard_grid (pl_date lib) (lv_services (pg_live p)) (pg_now p) (pg_selected p))
     @ says (taskforge_panel (pg_user p) (qv_taskforge q))
     @ says (audit_panel_view (pg_user p) (pg_audit p) (qv_audit q))
     @ labels (feed_panel (pl_str lib) (pl_tr lib (pg_locale p)) (pg_feed p) (qv_feed q))"
  by (simp add: page_view_def page_ecosystem_def)

lemma titles_of_page:
  "Tr ''taskforgeStatus'' ''title'' [] \<in> set (labels (page_view lib q p)) \<longleftrightarrow> panel_visible TaskforgePanel (pg_user p)"
  "Tr ''securityAudit'' ''title'' [] \<in> set (labels (page_view lib q p)) \<longleftrightarrow> panel_visible SecurityAuditPanel (pg_user p)"
  by (simp_all add: labels_page taskforge_title audit_title speaks_title [OF speaks_header] speaks_title [OF speaks_panel]
      speaks_title [OF speaks_cards] speaks_title [OF speaks_taskforge] speaks_title [OF speaks_audit] speaks_title [OF speaks_feed])

lemma guard_of_panel:
  assumes "guard_route jwt env header AuthMe = Inr user"
  shows "guard_route jwt env header (panel_route c) = Inr user \<longleftrightarrow> panel_visible c user"
  using assms by (cases c) (auto simp: guard_route_def min_role_def canActivate_def Let_def panel_visible_def split: if_splits)

text \<open>
  C38: the page offers what the server allows.  When the user shown is the one the API reports
  for the authorization header of the browser, then the restart button can be pressed exactly
  when a container is selected, no restart is pending and the guard lets that header through to
  the restart route; and the page shows the taskforge panel and the security log exactly when
  the guard lets it through to the routes they call.
\<close>

theorem page_offers_what_the_guard_admits:
  assumes "guard_route jwt env header AuthMe = Inr (pg_user p)"
  shows "(ClickRestart \<in> offered (page_view lib q p) \<longleftrightarrow>
        truthy (pg_selected p) \<and> btn_status (pg_button p) \<noteq> Pending
        \<and> guard_route jwt env header RestartAction = Inr (pg_user p))
    \<and> (Tr ''taskforgeStatus'' ''title'' [] \<in> set (labels (page_view lib q p)) \<longleftrightarrow>
        guard_route jwt env header TaskforgeStatus = Inr (pg_user p))
    \<and> (Tr ''securityAudit'' ''title'' [] \<in> set (labels (page_view lib q p)) \<longleftrightarrow>
        guard_route jwt env header SecurityAuditList = Inr (pg_user p))"
  using guard_of_panel [OF assms, of RestartButton] guard_of_panel [OF assms, of TaskforgePanel]
    guard_of_panel [OF assms, of SecurityAuditPanel]
  by (auto simp: restart_offered titles_of_page panel_mounted_def)

end
