(* ===== verification/WebPageRuns.thy ===== *)
theory WebPageRuns
  imports WebPageLaws
begin

text \<open>
  Runs of the page: each provider below it goes through a run of its own machine, and what has to
  happen before a restart request leaves the browser.
\<close>

section \<open>The parts of a step\<close>

fun live_part :: "page_event \<Rightarrow> live_event option" where
  "live_part (LiveSays e) = Some e"
| "live_part _ = None"

fun live_out :: "page_effect \<Rightarrow> live_emit option" where
  "live_out (LiveDid e) = Some e"
| "live_out _ = None"

fun session_out :: "page_effect \<Rightarrow> web_effect option" where
  "session_out (SessionDid e) = Some e"
| "session_out _ = None"

fun hook_out :: "page_effect \<Rightarrow> hook_effect option" where
  "hook_out (HookDid e) = Some e"
| "hook_out _ = None"

fun restart_out :: "page_effect \<Rightarrow> (string \<times> string) option" where
  "restart_out (RequestRestart c t) = Some (c, t)"
| "restart_out _ = None"

lemma parts_out [simp]:
  "List.map_filter live_out (map LiveDid ls) = ls" "List.map_filter live_out (map SessionDid ss) = []"
  "List.map_filter live_out (map HookDid hs) = []"
  "List.map_filter session_out (map SessionDid ss) = ss" "List.map_filter session_out (map LiveDid ls) = []"
  "List.map_filter session_out (map HookDid hs) = []"
  "List.map_filter hook_out (map HookDid hs) = hs" "List.map_filter hook_out (map LiveDid ls) = []"
  "List.map_filter hook_out (map SessionDid ss) = []"
  "List.map_filter restart_out (map HookDid hs) = []" "List.map_filter restart_out (map LiveDid ls) = []"
  "List.map_filter restart_out (map SessionDid ss) = []"
  by (simp_all add: map_filter_none map_filter_some [where h = "\<lambda>x. x", simplified])

lemma feed_follows_parts [simp]:
  "List.map_filter live_out (feed_follows old p) = []" "List.map_filter session_out (feed_follows old p) = []"
  "List.map_filter hook_out (feed_follows old p) = []" "List.map_filter restart_out (feed_follows old p) = []"
  by (simp_all add: feed_follows_def List.map_filter_simps)

lemma fresh_frame [simp]:
  "pg_live (fresh_dialog old p) = pg_live p" "pg_live (fresh_panel old p) = pg_live p"
  "pg_session (fresh_dialog old p) = pg_session p" "pg_session (fresh_panel old p) = pg_session p"
  "pg_hook (fresh_dialog old p) = pg_hook p" "pg_hook (fresh_panel old p) = pg_hook p"
  "pg_selected (fresh_dialog old p) = pg_selected p" "pg_selected (fresh_panel old p) = pg_selected p"
  "pg_button (fresh_dialog old p) = pg_button p" "pg_panel (fresh_dialog old p) = pg_panel p"
  by (simp_all add: fresh_dialog_def fresh_panel_def)

lemma follow_logs_frame [simp]:
  "pg_live (fst (follow_logs old p)) = pg_live p" "pg_session (fst (follow_logs old p)) = pg_session p"
  "pg_selected (fst (follow_logs old p)) = pg_selected p" "pg_button (fst (follow_logs old p)) = pg_button p"
  by (simp_all add: follow_logs_def split_beta Let_def)

lemma dialog_settled_frame [simp]:
  "pg_live (dialog_settled p i who r) = pg_live p" "pg_session (dialog_settled p i who r) = pg_session p"
  "pg_hook (dialog_settled p i who r) = pg_hook p" "pg_button (dialog_settled p i who r) = pg_button p"
  "pg_selected (dialog_settled p i who r) = pg_selected p"
  by (simp_all add: dialog_settled_def Let_def)

lemma settle_all_frame [simp]:
  "pg_live (fold (\<lambda>(who, r) p. dialog_settled p i who r) xs p) = pg_live p"
  "pg_session (fold (\<lambda>(who, r) p. dialog_settled p i who r) xs p) = pg_session p"
  "pg_hook (fold (\<lambda>(who, r) p. dialog_settled p i who r) xs p) = pg_hook p"
  "pg_button (fold (\<lambda>(who, r) p. dialog_settled p i who r) xs p) = pg_button p"
  "pg_selected (fold (\<lambda>(who, r) p. dialog_settled p i who r) xs p) = pg_selected p"
  by (induction xs arbitrary: p) auto

lemma page_step_parts:
  assumes "event_step lib p e = (p1, out1)" and "page_step lib p e = (p2, out2)"
  shows "pg_live p2 = pg_live p1" "pg_session p2 = pg_session p1" "pg_selected p2 = pg_selected p1"
    "pg_button p2 \<in> {pg_button p1, button_init}"
    "List.map_filter live_out out2 = List.map_filter live_out out1"
    "List.map_filter session_out out2 = List.map_filter session_out out1"
    "List.map_filter restart_out out2 = List.map_filter restart_out out1"
  using assms by (auto simp: page_step_def split_beta Let_def) (auto simp: fresh_panel_def)

section \<open>The session\<close>

lemma modal_calls:
  "snd (modal_step m e) = [] \<or> (\<exists>c. snd (modal_step m e) = [c] \<and> c \<noteq> Mount \<and> web_enabled s c)"
  by (cases e) auto

text \<open>The events of the session in one step of the page.\<close>

definition session_events :: "page \<Rightarrow> page_event \<Rightarrow> web_event list" where
  "session_events p e = (case e of
     UserDoes ClickLogout t \<Rightarrow> [CallLogout]
   | UserDoes (Dialog SubmitLogin) t \<Rightarrow> [CallLogin (pg_email p) (pg_password p)]
   | UserDoes (Dialog (DialogDo m)) t \<Rightarrow> snd (modal_step (pg_modal p) m)
   | SessionSays w i \<Rightarrow> [w]
   | _ \<Rightarrow> [])"

lemma session_part_step:
  assumes "event_step lib p e = (p1, out1)"
  shows "step_run (web_step (pl_str lib) (pl_storage lib)) (pg_session p) (session_events p e)
     = (pg_session p1, List.map_filter session_out out1)"
proof (cases e)
  case (UserDoes a now)
  then show ?thesis
    using assms
  proof (cases a)
    case (Dialog d)
    then show ?thesis using assms UserDoes
      by (cases d) (auto simp: session_events_def dialog_call_def split_beta Let_def List.map_filter_simps)
  qed (auto simp: session_events_def split_beta Let_def List.map_filter_simps split: if_splits)
qed (use assms in \<open>auto simp: session_events_def answered_step_def split_beta Let_def List.map_filter_simps\<close>)

lemma session_events_ok:
  assumes "page_enabled lib q p e"
  shows "session_events p e = [] \<or> (\<exists>c. session_events p e = [c] \<and> c \<noteq> Mount \<and> web_enabled (pg_session p) c)"
proof (cases e)
  case (UserDoes a now)
  then show ?thesis
  proof (cases a)
    case (Dialog d)
    then show ?thesis using UserDoes modal_calls by (cases d) (auto simp: session_events_def)
  qed (auto simp: session_events_def)
next
  case (SessionSays w i)
  with assms show ?thesis by (cases w) (auto simp: session_events_def)
qed (auto simp: session_events_def)

lemma web_run_extend:
  assumes "web_run str storage (\<lambda>_ _. True) stored ws s out"
    and "cs = [] \<or> (\<exists>c. cs = [c] \<and> c \<noteq> Mount \<and> web_enabled s c)"
    and "step_run (web_step str storage) s cs = (s1, out1)"
  shows "web_run str storage (\<lambda>_ _. True) stored (ws @ cs) s1 (out @ out1)"
  using assms by (auto simp: split_beta Let_def intro!: web_more)

section \<open>The log hook\<close>

lemma follow_logs_run:
  "\<exists>hs. step_run hook_step (pg_hook p) hs = (pg_hook (fst (follow_logs old p)), snd (follow_logs old p))"
proof (cases "log_target p = log_target old \<and> (log_target p = None \<or> lv_status (pg_live p) = lv_status (pg_live old))")
  case True
  then have "follow_logs old p = (p, [])" unfolding follow_logs_def by (rule if_P)
  then show ?thesis by (intro exI [of _ "[]"]) simp
next
  case False
  let ?e = "DepsChange True (log_target p) (lv_status (pg_live p) = Live)"
  have "follow_logs old p = (p\<lparr>pg_hook := fst (hook_step (pg_hook p) ?e)\<rparr>, snd (hook_step (pg_hook p) ?e))"
    unfolding follow_logs_def if_not_P [OF False] by (simp add: split_beta Let_def del: hook_step.simps)
  then show ?thesis by (intro exI [of _ "[?e]"]) (simp add: split_beta Let_def del: hook_step.simps)
qed

definition hook_events :: "page_event \<Rightarrow> hook_event list" where
  "hook_events e = (case e of LogsSay h \<Rightarrow> [h] | _ \<Rightarrow> [])"

lemma hook_part_step:
  assumes "event_step lib p e = (p1, out1)"
  shows "step_run hook_step (pg_hook p) (hook_events e) = (pg_hook p1, List.map_filter hook_out out1)"
proof (cases e)
  case (UserDoes a now)
  then show ?thesis
  proof (cases a)
    case (Dialog d)
    then show ?thesis using assms UserDoes
      by (cases d) (auto simp: hook_events_def dialog_call_def split_beta Let_def List.map_filter_simps)
  qed (use assms UserDoes in \<open>auto simp: hook_events_def split_beta Let_def List.map_filter_simps split: if_splits\<close>)
qed (use assms in \<open>auto simp: hook_events_def answered_step_def split_beta Let_def List.map_filter_simps simp del: hook_step.simps\<close>)

lemma step_run_join:
  "step_run f s es = (s1, o1) \<Longrightarrow> step_run f s1 fs = (s2, o2) \<Longrightarrow> step_run f s (es @ fs) = (s2, o1 @ o2)"
  by (simp add: step_run_append)

lemma hook_step_page:
  assumes "page_step lib p e = (p2, out2)"
  shows "\<exists>hs. step_run hook_step (pg_hook p) hs = (pg_hook p2, List.map_filter hook_out out2)"
proof -
  obtain p1 out1 where e: "event_step lib p e = (p1, out1)" by fastforce
  let ?p = "fresh_panel p (fresh_dialog p p1)"
  obtain hs where "step_run hook_step (pg_hook p1) hs = (pg_hook (fst (follow_logs p ?p)), snd (follow_logs p ?p))"
    using follow_logs_run [of ?p p] by auto
  from step_run_join [OF hook_part_step [OF e] this] assms
  show ?thesis by (auto simp: page_step_def e split_beta Let_def)
qed

section \<open>The page runs its providers\<close>

lemma live_part_step:
  assumes "event_step lib p e = (p1, out1)"
  shows "case live_part e of
      None \<Rightarrow> pg_live p1 = pg_live p \<and> List.map_filter live_out out1 = []
    | Some l \<Rightarrow> live_step (pl_collation lib) (pg_live p) l = (pg_live p1, List.map_filter live_out out1)"
proof (cases e)
  case (UserDoes a now)
  then show ?thesis
  proof (cases a)
    case (Dialog d)
    then show ?thesis using assms UserDoes
      by (cases d) (auto simp: dialog_call_def split_beta Let_def List.map_filter_simps)
  qed (use assms UserDoes in \<open>auto simp: split_beta Let_def List.map_filter_simps split: if_splits\<close>)
qed (use assms in \<open>auto simp: answered_step_def split_beta Let_def List.map_filter_simps\<close>)


section \<open>Restarts\<close>

definition restart_clicks :: "page_event list \<Rightarrow> nat" where
  "restart_clicks es = length (filter (\<lambda>e. case e of UserDoes ClickRestart t \<Rightarrow> True | _ \<Rightarrow> False) es)"

definition confirming :: "page \<Rightarrow> nat" where
  "confirming p = (if btn_status (pg_button p) = Confirm then 1 else 0)"

lemma restart_clicks_snoc:
  "restart_clicks (es @ [e]) = restart_clicks es + restart_clicks [e]"
  by (simp add: restart_clicks_def)

lemma restart_part_step:
  assumes "event_step lib p e = (p1, out1)"
  shows "2 * length (List.map_filter restart_out out1) + confirming p1 \<le> confirming p + restart_clicks [e]"
proof (cases e)
  case (UserDoes a now)
  then show ?thesis
  proof (cases a)
    case (Dialog d)
    then show ?thesis using assms UserDoes
      by (cases d) (auto simp: dialog_call_def split_beta Let_def List.map_filter_simps confirming_def)
  qed (use assms UserDoes in \<open>auto simp: split_beta Let_def List.map_filter_simps confirming_def restart_clicks_def
        on_click_def add_timer_def split: if_splits\<close>)
qed (use assms in \<open>auto simp: answered_step_def split_beta Let_def List.map_filter_simps confirming_def
      call_returned_def add_timer_def button_timer_fires_def split: api_result.splits button_timer.splits if_splits\<close>)

lemma restart_sent_iff:
  assumes "event_step lib p e = (p1, out1)" and "(c, t) \<in> set (List.map_filter restart_out out1)"
  shows "(\<exists>now. e = UserDoes ClickRestart now) \<and> btn_status (pg_button p) = Confirm
    \<and> c = the (pg_selected p) \<and> truthy (pg_token p) \<and> t = the (pg_token p)"
proof (cases e)
  case (UserDoes a now)
  then show ?thesis
  proof (cases a)
    case (Dialog d)
    then show ?thesis using assms UserDoes
      by (cases d) (auto simp: dialog_call_def split_beta Let_def List.map_filter_simps)
  qed (use assms UserDoes in \<open>auto simp: split_beta Let_def List.map_filter_simps on_click_def split: if_splits\<close>)
qed (use assms in \<open>auto simp: answered_step_def split_beta Let_def List.map_filter_simps split: if_splits\<close>)

text \<open>
  C36: a restart leaves the page confirmed.  In a run of the page at most half of the clicks on the
  restart button send a request.  And when a step sends one, it is a click of a user whose role
  is operator or admin, in the confirmation state of the button, for the container that is
  selected, with the access token of the session.
\<close>

theorem restart_leaves_page_confirmed:
  assumes "page_run lib stored l now es p out"
  shows "2 * length (List.map_filter restart_out out) \<le> restart_clicks es
    \<and> (\<forall>e q p1 out1 c t. page_enabled lib (q :: rat page_queries) p e \<longrightarrow> page_step lib p e = (p1, out1)
        \<longrightarrow> RequestRestart c t \<in> set out1 \<longrightarrow>
        (\<exists>tm. e = UserDoes ClickRestart tm) \<and> btn_status (pg_button p) = Confirm
        \<and> pg_selected p = Some c \<and> c \<noteq> [] \<and> pg_token p = Some t \<and> t \<noteq> [] \<and> Operator \<le> user_role (pg_user p))"
proof (intro conjI allI impI)
  have "2 * length (List.map_filter restart_out out) + confirming p \<le> restart_clicks es"
    using assms
  proof (induction rule: page_run.induct)
    case page_start
    show ?case by (simp add: page_init_def confirming_def button_init_def)
  next
    case (page_more es p out q e p2 out2)
    obtain p1 out1 where e: "event_step lib p e = (p1, out1)" by fastforce
    note parts = page_step_parts [OF e page_more.hyps(3)]
    from parts(4) have "confirming p2 \<le> confirming p1" by (auto simp: confirming_def button_init_def)
    with restart_part_step [OF e] parts(7) page_more.IH show ?case by (simp add: restart_clicks_snoc)
  qed
  then show "2 * length (List.map_filter restart_out out) \<le> restart_clicks es" by simp
next
  fix e and q :: "rat page_queries" and p1 out1 c t
  assume en: "page_enabled lib q p e" and st: "page_step lib p e = (p1, out1)" and r: "RequestRestart c t \<in> set out1"
  obtain p' o' where e: "event_step lib p e = (p', o')" by fastforce
  have "(c, t) \<in> set (List.map_filter restart_out o')"
    using mem_map_filter [of restart_out "RequestRestart c t" "(c, t)" out1] r page_step_parts(7) [OF e st] by simp
  from restart_sent_iff [OF e this] obtain tm where at: "e = UserDoes ClickRestart tm"
    and b: "btn_status (pg_button p) = Confirm" "c = the (pg_selected p)" "truthy (pg_token p)" "t = the (pg_token p)" by blast
  from en have "panel_mounted p" "panel_visible RestartButton (pg_user p)" by (simp_all add: at restart_offered)
  with at b show "\<exists>tm. e = UserDoes ClickRestart tm" "btn_status (pg_button p) = Confirm" "pg_selected p = Some c" "c \<noteq> []"
    "pg_token p = Some t" "t \<noteq> []" "Operator \<le> user_role (pg_user p)"
    by (auto simp: panel_mounted_def truthy_iff panel_visible_def hasRole_iff)
qed

section \<open>A confirmation that is carried over\<close>

definition quiet :: "'d query_view" where
  "quiet = \<lparr>q_error = None, q_loading = True, q_data = None\<rparr>"

definition no_answers :: "rat page_queries" where
  "no_answers = \<lparr>qv_deps = quiet, qv_feed = quiet, qv_audit = quiet, qv_taskforge = quiet, qv_metrics = quiet\<rparr>"

definition sample_page_lib :: page_lib where
  "sample_page_lib = \<lparr>pl_date = (\<lambda>_. 0), pl_str = (\<lambda>_. []), pl_email_ok = (\<lambda>_. True),
     pl_collation = sample_collation, pl_storage = True, pl_tr = (\<lambda>_ k. k)\<rparr>"

definition two_services :: "service_state list" where
  "two_services = [sample_service ''db'' Running, sample_service ''web'' Running]"

text \<open>The page of an admin who has both services in view.\<close>

definition admin_page :: page where
  "admin_page = (page_init True (Some ''r'') Es 0)
     \<lparr>pg_live := \<lparr>lv_services = sortServices sample_collation two_services, lv_status = Live, lv_resyncs = 0\<rparr>,
      pg_session := \<lparr>ws_user = \<lparr>sub = Some ''u1'', email = None, user_role = Admin\<rparr>, ws_access = Some ''a'', ws_ready = True,
        ws_ref = Some ''r'', ws_stored = Some ''r'', ws_calls = []\<rparr>\<rparr>"

definition arrive :: "page_event list" where
  "arrive = [LiveSays SocketConnect, LiveSays (SnapshotAck two_services),
     SessionSays (Answer 0 sample_tokens) 0, SessionSays (Answer 0 sample_me) 0]"

lemmas session_eval = body_throws_def mount_def web_init_def loadRefreshToken_def tokens_answer_def auth_answer_def
  sample_tokens_def sample_me_def resp_ok_def me_answer_def fetchMe_def user_of_def pair_of_def call_refresh_def
  applySession_def saveRefreshToken_def clearSession_def clearRefreshToken_def take_call_def remove_nth.simps isTwoFactorChallenge_def

lemmas page_eval = page_step_def fresh_dialog_def fresh_panel_def follow_logs_def dialog_mounted_def panel_mounted_def
  log_target_def feed_follows_def answered_step_def answers_dialog_def List.map_filter_simps

lemma admin_arrives: "\<exists>out. page_run sample_page_lib (Some ''r'') Es 0 arrive admin_page out \<and> List.map_filter restart_out out = []"
proof -
  note step = page_more [where lib = sample_page_lib and q = no_answers]
  let ?step = "page_step sample_page_lib"
  have lib: "pl_storage sample_page_lib" "pl_collation sample_page_lib = sample_collation" by (simp_all add: sample_page_lib_def)
  let ?p0 = "page_init True (Some ''r'') Es 0"
  let ?ss = "sortServices sample_collation two_services"
  let ?p1 = "?p0\<lparr>pg_live := \<lparr>lv_services = [], lv_status = Live, lv_resyncs = 1\<rparr>\<rparr>"
  let ?p2 = "?p0\<lparr>pg_live := \<lparr>lv_services = ?ss, lv_status = Live, lv_resyncs = 0\<rparr>\<rparr>"
  let ?p3 = "?p2\<lparr>pg_session := \<lparr>ws_user = ANONYMOUS, ws_access = Some ''a'', ws_ready = False, ws_ref = Some ''r'',
       ws_stored = Some ''r'', ws_calls = [MeFor Restoring]\<rparr>\<rparr>"
  have 0: "page_run sample_page_lib (Some ''r'') Es 0 [] ?p0 (map SessionDid (snd (mount True (web_init (Some ''r'')))))"
    using page_start [of sample_page_lib "Some ''r''" Es 0] by (simp add: lib)
  have p1: "?step ?p0 (LiveSays SocketConnect) = (?p1, [LiveDid EmitResync, RefetchFeed])"
    by (simp add: page_eval page_init_def live_init_def lib)
  have "page_enabled sample_page_lib no_answers ?p0 (LiveSays SocketConnect)" by simp
  note 1 = step [OF 0 this p1]
  have p2: "?step ?p1 (LiveSays (SnapshotAck two_services)) = (?p2, [LiveDid (EmitRooms (snapshot_keys two_services))])"
    by (simp add: page_eval page_init_def lib two_services_def snapshot_keys_def)
  have "page_enabled sample_page_lib no_answers ?p1 (LiveSays (SnapshotAck two_services))" by simp
  note 2 = step [OF 1 this p2]
  have p3: "?step ?p2 (SessionSays (Answer 0 sample_tokens) 0) = (?p3, [SessionDid (GetMe (Some ''a''))])"
    by (simp add: page_eval page_init_def session_eval lib)
  have "page_enabled sample_page_lib no_answers ?p2 (SessionSays (Answer 0 sample_tokens) 0)"
    by (simp add: page_eval page_init_def session_eval lib)
  note 3 = step [OF 2 this p3]
  have p4: "?step ?p3 (SessionSays (Answer 0 sample_me) 0) = (admin_page, [])"
    by (simp add: page_eval page_init_def session_eval lib admin_page_def)
  have "page_enabled sample_page_lib no_answers ?p3 (SessionSays (Answer 0 sample_me) 0)"
    by (simp add: page_eval page_init_def session_eval lib)
  note 4 = step [OF 3 this p4]
  show ?thesis
    by (rule exI, rule conjI, rule 4 [folded append_assoc, simplified append_Nil append_Cons, folded arrive_def])
      (simp add: List.map_filter_simps)
qed

definition two_clicks :: "page_event list" where
  "two_clicks = [UserDoes (SelectCard ''db'') 0, UserDoes ClickRestart 1000,
     UserDoes (SelectCard ''web'') 1500, UserDoes ClickRestart 2000]"

lemma carried_over:
  "\<exists>p out. page_run sample_page_lib (Some ''r'') Es 0
     (arrive @ two_clicks) p out
   \<and> List.map_filter restart_out out = [(''web'', ''a'')]"
proof -
  obtain out where 0: "page_run sample_page_lib (Some ''r'') Es 0 arrive admin_page out"
    and out: "List.map_filter restart_out out = []" using admin_arrives by blast
  note step = page_more [where lib = sample_page_lib and q = no_answers]
  let ?step = "page_step sample_page_lib"
  let ?p1 = "admin_page\<lparr>pg_selected := Some ''db''\<rparr>"
  let ?b = "add_timer ConfirmExpires 1000 (button_init\<lparr>btn_status := Confirm\<rparr>)"
  let ?p2 = "?p1\<lparr>pg_button := ?b\<rparr>"
  let ?p3 = "?p2\<lparr>pg_selected := Some ''web''\<rparr>"
  let ?p4 = "?p3\<lparr>pg_button := ?b\<lparr>btn_status := Pending, btn_message := None, btn_calls := 1\<rparr>\<rparr>"
  have services: "sname ` set (lv_services (pg_live admin_page)) = {''db'', ''web''}"
    by (auto simp: admin_page_def sortServices_def two_services_def sample_service_def)
  have user: "hasRole (pg_user admin_page) Operator" "pg_token admin_page = Some ''a''"
    by (simp_all add: admin_page_def hasRole_iff)
  have init: "pg_selected admin_page = None" "pg_panel admin_page = MetricsTab" "pg_metric admin_page = TabCpu"
    "pg_range admin_page = OneHour" "pg_button admin_page = button_init" "pg_pinned admin_page"
    "pg_login admin_page = False" "sub (pg_user admin_page) \<noteq> None"
    by (simp_all add: admin_page_def page_init_def)
  note eval = page_eval select_service_def on_click_def add_timer_def button_init_def init user panel_visible_def
  have p1: "?step admin_page (UserDoes (SelectCard ''db'') 0) = (?p1, [])" by (simp add: eval)
  have p2: "?step ?p1 (UserDoes ClickRestart 1000) = (?p2, [])" by (simp add: eval)
  have p3: "?step ?p2 (UserDoes (SelectCard ''web'') 1500) = (?p3, [])" by (simp add: eval)
  have p4: "?step ?p3 (UserDoes ClickRestart 2000) = (?p4, [RequestRestart ''web'' ''a''])" by (simp add: eval)
  have "page_enabled sample_page_lib no_answers admin_page (UserDoes (SelectCard ''db'') 0)"
    by (simp add: card_offered services)
  note 1 = step [OF 0 this p1]
  have "page_enabled sample_page_lib no_answers ?p1 (UserDoes ClickRestart 1000)"
    by (simp add: restart_offered panel_mounted_def init user panel_visible_def button_init_def)
  note 2 = step [OF 1 this p2]
  have "page_enabled sample_page_lib no_answers ?p2 (UserDoes (SelectCard ''web'') 1500)"
    by (simp add: card_offered services)
  note 3 = step [OF 2 this p3]
  have "page_enabled sample_page_lib no_answers ?p3 (UserDoes ClickRestart 2000)"
    by (simp add: restart_offered panel_mounted_def user panel_visible_def add_timer_def)
  note 4 = step [OF 3 this p4]
  have events: "(((arrive @ [UserDoes (SelectCard ''db'') 0]) @ [UserDoes ClickRestart 1000])
      @ [UserDoes (SelectCard ''web'') 1500]) @ [UserDoes ClickRestart 2000] = arrive @ two_clicks"
    by (simp add: two_clicks_def)
  show ?thesis
    by (rule exI, rule exI, rule conjI, rule 4 [unfolded events]) (simp add: out List.map_filter_simps)
qed


theorem restart_leaves_page_confirmed_witness:
  "\<exists>p out. page_run sample_page_lib (Some ''r'') Es 0 (arrive @ two_clicks) p out
    \<and> 2 * length (List.map_filter restart_out out) \<le> restart_clicks (arrive @ two_clicks)
    \<and> length (List.map_filter restart_out out) = 1 \<and> restart_clicks (arrive @ two_clicks) = 2"
proof -
  obtain p out where run: "page_run sample_page_lib (Some ''r'') Es 0 (arrive @ two_clicks) p out"
    and out: "List.map_filter restart_out out = [(''web'', ''a'')]" using carried_over by blast
  have "restart_clicks (arrive @ two_clicks) = 2" by (simp add: restart_clicks_def arrive_def two_clicks_def)
  with restart_leaves_page_confirmed [OF run] run out show ?thesis by (intro exI conjI) auto
qed


text \<open>An operator who has selected a container, and whose token the API knows.\<close>

definition operator_page :: page where
  "operator_page = admin_page\<lparr>pg_selected := Some ''web'', pg_session := (pg_session admin_page)
     \<lparr>ws_user := \<lparr>sub = Some ''u1'', email = None, user_role = Operator\<rparr>\<rparr>\<rparr>"

theorem page_offers_what_the_guard_admits_witness:
  "ClickRestart \<in> offered (page_view sample_page_lib no_answers operator_page)
    \<and> Tr ''securityAudit'' ''title'' [] \<notin> set (labels (page_view sample_page_lib no_answers operator_page))
    \<and> guard_route demo_lib demo_env (Some ''Bearer tok'') RestartAction = Inr (pg_user operator_page)"
proof -
  have me: "guard_route demo_lib demo_env (Some ''Bearer tok'') AuthMe = Inr (pg_user operator_page)"
    using demo_guard by (simp add: operator_page_def guard_route_def min_role_def canActivate_def Let_def split: if_splits)
  have restart: "guard_route demo_lib demo_env (Some ''Bearer tok'') RestartAction = Inr (pg_user operator_page)"
    using demo_guard by (simp add: operator_page_def)
  have "guard_route demo_lib demo_env (Some ''Bearer tok'') SecurityAuditList \<noteq> Inr (pg_user operator_page)"
    using guard_of_panel [OF me, of SecurityAuditPanel] by (simp add: panel_visible_def hasRole_iff operator_page_def)
  moreover have "btn_status (pg_button operator_page) = Idle" "pg_selected operator_page = Some ''web''"
    by (simp_all add: operator_page_def admin_page_def page_init_def button_init_def)
  ultimately show ?thesis
    using page_offers_what_the_guard_admits [OF me, of sample_page_lib no_answers] restart by simp
qed

text \<open>
  The menu keeps \<open>showLogin\<close> when the dialog disappears because a session was restored: the dialog
  opens by itself at the next logout.
\<close>

lemma dialog_reappears:
  "dialog_mounted (fst (step_run (page_step sample_page_lib) (page_init True (Some ''r'') Es 0)
     [UserDoes OpenLogin 0, SessionSays (Answer 0 sample_tokens) 0, SessionSays (Answer 0 sample_me) 0, UserDoes ClickLogout 0]))"
  by (simp add: page_eval page_init_def session_eval sample_page_lib_def web_logout_def ANONYMOUS_def)

end
