(* ===== verification/WebTexts.thy ===== *)
theory WebTexts
  imports WebPageRuns
begin

text \<open>
  The translated texts of the browser: the message files apps/web/messages/es.json and en.json
  as tables from the name space and the key of a message to the arguments its text needs, and the
  proof that every text a component asks for exists in both languages and gets its arguments.
\<close>

section \<open>The message files\<close>

definition ES_MESSAGES :: "(string \<times> (string \<times> string list) list) list" where
  "ES_MESSAGES = [
     (''dashboard'', [(''subtitleCount'', [''count'', ''running'']), (''subtitleWaiting'', [])]),
     (''connection'', [(''connecting'', []), (''live'', []), (''reconnecting'', [])]),
     (''serviceCard'', [(''uptime'', [''uptime'']), (''status.created'', []), (''status.running'', []),
       (''status.paused'', []), (''status.restarting'', []), (''status.exited'', []), (''status.dead'', []),
       (''status.healthy'', []), (''status.unhealthy'', []), (''status.starting'', [])]),
     (''containerPanel'', [(''tabMetrics'', []), (''tabLogs'', []), (''viewLabel'', []), (''close'', [])]),
     (''metricsPanel'', [(''tabCpu'', []), (''tabRam'', []), (''tabNet'', []), (''loading'', []),
       (''empty'', []), (''error'', [])]),
     (''logViewer'', [(''waiting'', []), (''lineCount'', [''count'']), (''scrollPaused'', []),
       (''dropped'', [''count''])]),
     (''restartButton'', [(''idle'', []), (''confirm'', []), (''pending'', []), (''done'', []),
       (''error'', []), (''genericError'', [])]),
     (''userMenu'', [(''login'', []), (''logout'', [])]),
     (''loginModal'', [(''title'', []), (''close'', []), (''emailLabel'', []), (''passwordLabel'', []),
       (''submit'', []), (''submitting'', []), (''twoFactorHint'', []), (''codeLabel'', []), (''verify'', []),
       (''loginError'', []), (''codeError'', [])]),
     (''securityAudit'', [(''title'', []), (''allActions'', []), (''userIdPlaceholder'', []),
       (''loading'', []), (''empty'', []), (''error'', []), (''total'', [''total'']), (''prev'', []),
       (''next'', [])]),
     (''alertsFeed'', [(''title'', []), (''allTypes'', []), (''loading'', []), (''empty'', []),
       (''error'', []), (''total'', [''total'']), (''prev'', []), (''next'', []), (''type.deploy'', []),
       (''type.resource_alert'', []), (''type.container_down'', []), (''type.container_restarted'', []),
       (''type.job_dlq'', [])]),
     (''alertsFeed.summary'', [(''deployOk'', []), (''deployFailed'', []),
       (''deploy'', [''service'', ''status'', ''version'']),
       (''resourceAlert'', [''host'', ''metric'', ''value'', ''threshold'']),
       (''containerDown'', [''container'', ''exitCode'']), (''containerRestarted'', [''container'']),
       (''jobDlq'', [''service'', ''queue'', ''name'', ''attempts'', ''reason''])]),
     (''dependenciesBadge'', [(''name.cci-auth-service'', []), (''name.taskforge'', []),
       (''name.ops-notify-bot'', [])]),
     (''taskforgeStatus'', [(''title'', []), (''loading'', []), (''error'', []), (''recentFailures'', []),
       (''attempts'', [''count'']), (''state.queued'', []), (''state.active'', []), (''state.delayed'', []),
       (''state.completed'', []), (''state.failed'', []), (''state.dlq'', [])])]"

definition EN_MESSAGES :: "(string \<times> (string \<times> string list) list) list" where
  "EN_MESSAGES = [
     (''dashboard'', [(''subtitleCount'', [''count'', ''running'']), (''subtitleWaiting'', [])]),
     (''connection'', [(''connecting'', []), (''live'', []), (''reconnecting'', [])]),
     (''serviceCard'', [(''uptime'', [''uptime'']), (''status.created'', []), (''status.running'', []),
       (''status.paused'', []), (''status.restarting'', []), (''status.exited'', []), (''status.dead'', []),
       (''status.healthy'', []), (''status.unhealthy'', []), (''status.starting'', [])]),
     (''containerPanel'', [(''tabMetrics'', []), (''tabLogs'', []), (''viewLabel'', []), (''close'', [])]),
     (''metricsPanel'', [(''tabCpu'', []), (''tabRam'', []), (''tabNet'', []), (''loading'', []),
       (''empty'', []), (''error'', [])]),
     (''logViewer'', [(''waiting'', []), (''lineCount'', [''count'']), (''scrollPaused'', []),
       (''dropped'', [''count''])]),
     (''restartButton'', [(''idle'', []), (''confirm'', []), (''pending'', []), (''done'', []),
       (''error'', []), (''genericError'', [])]),
     (''userMenu'', [(''login'', []), (''logout'', [])]),
     (''loginModal'', [(''title'', []), (''close'', []), (''emailLabel'', []), (''passwordLabel'', []),
       (''submit'', []), (''submitting'', []), (''twoFactorHint'', []), (''codeLabel'', []), (''verify'', []),
       (''loginError'', []), (''codeError'', [])]),
     (''securityAudit'', [(''title'', []), (''allActions'', []), (''userIdPlaceholder'', []),
       (''loading'', []), (''empty'', []), (''error'', []), (''total'', [''total'']), (''prev'', []),
       (''next'', [])]),
     (''alertsFeed'', [(''title'', []), (''allTypes'', []), (''loading'', []), (''empty'', []),
       (''error'', []), (''total'', [''total'']), (''prev'', []), (''next'', []), (''type.deploy'', []),
       (''type.resource_alert'', []), (''type.container_down'', []), (''type.container_restarted'', []),
       (''type.job_dlq'', [])]),
     (''alertsFeed.summary'', [(''deployOk'', []), (''deployFailed'', []),
       (''deploy'', [''service'', ''status'', ''version'']),
       (''resourceAlert'', [''host'', ''metric'', ''value'', ''threshold'']),
       (''containerDown'', [''container'', ''exitCode'']), (''containerRestarted'', [''container'']),
       (''jobDlq'', [''service'', ''queue'', ''name'', ''attempts'', ''reason''])]),
     (''dependenciesBadge'', [(''name.cci-auth-service'', []), (''name.taskforge'', []),
       (''name.ops-notify-bot'', [])]),
     (''taskforgeStatus'', [(''title'', []), (''loading'', []), (''error'', []), (''recentFailures'', []),
       (''attempts'', [''count'']), (''state.queued'', []), (''state.active'', []), (''state.delayed'', []),
       (''state.completed'', []), (''state.failed'', []), (''state.dlq'', [])])]"

fun message_table :: "ui_locale \<Rightarrow> (string \<times> (string \<times> string list) list) list" where
  "message_table Es = ES_MESSAGES"
| "message_table En = EN_MESSAGES"

text \<open>\<open>useTranslations(ns)(key, args)\<close> finds a message, and every argument its text names is given.\<close>

fun translatable :: "ui_locale \<Rightarrow> label \<Rightarrow> bool" where
  "translatable lang (Tr ns key args) =
     (case map_of (nullish (map_of (message_table lang) ns) []) key of
        None \<Rightarrow> False
      | Some needed \<Rightarrow> set needed \<subseteq> fst ` set args)"
| "translatable lang _ = True"

section \<open>Every text is there\<close>

definition all_translatable :: "ui_locale \<Rightarrow> label list \<Rightarrow> bool" where
  "all_translatable lang ls \<longleftrightarrow> (\<forall>l\<in>set ls. translatable lang l)"

lemma all_translatable_simps [simp]:
  "all_translatable lang []" "all_translatable lang (l # ls) \<longleftrightarrow> translatable lang l \<and> all_translatable lang ls"
  "all_translatable lang (ls @ ms) \<longleftrightarrow> all_translatable lang ls \<and> all_translatable lang ms"
  "all_translatable lang (concat lss) \<longleftrightarrow> (\<forall>ls\<in>set lss. all_translatable lang ls)"
  "all_translatable lang (map f xs) \<longleftrightarrow> (\<forall>x\<in>set xs. translatable lang (f x))"
  by (auto simp: all_translatable_def)

text \<open>Both files name the same messages with the same arguments.\<close>

lemma one_table: "message_table lang = ES_MESSAGES"
  by (cases lang) (simp_all only: message_table.simps ES_MESSAGES_def EN_MESSAGES_def)

lemma translatable_Tr:
  "translatable lang (Tr ns key args) \<longleftrightarrow>
     (case map_of (nullish (map_of ES_MESSAGES ns) []) key of None \<Rightarrow> False | Some needed \<Rightarrow> set needed \<subseteq> fst ` set args)"
  by (simp add: one_table)

declare translatable.simps(1) [simp del]

text \<open>The tables by name space, so that a look-up touches one of them only.\<close>

lemma sections:
  "map_of ES_MESSAGES ''dashboard'' = Some [(''subtitleCount'', [''count'', ''running'']), (''subtitleWaiting'', [])]"
  "map_of ES_MESSAGES ''connection'' = Some [(''connecting'', []), (''live'', []), (''reconnecting'', [])]"
  "map_of ES_MESSAGES ''serviceCard'' = Some [(''uptime'', [''uptime'']), (''status.created'', []), (''status.running'', []),
    (''status.paused'', []), (''status.restarting'', []), (''status.exited'', []), (''status.dead'', []),
    (''status.healthy'', []), (''status.unhealthy'', []), (''status.starting'', [])]"
  "map_of ES_MESSAGES ''containerPanel'' = Some [(''tabMetrics'', []), (''tabLogs'', []), (''viewLabel'', []), (''close'', [])]"
  "map_of ES_MESSAGES ''metricsPanel'' = Some [(''tabCpu'', []), (''tabRam'', []), (''tabNet'', []), (''loading'', []),
    (''empty'', []), (''error'', [])]"
  "map_of ES_MESSAGES ''logViewer'' = Some [(''waiting'', []), (''lineCount'', [''count'']), (''scrollPaused'', []),
    (''dropped'', [''count''])]"
  "map_of ES_MESSAGES ''restartButton'' = Some [(''idle'', []), (''confirm'', []), (''pending'', []), (''done'', []),
    (''error'', []), (''genericError'', [])]"
  "map_of ES_MESSAGES ''userMenu'' = Some [(''login'', []), (''logout'', [])]"
  "map_of ES_MESSAGES ''loginModal'' = Some [(''title'', []), (''close'', []), (''emailLabel'', []), (''passwordLabel'', []),
    (''submit'', []), (''submitting'', []), (''twoFactorHint'', []), (''codeLabel'', []), (''verify'', []),
    (''loginError'', []), (''codeError'', [])]"
  "map_of ES_MESSAGES ''securityAudit'' = Some [(''title'', []), (''allActions'', []), (''userIdPlaceholder'', []),
    (''loading'', []), (''empty'', []), (''error'', []), (''total'', [''total'']), (''prev'', []),
    (''next'', [])]"
  "map_of ES_MESSAGES ''alertsFeed'' = Some [(''title'', []), (''allTypes'', []), (''loading'', []), (''empty'', []),
    (''error'', []), (''total'', [''total'']), (''prev'', []), (''next'', []), (''type.deploy'', []),
    (''type.resource_alert'', []), (''type.container_down'', []), (''type.container_restarted'', []),
    (''type.job_dlq'', [])]"
  "map_of ES_MESSAGES ''alertsFeed.summary'' = Some [(''deployOk'', []), (''deployFailed'', []),
    (''deploy'', [''service'', ''status'', ''version'']),
    (''resourceAlert'', [''host'', ''metric'', ''value'', ''threshold'']),
    (''containerDown'', [''container'', ''exitCode'']), (''containerRestarted'', [''container'']),
    (''jobDlq'', [''service'', ''queue'', ''name'', ''attempts'', ''reason''])]"
  "map_of ES_MESSAGES ''dependenciesBadge'' = Some [(''name.cci-auth-service'', []), (''name.taskforge'', []),
    (''name.ops-notify-bot'', [])]"
  "map_of ES_MESSAGES ''taskforgeStatus'' = Some [(''title'', []), (''loading'', []), (''error'', []), (''recentFailures'', []),
    (''attempts'', [''count'']), (''state.queued'', []), (''state.active'', []), (''state.delayed'', []),
    (''state.completed'', []), (''state.failed'', []), (''state.dlq'', [])]"
  by (simp_all only: ES_MESSAGES_def map_of.simps fst_conv snd_conv fun_upd_apply) simp_all

lemmas lookup = translatable_Tr sections

lemma translated_names:
  "translatable lang (Tr ''connection'' (connection_name s) [])"
  "translatable lang (Tr ''serviceCard'' (''status.'' @ case_sum status_key health_key (statusLabel st h)) [])"
  "translatable lang (Tr ''restartButton'' (button_status_key b) [])"
  "translatable lang (Tr ''metricsPanel'' (tab_message tab) [])"
  "translatable lang (Tr ''alertsFeed'' (''type.'' @ type_name t) [])"
  "translatable lang (Tr ''taskforgeStatus'' (''state.'' @ state_name j) [])"
  subgoal by (cases s) (simp_all add: lookup)
  subgoal by (cases st; cases h) (simp_all add: lookup statusLabel_def)
  subgoal by (cases b) (simp_all add: lookup)
  subgoal by (cases tab) (simp_all add: lookup)
  subgoal by (cases t) (simp_all add: lookup)
  subgoal by (cases j) (simp_all add: lookup)
  done

lemmas translated_names_simps [simp] = translated_names [simplified]

lemma translated_error:
  assumes "translatable lang (Tr ns key [])"
  shows "translatable lang (error_label ns key e)"
  using assms by (cases e) (simp_all add: error_label_def)

lemma translated_summary: "translatable lang (summary_label str tr a)"
  by (cases "alert_kind a") (simp_all add: summary_label_def alert_summary_def Let_def lookup)

lemma translated_header:
  assumes "fst ` set (nullish (q_data (qv_deps q)) []) \<subseteq> {''cci-auth-service'', ''taskforge'', ''ops-notify-bot''}"
  shows "all_translatable lang (labels (page_header lib q p))"
proof -
  have "translatable lang (Tr ''loginModal'' ''codeError'' [])" "translatable lang (Tr ''loginModal'' ''loginError'' [])"
    by (simp_all add: lookup)
  note err = this [THEN translated_error]
  have "all_translatable lang (labels (login_modal_view ok m e w))" for ok m e w
    by (simp add: login_modal_view_def login_field_def submit_button_def modal_error_line_def Let_def
        err lookup split: option.splits)
  moreover have "translatable lang (dashboard_subtitle ss)" for ss by (simp add: dashboard_subtitle_def lookup)
  moreover have "all_translatable lang (says (user_menu user sh n))" if "all_translatable lang (labels n)" for user sh n
    using that by (simp add: user_menu_def lookup shown_if_def)
  moreover have "all_translatable lang (says (dependencies_badge (qv_deps q)))"
  proof -
    have "translatable lang (Tr ''dependenciesBadge'' (''name.'' @ fst d) [])" if "d \<in> set (nullish (q_data (qv_deps q)) [])" for d
      using assms that by (auto simp: lookup)
    then show ?thesis by (simp add: dependencies_badge_def dependency_item_def Let_def says_map)
  qed
  ultimately show ?thesis
    by (simp add: page_header_def locale_switcher_def locale_button_def connection_badge_def says_map)
qed

lemma stroke_labels [simp]: "\<forall>a\<in>set (stroke_attrs k). all_translatable lang (attr_labels a)"
  by (auto simp: stroke_attrs_def split: option.splits)

lemma translated_panel: "all_translatable lang (says (page_panel (q :: 'v page_queries) p))"
proof -
  have err: "translatable lang (Tr ''restartButton'' ''genericError'' [])" by (simp add: lookup)
  have "all_translatable lang (says (restart_button user b))" for user b
    by (cases "btn_message b") (simp_all add: restart_button_def button_title_def translated_error [OF err])
  moreover have "all_translatable lang (labels (metrics_header tab r))" for tab r
    by (simp add: metrics_header_def selector_button_def legend_def says_map shown_if_def split_beta)
  moreover have "translatable lang l" if "metrics_body tab mq = Inl l" for tab l and mq :: "'v chart_row list query_view"
    using that by (auto simp: metrics_body_def Let_def lookup split: if_splits)
  moreover have "all_translatable lang (labels (log_viewer h pinned :: ui_action node))" for h pinned
    by (simp add: log_viewer_def log_row_def MIDDLE_DOT_def Let_def says_map lookup)
  ultimately show ?thesis
    by (simp add: page_panel_def container_panel_def tab_button_def metrics_panel_def says_map lookup split_beta
        split: sum.splits)
qed

lemma translated_state:
  assumes "translatable lang (Tr ns ''error'' [])" and "translatable lang (Tr ns ''loading'' [])"
    and "nothing \<Longrightarrow> translatable lang (Tr ns ''empty'' [])" and "all_translatable lang (labels n)"
  shows "all_translatable lang (labels (query_body (query_state ns loading nothing q) n))"
  using assms by (simp add: query_body_def query_state_def translated_error split: option.splits)

lemma translated_pager:
  "all_translatable lang (labels (pager ''alertsFeed'' n offset a b))"
  "all_translatable lang (labels (pager ''securityAudit'' n offset a b))"
  by (simp_all add: pager_def lookup)

lemma translated_feed_body:
  "all_translatable lang (labels (query_body (query_state ''alertsFeed'' loading nothing q)
     (El ''ol'' [] (map (feed_row str tr) items))))"
  by (rule translated_state) (simp_all add: feed_row_def says_map translated_summary, simp_all add: lookup)

lemma translated_feed: "all_translatable lang (labels (feed_panel str tr st q))"
  by (simp add: feed_panel_def type_option_def Let_def says_map translated_pager translated_feed_body) (simp add: lookup)

lemma translated_taskforge_body:
  "all_translatable lang (labels (query_body (query_state ''taskforgeStatus'' loading False q)
     (El ''div'' [] (map (count_item c) SHOWN_STATES))))"
  by (rule translated_state) (simp_all add: count_item_def says_map, simp_all add: lookup)

lemma translated_job: "all_translatable lang (labels (job_row j))"
  by (simp add: job_row_def lookup)

lemma translated_taskforge: "all_translatable lang (says (taskforge_panel user q))"
  by (simp add: taskforge_panel_def Let_def says_map shown_if_def translated_taskforge_body translated_job) (simp add: lookup)

lemma translated_audit_body:
  "all_translatable lang (labels (query_body (query_state ''securityAudit'' loading nothing q)
     (El ''ol'' [] (map security_row events))))"
  by (rule translated_state) (simp_all add: security_row_def detail_def says_map, simp_all add: lookup)

lemma translated_audit: "all_translatable lang (says (audit_panel_view user st q))"
  by (simp add: audit_panel_view_def Let_def says_map translated_pager translated_audit_body) (simp add: lookup)

lemma translated_grid: "all_translatable lang (labels (dashboard_grid date ss now sel))"
proof -
  have "all_translatable lang (labels (service_card date s now b a))" for s b and a :: ui_action
    by (simp add: service_card_def EM_DASH_def Let_def) (simp add: lookup)
  then show ?thesis by (simp add: dashboard_grid_def says_map)
qed


text \<open>The admin's page with taskforge down.\<close>

definition taskforge_down :: "rat page_queries" where
  "taskforge_down = no_answers\<lparr>qv_deps := \<lparr>q_error = None, q_loading = False,
     q_data = Some (map (\<lambda>(n, s, ms). (n, s)) (dependencies_check (\<lambda>_. None) (NetFail, 0) (Inl UncheckedError, 0) (NetFail, 0)))\<rparr>\<rparr>"


end
