(* ===== verification/Routes.thy ===== *)
theory Routes
  imports RestApi WebAuth
begin

text \<open>
  Where a request of the browser goes: the rewrite of the web server (apps/web/next.config.ts),
  the routes the controllers declare (their \<open>@Controller\<close>, \<open>@Get\<close>, \<open>@Post\<close> and \<open>@Patch\<close>
  decorators) and the parameters they read.  A path is split at its slashes; a literal segment of
  a pattern matches itself and \<open>:name\<close> one non-empty segment, decoded.  Strings hold code points
  up to 255, as in the other theories.
\<close>

section \<open>encodeURIComponent and its inverse\<close>

definition hex_digit :: "nat \<Rightarrow> char" where
  "hex_digit n = char_of (if n < 10 then 48 + n else 55 + n)"

definition percent :: "nat \<Rightarrow> string" where
  "percent n = [CHR ''%'', hex_digit (n div 16), hex_digit (n mod 16)]"

definition unreserved :: "char \<Rightarrow> bool" where
  "unreserved c = (ascii_alnum c \<or> c \<in> {CHR ''-'', CHR ''_'', CHR ''.'', CHR ''!'', CHR ''~'', CHR ''*'', CHR 0x27, CHR ''('', CHR '')''})"

text \<open>One or two UTF-8 bytes.\<close>

definition encode_char :: "char \<Rightarrow> string" where
  "encode_char c =
     (let n = of_char c
      in if unreserved c then [c] else if n < 128 then percent n else percent (192 + n div 64) @ percent (128 + n mod 64))"

definition encodeURIComponent :: "string \<Rightarrow> string" where
  "encodeURIComponent s = concat (map encode_char s)"

definition hex_value :: "char \<Rightarrow> nat option" where
  "hex_value c =
     (let n = of_char c
      in if 48 \<le> n \<and> n < 58 then Some (n - 48) else if 65 \<le> n \<and> n < 71 then Some (n - 55)
         else if 97 \<le> n \<and> n < 103 then Some (n - 87) else None)"

fun percent_byte :: "string \<Rightarrow> (nat \<times> string) option" where
  "percent_byte (p # a # b # cs) =
     (if p \<noteq> CHR ''%'' then None
      else case (hex_value a, hex_value b) of (Some h, Some l) \<Rightarrow> Some (16 * h + l, cs) | _ \<Rightarrow> None)"
| "percent_byte _ = None"

lemma percent_byte_shorter: "percent_byte s = Some (n, t) \<Longrightarrow> length t < length s"
  by (cases s rule: percent_byte.cases) (auto split: if_splits option.splits)

text \<open>\<open>None\<close>: the URIError, or a code point past 255.\<close>

function decodeURIComponent :: "string \<Rightarrow> string option" where
  "decodeURIComponent s =
     (case s of
        [] \<Rightarrow> Some []
      | c # cs \<Rightarrow>
          if c \<noteq> CHR ''%'' then map_option (Cons c) (decodeURIComponent cs)
          else case percent_byte s of
            None \<Rightarrow> None
          | Some (n, t) \<Rightarrow>
              if n < 128 then map_option (Cons (char_of n)) (decodeURIComponent t)
              else if n \<noteq> 194 \<and> n \<noteq> 195 then None
              else case percent_byte t of
                None \<Rightarrow> None
              | Some (k, u) \<Rightarrow>
                  if k < 128 \<or> 192 \<le> k then None
                  else map_option (Cons (char_of (64 * (n - 192) + (k - 128)))) (decodeURIComponent u))"
  by pat_completeness auto
termination
  by (relation "measure length") (auto dest!: percent_byte_shorter)

declare decodeURIComponent.simps [simp del]

lemma hex_value_digit: "n < 16 \<Longrightarrow> hex_value (hex_digit n) = Some n"
  by (auto simp: hex_value_def hex_digit_def)

lemma percent_byte_percent: "n < 256 \<Longrightarrow> percent_byte (percent n @ s) = Some (n, s)"
  by (simp add: percent_def hex_value_digit)

lemma percent_Cons: "percent n @ s = CHR ''%'' # hex_digit (n div 16) # hex_digit (n mod 16) # s"
  by (simp add: percent_def)

lemma of_char_256: "of_char c < (256 :: nat)"
  by simp

lemma byte_div_64: "n < 256 \<Longrightarrow> 128 \<le> n \<Longrightarrow> n div 64 = 2 \<or> n div 64 = (3 :: nat)"
  using less_mult_imp_div_less [of n 4 64] div_le_mono [of 128 n 64] by auto

lemma decode_char:
  "decodeURIComponent (encode_char c @ s) = map_option (Cons c) (decodeURIComponent s)"
proof -
  let ?n = "of_char c :: nat"
  consider "unreserved c" | "\<not> unreserved c" "?n < 128" | "\<not> unreserved c" "128 \<le> ?n" by linarith
  then show ?thesis
  proof cases
    case 1
    then have "c \<noteq> CHR ''%''" by (auto simp: unreserved_def ascii_alnum_def)
    with 1 show ?thesis by (subst decodeURIComponent.simps) (simp add: encode_char_def)
  next
    case 2
    then show ?thesis
      using percent_byte_percent [of ?n s]
      by (subst decodeURIComponent.simps) (simp add: encode_char_def percent_Cons del: percent_byte.simps)
  next
    case 3
    let ?h = "192 + ?n div 64" and ?l = "128 + ?n mod 64"
    have n: "?n < 256" by (rule of_char_256)
    with byte_div_64 [OF n 3(2)] have h: "?h < 256" "?h = 194 \<or> ?h = 195" by linarith+
    have l: "?l < 256" "128 \<le> ?l" "?l < 192" using mod_less_divisor [of 64 ?n] by linarith+
    have char: "char_of (64 * (?h - 192) + (?l - 128)) = c" by simp
    have "percent_byte (percent ?h @ percent ?l @ s) = Some (?h, percent ?l @ s)"
      using h(1) by (rule percent_byte_percent)
    moreover have "percent_byte (percent ?l @ s) = Some (?l, s)" using l(1) by (rule percent_byte_percent)
    ultimately show ?thesis
      using 3 h(2) l(2,3) char
      by (subst decodeURIComponent.simps)
         (auto simp: encode_char_def percent_Cons Let_def simp del: percent_byte.simps)
  qed
qed

lemma decode_encode: "decodeURIComponent (encodeURIComponent s) = Some s"
proof (induction s)
  case Nil
  then show ?case by (subst decodeURIComponent.simps) (simp add: encodeURIComponent_def)
next
  case (Cons c s)
  then show ?case by (simp add: encodeURIComponent_def decode_char)
qed

lemma hex_digit_no_slash: "n < 16 \<Longrightarrow> hex_digit n \<noteq> CHR ''/''"
  using hex_value_digit [of n] by (auto simp: hex_value_def)

lemma encode_no_slash: "CHR ''/'' \<notin> set (encodeURIComponent s)"
proof -
  have p: "CHR ''/'' \<notin> set (percent n)" if "n < 256" for n
    using less_mult_imp_div_less [of n 16 16] that hex_digit_no_slash [of "n div 16"] hex_digit_no_slash [of "n mod 16"] by (auto simp: percent_def)
  have "CHR ''/'' \<notin> set (encode_char c)" for c
  proof (cases "unreserved c")
    case True
    then show ?thesis by (auto simp: encode_char_def unreserved_def ascii_alnum_def)
  next
    case False
    have n: "of_char c < (256 :: nat)" by (rule of_char_256)
    have l: "128 + of_char c mod 64 < (256 :: nat)" using mod_less_divisor [of 64 "of_char c :: nat"] by linarith
    have h: "192 + of_char c div 64 < (256 :: nat)" using less_mult_imp_div_less [of "of_char c" 64 64] n by linarith
    from False p [OF n] p [OF l] p [OF h] show ?thesis by (simp add: encode_char_def Let_def)
  qed
  then show ?thesis by (auto simp: encodeURIComponent_def)
qed

lemma encode_empty [simp]: "encodeURIComponent s = [] \<longleftrightarrow> s = []"
proof -
  have "encode_char c \<noteq> []" for c by (simp add: encode_char_def percent_def Let_def)
  then show ?thesis by (cases s) (simp_all add: encodeURIComponent_def)
qed

section \<open>The routes of the controllers\<close>

datatype segment = Literal string | Parameter string

definition read_segment :: "string \<Rightarrow> segment" where
  "read_segment s = (case s of c # n \<Rightarrow> if c = CHR '':'' then Parameter n else Literal s | [] \<Rightarrow> Literal s)"

text \<open>A route: method, segments of the prefix and of the path of the handler, handler.\<close>

type_synonym route_row = "string \<times> segment list \<times> route"

definition segments :: "string \<Rightarrow> segment list" where
  "segments path = (if path = [] then [] else map read_segment (js_split (CHR ''/'') path))"

definition controller_routes :: "string \<Rightarrow> (string \<times> string \<times> route) list \<Rightarrow> route_row list" where
  "controller_routes base hs = map (\<lambda>(m, path, r). (m, segments base @ segments path, r)) hs"

definition actions_routes :: "route_row list" where
  "actions_routes = controller_routes ''actions/containers'' [(''POST'', '':name/restart'', RestartAction)]"

definition alerts_routes :: "route_row list" where
  "alerts_routes = controller_routes ''alerts/settings''
     [(''GET'', [], AlertSettingsList), (''PATCH'', '':key'', AlertSettingsUpdate)]"

definition alerts_feed_routes :: "route_row list" where
  "alerts_feed_routes = controller_routes ''alerts/feed'' [(''GET'', [], AlertsFeed)]"

definition audit_routes :: "route_row list" where
  "audit_routes = controller_routes ''audit-log'' [(''GET'', [], AuditLogList)]"

definition security_audit_routes :: "route_row list" where
  "security_audit_routes = controller_routes ''security-audit'' [(''GET'', [], SecurityAuditList)]"

definition jobs_routes :: "route_row list" where
  "jobs_routes = controller_routes ''jobs''
     [(''POST'', ''demo'', JobsDemo), (''GET'', [], JobsList), (''GET'', '':id'', JobsRefresh)]"

definition taskforge_status_routes :: "route_row list" where
  "taskforge_status_routes = controller_routes ''taskforge-status'' [(''GET'', [], TaskforgeStatus)]"

definition metrics_routes :: "route_row list" where
  "metrics_routes = controller_routes ''metrics''
     [(''GET'', ''live'', MetricsLive), (''GET'', ''history'', MetricsHistory)]"

definition health_routes :: "route_row list" where
  "health_routes = controller_routes ''health''
     [(''GET'', [], Health), (''GET'', ''dependencies'', HealthDependencies)]"

definition auth_routes :: "route_row list" where
  "auth_routes = controller_routes ''auth''
     [(''POST'', ''login'', AuthLogin), (''POST'', ''2fa/verify'', AuthTwoFactor), (''POST'', ''refresh'', AuthRefresh),
      (''POST'', ''logout'', AuthLogout), (''GET'', ''me'', AuthMe)]"

definition API_ROUTES :: "route_row list" where
  "API_ROUTES = auth_routes @ metrics_routes @ alerts_routes @ alerts_feed_routes @ actions_routes @ audit_routes
     @ jobs_routes @ security_audit_routes @ taskforge_status_routes @ health_routes"

lemmas route_tables = API_ROUTES_def actions_routes_def alerts_routes_def alerts_feed_routes_def audit_routes_def
  security_audit_routes_def jobs_routes_def taskforge_status_routes_def metrics_routes_def health_routes_def
  auth_routes_def controller_routes_def segments_def read_segment_def

lemma API_ROUTES_eval:
  "API_ROUTES =
    [(''POST'', [Literal ''auth'', Literal ''login''], AuthLogin),
     (''POST'', [Literal ''auth'', Literal ''2fa'', Literal ''verify''], AuthTwoFactor),
     (''POST'', [Literal ''auth'', Literal ''refresh''], AuthRefresh),
     (''POST'', [Literal ''auth'', Literal ''logout''], AuthLogout),
     (''GET'', [Literal ''auth'', Literal ''me''], AuthMe),
     (''GET'', [Literal ''metrics'', Literal ''live''], MetricsLive),
     (''GET'', [Literal ''metrics'', Literal ''history''], MetricsHistory),
     (''GET'', [Literal ''alerts'', Literal ''settings''], AlertSettingsList),
     (''PATCH'', [Literal ''alerts'', Literal ''settings'', Parameter ''key''], AlertSettingsUpdate),
     (''GET'', [Literal ''alerts'', Literal ''feed''], AlertsFeed),
     (''POST'', [Literal ''actions'', Literal ''containers'', Parameter ''name'', Literal ''restart''], RestartAction),
     (''GET'', [Literal ''audit-log''], AuditLogList),
     (''POST'', [Literal ''jobs'', Literal ''demo''], JobsDemo),
     (''GET'', [Literal ''jobs''], JobsList),
     (''GET'', [Literal ''jobs'', Parameter ''id''], JobsRefresh),
     (''GET'', [Literal ''security-audit''], SecurityAuditList),
     (''GET'', [Literal ''taskforge-status''], TaskforgeStatus),
     (''GET'', [Literal ''health''], Health),
     (''GET'', [Literal ''health'', Literal ''dependencies''], HealthDependencies)]"
  by (simp add: route_tables)

section \<open>Matching\<close>

fun match_segments :: "segment list \<Rightarrow> string list \<Rightarrow> (string \<times> string) list option" where
  "match_segments [] [] = Some []"
| "match_segments (Literal l # ps) (s # ss) = (if s = l then match_segments ps ss else None)"
| "match_segments (Parameter n # ps) (s # ss) =
     (if s = [] then None
      else case (decodeURIComponent s, match_segments ps ss) of (Some v, Some vs) \<Rightarrow> Some ((n, v) # vs) | _ \<Rightarrow> None)"
| "match_segments _ _ = None"

text \<open>The first route of the method whose pattern matches.\<close>

fun find_route :: "route_row list \<Rightarrow> string \<Rightarrow> string list \<Rightarrow> (route \<times> (string \<times> string) list) option" where
  "find_route [] m ss = None"
| "find_route ((m1, ps, r) # rows) m ss =
     (case (if m1 = m then match_segments ps ss else None) of
        Some vs \<Rightarrow> Some (r, vs)
      | None \<Rightarrow> find_route rows m ss)"

text \<open>Two patterns that no path matches together.\<close>

fun apart :: "segment list \<Rightarrow> segment list \<Rightarrow> bool" where
  "apart (Literal a # ps) (Literal b # qs) = (a \<noteq> b \<or> apart ps qs)"
| "apart (p # ps) (q # qs) = apart ps qs"
| "apart [] [] = False"
| "apart _ _ = True"

lemma apart_no_match: "apart ps qs \<Longrightarrow> match_segments ps ss = None \<or> match_segments qs ss = None"
proof (induction ps arbitrary: qs ss)
  case Nil
  then show ?case by (cases qs; cases ss; cases "hd qs") auto
next
  case (Cons p ps)
  show ?case
  proof (cases "qs = [] \<or> ss = []")
    case True
    with Cons.prems show ?thesis by (cases ss; cases p) auto
  next
    case False
    then obtain q qs1 s ss1 where qs: "qs = q # qs1" "ss = s # ss1" by (auto simp: neq_Nil_conv)
    show ?thesis
    proof (cases "apart ps qs1")
      case True
      from Cons.IH [OF this, of ss1] show ?thesis
        by (cases p; cases q) (auto simp: qs split: option.splits)
    next
      case False
      with Cons.prems show ?thesis by (cases p; cases q) (auto simp: qs)
    qed
  qed
qed

definition unambiguous :: "route_row list \<Rightarrow> bool" where
  "unambiguous rows = list_all (\<lambda>(m, ps, r). list_all (\<lambda>(m', qs, r').
     m = m' \<and> r \<noteq> r' \<longrightarrow> apart ps qs) rows) rows"

lemma unambiguousD:
  "\<lbrakk>unambiguous rows; (m, ps, r) \<in> set rows; (m, qs, r') \<in> set rows; r' \<noteq> r\<rbrakk> \<Longrightarrow> apart qs ps"
  unfolding unambiguous_def list_all_iff
  by (drule (1) bspec [where x = "(m, qs, r')"], simp, drule (1) bspec [where x = "(m, ps, r)"], simp)

text \<open>
  What a router may rely on: no path of one method fits two handlers.  Then the order in which
  the modules register their controllers does not matter.
\<close>

locale route_table =
  fixes rows :: "route_row list"
  assumes rows_apart: "unambiguous rows"
begin

lemma same_handler:
  assumes "(m, ps, r) \<in> set rows" and "match_segments ps ss = Some vs"
    and "(m, qs, r') \<in> set rows" and "match_segments qs ss = Some us"
  shows "r' = r"
proof (rule ccontr)
  assume "r' \<noteq> r"
  with unambiguousD [OF rows_apart assms(1,3)] have "apart qs ps" by simp
  with apart_no_match [of qs ps ss] assms(2,4) show False by simp
qed

lemma row_decides:
  assumes "(m, ps, r) \<in> set rows" and "match_segments ps ss = Some vs"
    and "set table \<subseteq> set rows" and "(m, ps, r) \<in> set table"
  shows "\<exists>vs. find_route table m ss = Some (r, vs)"
  using assms(3,4)
proof (induction table)
  case (Cons row table)
  obtain m1 qs r' where row: "row = (m1, qs, r')" by (cases row)
  show ?case
  proof (cases "m1 = m \<and> match_segments qs ss \<noteq> None")
    case True
    with Cons.prems(1) same_handler [OF assms(1,2)] show ?thesis by (auto simp: row)
  next
    case False
    with Cons assms(2) show ?thesis by (auto simp: row)
  qed
qed simp

end

interpretation api: route_table API_ROUTES
  by unfold_locales (simp add: unambiguous_def API_ROUTES_eval)

text \<open>In whatever order the controllers are registered, a request gets to the handler whose
  pattern it fits.\<close>

lemma registration_order_irrelevant:
  assumes "(m, ps, r) \<in> set API_ROUTES" and "match_segments ps ss = Some vs" and "set table = set API_ROUTES"
  shows "\<exists>vs. find_route table m ss = Some (r, vs)"
  using api.row_decides [OF assms(1,2), of table] assms(1,3) by simp

section \<open>The web server and the sockets (next.config.ts, live-provider.tsx)\<close>

definition apiInternalUrl :: "env \<Rightarrow> string" where
  "apiInternalUrl env =
     (if truthy (env ''API_INTERNAL_URL'') then the (env ''API_INTERNAL_URL'')
      else if env ''NODE_ENV'' = Some ''development'' then ''http://localhost:3004'' else ''http://api:3000'')"

text \<open>\<open>/api/:path*\<close>: no segments, or more after a slash; they are passed on as they are.\<close>

definition web_rewrites :: "env \<Rightarrow> string \<Rightarrow> string option" where
  "web_rewrites env path =
     (if path = ''/api'' then Some (apiInternalUrl env @ ''/'')
      else if take 5 path = ''/api/'' then Some (apiInternalUrl env @ ''/'' @ drop 5 path)
      else None)"

definition wsBaseUrl :: "env \<Rightarrow> string" where
  "wsBaseUrl env =
     (if truthy (env ''NEXT_PUBLIC_API_WS_URL'') then the (env ''NEXT_PUBLIC_API_WS_URL'')
      else if env ''NODE_ENV'' = Some ''development'' then ''http://localhost:3004'' else [])"

section \<open>Serving a request\<close>

record http_request =
  rq_method :: string
  rq_path :: string
  rq_query :: query
  rq_token :: "string option" \<comment> \<open>the bearer token\<close>
  rq_body :: "json option"

text \<open>What a handler's parameters read; \<open>patch\<close> is the body of a settings change.\<close>

fun read_request ::
  "(json option \<Rightarrow> setting_patch option) \<Rightarrow> route \<Rightarrow> (string \<times> string) list \<Rightarrow> query \<Rightarrow> json option \<Rightarrow> rest_request" where
  "read_request patch RestartAction vs q body = PostRestart (the (map_of vs ''name''))"
| "read_request patch AlertSettingsList vs q body = GetAlertSettings"
| "read_request patch AlertSettingsUpdate vs q body = PatchAlertSetting (the (map_of vs ''key'')) (patch body)"
| "read_request patch AlertsFeed vs q body = GetAlertsFeed (param q ''type'') (param q ''limit'') (param q ''offset'')"
| "read_request patch AuditLogList vs q body =
     GetAuditLog \<lparr>f_action = param q ''action'', f_target = param q ''target'', f_userSub = param q ''userSub''\<rparr>
       (param q ''limit'') (param q ''offset'')"
| "read_request patch SecurityAuditList vs q body =
     GetSecurityAudit (param q ''action'') (param q ''userId'') (param q ''skip'') (param q ''take'')"
| "read_request patch JobsDemo vs q body = PostJobsDemo body"
| "read_request patch JobsList vs q body = GetJobs"
| "read_request patch JobsRefresh vs q body = GetJob (the (map_of vs ''id''))"
| "read_request patch TaskforgeStatus vs q body = GetTaskforgeStatus"
| "read_request patch MetricsLive vs q body =
     GetMetricsLive (param q ''container'') (param q ''metric'') (param q ''minutes'')"
| "read_request patch MetricsHistory vs q body =
     GetMetricsHistory (param q ''container'') (param q ''metric'') (param q ''hours'')"
| "read_request patch Health vs q body = GetHealth"
| "read_request patch HealthDependencies vs q body = GetDependencies"
| "read_request patch AuthLogin vs q body = PostLogin body"
| "read_request patch AuthTwoFactor vs q body = PostTwoFactor body"
| "read_request patch AuthRefresh vs q body = PostRefresh body"
| "read_request patch AuthLogout vs q body = PostLogout body"
| "read_request patch AuthMe vs q body = rest_request.GetMe"

text \<open>The request the API process sees behind the web server: \<open>None\<close> is a 404.\<close>

definition route_request :: "(json option \<Rightarrow> setting_patch option) \<Rightarrow> http_request \<Rightarrow> rest_request option" where
  "route_request patch rq =
     map_option (\<lambda>(r, vs). read_request patch r vs (rq_query rq) (rq_body rq))
       (find_route API_ROUTES (rq_method rq) (tl (js_split (CHR ''/'') (rq_path rq))))"

definition through_web :: "env \<Rightarrow> http_request \<Rightarrow> http_request option" where
  "through_web env rq =
     map_option (\<lambda>url. rq\<lparr>rq_path := drop (length (apiInternalUrl env)) url\<rparr>) (web_rewrites env (rq_path rq))"

definition bearer :: "string option \<Rightarrow> string option" where
  "bearer token = map_option (\<lambda>t. BEARER @ t) token"

definition serve ::
  "env \<Rightarrow> (json option \<Rightarrow> setting_patch option) \<Rightarrow> rest_world \<Rightarrow> rest_tables \<Rightarrow> http_request
    \<Rightarrow> (rest_tables \<times> rest_effect list \<times> (http_error + rest_answer)) option" where
  "serve env patch w st rq =
     (case through_web env rq of
        None \<Rightarrow> None
      | Some rq1 \<Rightarrow> map_option (rest_handle w st (bearer (rq_token rq1))) (route_request patch rq1))"

lemma through_web_api [simp]:
  "through_web env \<lparr>rq_method = m, rq_path = ''/api/'' @ p, rq_query = q, rq_token = t, rq_body = b\<rparr>
   = Some \<lparr>rq_method = m, rq_path = ''/'' @ p, rq_query = q, rq_token = t, rq_body = b\<rparr>"
  by (simp add: through_web_def web_rewrites_def)

lemma js_split_first: "c \<notin> set xs \<Longrightarrow> js_split c (xs @ c # ys) = xs # js_split c ys"
  by (induction xs) auto

section \<open>The requests of the browser\<close>

datatype browser_call =
  AlertsPage "string option" int int
| SecurityPage "string option" "string option" int int string
| QueueStatus string
| RestartOf string string
| DependenciesStatus
| ChartOf string string metric_range

fun call_request :: "browser_call \<Rightarrow> string \<times> api_request" where
  "call_request (AlertsPage t l p) = (''GET'', ''/api/alerts/feed'', alerts_params t l p, None)"
| "call_request (SecurityPage a u s t token) = (''GET'', ''/api/security-audit'', security_params a u s t, Some token)"
| "call_request (QueueStatus token) = (''GET'', ''/api/taskforge-status'', [], Some token)"
| "call_request (RestartOf c token) =
     (''POST'', ''/api/actions/containers/'' @ encodeURIComponent c @ ''/restart'', [], Some token)"
| "call_request DependenciesStatus = (''GET'', ''/api/health/dependencies'', [], None)"
| "call_request (ChartOf c k rng) =
     (''GET'', ''/api/metrics/'' @ fst (metric_params c k rng), snd (metric_params c k rng), None)"

definition http_of :: "string \<times> api_request \<Rightarrow> http_request" where
  "http_of = (\<lambda>(m, path, q, token). \<lparr>rq_method = m, rq_path = path, rq_query = q, rq_token = token, rq_body = None\<rparr>)"

text \<open>These are the requests the clients of WebApi send.\<close>

lemma clients_send:
  "fetchAlerts str http t l p = api_answer str (http (snd (call_request (AlertsPage t l p))))"
  "fetchSecurityAudit str http a u s n token = api_answer str (http (snd (call_request (SecurityPage a u s n token))))"
  "fetchTaskforgeStatus str http token = api_answer str (http (snd (call_request (QueueStatus token))))"
  "restart_call str encodeURIComponent http c token =
     (case http (snd (call_request (RestartOf c token))) of NetFail \<Rightarrow> ApiThrows
      | Resp s b \<Rightarrow> if resp_ok s then ApiOk JNull else ApiError (error_text str (json_or_empty b) (http_text s)) s)"
  "fetchDependenciesHealth http = (case http (snd (call_request DependenciesStatus)) of
     Resp s (Some b) \<Rightarrow> if resp_ok s then ApiOk b else ApiThrows | _ \<Rightarrow> ApiThrows)"
  "fetchMetricSeries http c k rng = (case http (snd (call_request (ChartOf c k rng))) of
     Resp s (Some b) \<Rightarrow> if \<not> resp_ok s \<or> b = JNull then None else Some (jfield ''points'' b) | _ \<Rightarrow> None)"
  by (simp_all add: fetchAlerts_def fetchSecurityAudit_def fetchTaskforgeStatus_def restart_call_def
        fetchDependenciesHealth_def fetchMetricSeries_def fetchSeries_def)

text \<open>What each is meant to be served as.\<close>

fun meant_as :: "browser_call \<Rightarrow> rest_request" where
  "meant_as (AlertsPage t l p) = GetAlertsFeed (if truthy t then t else None) (Some (show_int l)) (Some (show_int p))"
| "meant_as (SecurityPage a u s t token) = GetSecurityAudit (if truthy a then a else None) (if truthy u then u else None)
     (Some (show_int s)) (Some (show_int t))"
| "meant_as (QueueStatus token) = GetTaskforgeStatus"
| "meant_as (RestartOf c token) = PostRestart c"
| "meant_as DependenciesStatus = GetDependencies"
| "meant_as (ChartOf c k rng) =
     (if rng = OneHour then GetMetricsLive (Some c) (Some k) (Some ''60'')
      else GetMetricsHistory (Some c) (Some k) (Some (show_int (RANGE_HOURS rng))))"

text \<open>A name that makes one segment; \<open>fetch\<close> would resolve the segments of one or two dots away.\<close>

fun segment_ok :: "browser_call \<Rightarrow> bool" where
  "segment_ok (RestartOf c token) = (c \<notin> {[], ''.'', ''..''})"
| "segment_ok _ = True"

lemma restart_path_split:
  "js_split (CHR ''/'') (''/actions/containers/'' @ encodeURIComponent c @ ''/restart'')
   = [[], ''actions'', ''containers'', encodeURIComponent c, ''restart'']"
  using encode_no_slash [of c] by (simp add: js_split_first [where c = "CHR ''/''"])

lemma restart_served:
  assumes "c \<noteq> []"
  shows "serve env patch w st (http_of (call_request (RestartOf c token)))
    = Some (rest_handle w st (bearer (Some token)) (PostRestart c))"
  using restart_path_split [of c] assms
  by (simp add: serve_def http_of_def route_request_def API_ROUTES_eval decode_encode
      through_web_api [of _ _ "''actions/containers/'' @ encodeURIComponent c @ ''/restart''", simplified])

lemma chart_served:
  "serve env patch w st (http_of (call_request (ChartOf c k rng)))
    = Some (rest_handle w st (bearer None) (meant_as (ChartOf c k rng)))"
  by (cases rng) (simp_all add: serve_def http_of_def metric_params_def param_def route_request_def API_ROUTES_eval
      through_web_api [of _ _ "''metrics/live''", simplified] through_web_api [of _ _ "''metrics/history''", simplified])



section \<open>The requests of the session\<close>

definition json_fields :: "(string \<times> string) list \<Rightarrow> (string \<times> json) list" where
  "json_fields fs = map (\<lambda>(k, v). (k, JStr v)) fs"

definition post_request :: "string \<Rightarrow> (string \<times> string) list \<Rightarrow> http_request" where
  "post_request path fs =
     \<lparr>rq_method = ''POST'', rq_path = ''/api'' @ path, rq_query = [], rq_token = None, rq_body = Some (JObj (json_fields fs))\<rparr>"

definition me_request :: "string option \<Rightarrow> http_request" where
  "me_request token =
     \<lparr>rq_method = ''GET'', rq_path = ''/api/auth/me'', rq_query = [],
      rq_token = Some (nullish token ''undefined''), rq_body = None\<rparr>"

text \<open>A form is sent with all of its fields filled in.\<close>

fun filled :: "web_event \<Rightarrow> bool" where
  "filled (CallLogin u p) = (u \<noteq> [] \<and> p \<noteq> [])"
| "filled (CallVerify ch code) = (ch \<noteq> [] \<and> code \<noteq> [])"
| "filled _ = True"

text \<open>What a step of the session can post.\<close>

datatype session_post = LoginPost string string | CodePost string string | RefreshPost string | LogoutPost string

fun post_effect :: "session_post \<Rightarrow> web_effect" where
  "post_effect (LoginPost u p) = PostAuth ''/auth/login'' [(''email'', u), (''password'', p)]"
| "post_effect (CodePost ch code) = PostAuth ''/auth/2fa/verify'' [(''challengeToken'', ch), (''code'', code)]"
| "post_effect (RefreshPost t) = PostAuth ''/auth/refresh'' [(''refreshToken'', t)]"
| "post_effect (LogoutPost t) = PostAuth ''/auth/logout'' [(''refreshToken'', t)]"

fun post_filled :: "session_post \<Rightarrow> bool" where
  "post_filled (LoginPost u p) = (u \<noteq> [] \<and> p \<noteq> [])"
| "post_filled (CodePost ch code) = (ch \<noteq> [] \<and> code \<noteq> [])"
| "post_filled (RefreshPost t) = (t \<noteq> [])"
| "post_filled (LogoutPost t) = (t \<noteq> [])"

text \<open>The call to cci-auth-service it ends in.\<close>

fun post_call :: "session_post \<Rightarrow> auth_call" where
  "post_call (LoginPost u p) = (''/auth/login'', json_fields [(''email'', u), (''password'', p)])"
| "post_call (CodePost ch code) = (''/2fa/verify'', json_fields [(''challengeToken'', ch), (''code'', code)])"
| "post_call (RefreshPost t) = (''/auth/refresh'', json_fields [(''refreshToken'', t)])"
| "post_call (LogoutPost t) = (''/auth/logout'', json_fields [(''refreshToken'', t)])"

lemma truthy_nonempty: "truthy x \<Longrightarrow> the x \<noteq> []"
  by (auto simp: truthy_iff)

lemma no_post_after_failure: "PostAuth path fs \<notin> set (snd (chain_failed storage who e s))"
  by (cases who) (auto simp: chain_failed_def)

lemma no_post_after_answer:
  "PostAuth path fs \<notin> set (snd (tokens_answer str storage who http s))"
  "PostAuth path fs \<notin> set (snd (me_answer storage who http s))"
  using no_post_after_failure [of path fs storage who]
  by (auto simp: tokens_answer_def me_answer_def applySession_def Let_def split: api_result.splits option.splits caller.splits)

lemma session_posts:
  assumes "web_step str storage s e = (s1, out)" and "PostAuth path fs \<in> set out" and "filled e"
  shows "\<exists>p. PostAuth path fs = post_effect p \<and> post_filled p"
proof (cases e)
  case Mount
  with assms show ?thesis
    by (intro exI [of _ "RefreshPost (the (loadRefreshToken storage s))"])
       (auto simp: mount_def call_refresh_def truthy_nonempty split: if_splits)
next
  case (CallLogin u p)
  with assms show ?thesis by (intro exI [of _ "LoginPost u p"]) auto
next
  case (CallVerify ch code)
  with assms show ?thesis by (intro exI [of _ "CodePost ch code"]) auto
next
  case CallLogout
  with assms show ?thesis
    by (intro exI [of _ "LogoutPost (the (ws_ref s))"])
       (auto simp: web_logout_def Let_def truthy_nonempty split: if_splits)
next
  case RenewTick
  with assms show ?thesis
    by (intro exI [of _ "RefreshPost (the (ws_ref s))"])
       (auto simp: renew_tick_def call_refresh_def truthy_nonempty split: if_splits)
next
  case (Answer i http)
  have "out = snd (web_step str storage s e)" using assms(1) by simp
  with assms(2) no_post_after_answer [of path fs] show ?thesis
    by (auto simp: Answer split: web_call.splits)
qed

lemma post_routed:
  "PostAuth path fs = post_effect p \<Longrightarrow> serve env patch w st (post_request path fs)
    = Some (rest_handle w st None (case p of
        LoginPost _ _ \<Rightarrow> PostLogin (Some (JObj (json_fields fs))) | CodePost _ _ \<Rightarrow> PostTwoFactor (Some (JObj (json_fields fs)))
      | RefreshPost _ \<Rightarrow> PostRefresh (Some (JObj (json_fields fs))) | LogoutPost _ \<Rightarrow> PostLogout (Some (JObj (json_fields fs)))))"
  by (cases p)
     (simp_all add: post_request_def serve_def route_request_def API_ROUTES_eval bearer_def
        through_web_api [of _ _ "''auth/login''", simplified] through_web_api [of _ _ "''auth/2fa/verify''", simplified]
        through_web_api [of _ _ "''auth/refresh''", simplified] through_web_api [of _ _ "''auth/logout''", simplified])


definition relay_world :: rest_world where
  "relay_world = demo_world\<lparr>w_env := (\<lambda>_. Some ''x'')\<rparr>"


section \<open>The user of the page\<close>

text \<open>An \<open>AuthUser\<close> as JSON, the answer of \<open>/auth/me\<close>.\<close>

definition string_or_null :: "string option \<Rightarrow> json" where
  "string_or_null s = (case s of None \<Rightarrow> JNull | Some x \<Rightarrow> JStr x)"

definition user_json :: "auth_user \<Rightarrow> json" where
  "user_json u = JObj [(''sub'', string_or_null (sub u)), (''email'', string_or_null (email u)),
     (''role'', JStr (role_name (user_role u)))]"

lemma jstring_or_null [simp]: "jstring (Some (string_or_null s)) = s"
  by (cases s) (simp_all add: string_or_null_def)

lemma user_of_json: "user_of (user_json u) = u"
  by (cases "user_role u") (simp_all add: user_of_def user_json_def)

text \<open>
  C7: the page's user is the API's.  The session's question who its token stands for gets through
  to \<open>/auth/me\<close>; the answer, written as JSON and read back, becomes the session's user; and
  every request with that token is then decided for exactly this user: refused when its route
  asks for more than the role the page shows (403, or 401 when the page shows nobody), else
  handled under the page's user.
\<close>

theorem page_user_is_api_user:
  "\<exists>u. serve env patch w st (me_request (Some token)) = Some (st, [], Inr (UserAnswer u))
    \<and> (let shown = ws_user (fst (me_answer storage who (Resp 200 (Some (user_json u))) s))
        in rest_handle w st (bearer (Some token)) req =
          (case class_role (request_route req) of
             Some r \<Rightarrow> if hasRole shown r then rest_dispatch w st shown (bearer (Some token)) req
               else (st, [], Inl (if sub shown = None then Unauthorized else Forbidden))
           | None \<Rightarrow> rest_dispatch w st shown (bearer (Some token)) req))"
proof -
  let ?u = "authenticate (w_jwt w) (w_env w) (Some token)"
  have b: "bearer_token (Some (BEARER @ token)) = Some token" by (simp add: bearer_token_Some)
  have serve: "serve env patch w st (me_request (Some token)) = Some (st, [], Inr (UserAnswer ?u))"
    by (simp add: serve_def me_request_def through_web_api [of _ _ "''auth/me''", simplified] route_request_def
        API_ROUTES_eval bearer_def rest_handle_def guard_route_def min_role_def canActivate_def b me_def Let_def)
  have shown: "ws_user (fst (me_answer storage who (Resp 200 (Some (user_json ?u))) s)) = ?u"
    by (cases who) (simp_all add: me_answer_def fetchMe_def resp_ok_def user_of_json Let_def)
  show ?thesis
    by (intro exI [of _ ?u] conjI serve, unfold shown)
       (auto simp: Let_def bearer_def rest_handle_def guard_route_def min_role_def canActivate_def b split: option.splits)
qed

end
