(* ===== verification/LiveMessages.thy ===== *)
theory LiveMessages
  imports LiveServer Auth
begin

text \<open>
  The message handlers of apps/api/src/gateway/live.gateway.ts on the machine of theory
  LiveServer: what a client may send (\<open>ClientToServerEvents\<close> of packages/shared/src/events.ts) and
  what it is answered.  A handler's result travels as the ack; \<open>None\<close> is an ack that does not
  come with this step: the handler is still awaited, or it threw.
\<close>

section \<open>Messages\<close>

datatype client_message =
  MsgRoomsSubscribe json
| MsgRoomsUnsubscribe json
| MsgStateResync
| MsgLogsSubscribe json
| MsgLogsUnsubscribe json

datatype message_ack = RoomsAck "string list" | StateAck state_snapshot | LogsAck logs_ack

text \<open>What a resync finds: the inspections, the container list and the clock.\<close>

record resync_world =
  rw_collation :: "string \<Rightarrow> string \<Rightarrow> bool"
  rw_inspect :: inspector
  rw_listing :: "container_info list option"
  rw_now :: int

section \<open>Handlers\<close>

text \<open>\<open>afterInit\<close> installs the handshake of theory Auth: the user of a new socket.\<close>

definition afterInit :: "jwt_lib \<Rightarrow> env \<Rightarrow> json option \<Rightarrow> string option \<Rightarrow> http_error + auth_user" where
  "afterInit jwt env auth_token header = ws_handshake (authenticate jwt env) auth_token header"

definition onResync :: "env \<Rightarrow> server_lib \<Rightarrow> resync_world \<Rightarrow> state_snapshot option" where
  "onResync env lib w = getSnapshot env (lib_date lib) (rw_collation w) (rw_inspect w) (rw_listing w) (rw_now w)"

text \<open>The answer to the socket among the effects of the log service.\<close>

fun logs_answer :: "string \<Rightarrow> logs_effect list \<Rightarrow> message_ack option" where
  "logs_answer socket [] = None"
| "logs_answer socket (Reply s a # out) = (if s = socket then Some (LogsAck a) else logs_answer socket out)"
| "logs_answer socket (e # out) = logs_answer socket out"

definition with_logs :: "live_server \<Rightarrow> string \<Rightarrow> logs_state \<times> logs_effect list \<Rightarrow> live_server \<times> server_effect list \<times> message_ack option" where
  "with_logs st socket r = (st\<lparr>srv_logs := fst r\<rparr>, map LogsDid (snd r), logs_answer socket (snd r))"

definition onLogsSubscribe :: "live_server \<Rightarrow> string \<Rightarrow> json \<Rightarrow> live_server \<times> server_effect list \<times> message_ack option" where
  "onLogsSubscribe st socket req = with_logs st socket (subscribe (srv_logs st) socket req)"

definition onLogsUnsubscribe :: "live_server \<Rightarrow> string \<Rightarrow> json \<Rightarrow> live_server \<times> server_effect list \<times> message_ack option" where
  "onLogsUnsubscribe st socket req = with_logs st socket (unsubscribe (srv_logs st) socket req)"

fun on_message ::
  "env \<Rightarrow> server_lib \<Rightarrow> resync_world \<Rightarrow> live_server \<Rightarrow> string \<Rightarrow> client_message
    \<Rightarrow> live_server \<times> server_effect list \<times> message_ack option" where
  "on_message env lib w st socket (MsgRoomsSubscribe req) =
     (let (rooms, valid) = onSubscribe (srv_rooms st) socket req in (st\<lparr>srv_rooms := rooms\<rparr>, [], Some (RoomsAck valid)))"
| "on_message env lib w st socket (MsgRoomsUnsubscribe req) =
     (let (rooms, valid) = onUnsubscribe (srv_rooms st) socket req in (st\<lparr>srv_rooms := rooms\<rparr>, [], Some (RoomsAck valid)))"
| "on_message env lib w st socket MsgStateResync = (st, [], map_option StateAck (onResync env lib w))"
| "on_message env lib w st socket (MsgLogsSubscribe req) = onLogsSubscribe st socket req"
| "on_message env lib w st socket (MsgLogsUnsubscribe req) = onLogsUnsubscribe st socket req"

section \<open>Messages are steps of the machine\<close>

fun message_event :: "string \<Rightarrow> client_message \<Rightarrow> server_event option" where
  "message_event s (MsgRoomsSubscribe req) = Some (FromClient (RoomsSubscribe s req))"
| "message_event s (MsgRoomsUnsubscribe req) = Some (FromClient (RoomsUnsubscribe s req))"
| "message_event s MsgStateResync = None"
| "message_event s (MsgLogsSubscribe req) = Some (FromLogs (Subscribe s req))"
| "message_event s (MsgLogsUnsubscribe req) = Some (FromLogs (Unsubscribe s req))"

lemma on_message_step:
  "(case message_event s msg of
      None \<Rightarrow> on_message env lib w st s msg = (st, [], map_option StateAck (onResync env lib w))
    | Some e \<Rightarrow> server_step env lib st e
        = (fst (on_message env lib w st s msg), fst (snd (on_message env lib w st s msg))))"
  by (cases msg) (simp_all add: split_beta Let_def onLogsSubscribe_def onLogsUnsubscribe_def with_logs_def)

section \<open>What a message can touch\<close>

lemma session_key_inj:
  assumes "CHR ''|'' \<notin> set s" and "CHR ''|'' \<notin> set t" and "session_key s c = session_key t d"
  shows "s = t"
proof -
  have "starts_with (session_key s c) (t @ ''|'')"
    unfolding assms(3) using session_key_prefix [OF assms(2,2)] by blast
  with session_key_prefix [OF assms(2,1)] show ?thesis by blast
qed

lemma unsubscribe_effect:
  "fst (unsubscribe l s req) = l
    \<or> (\<exists>c j. map_of (sessions l) (session_key s c) = Some j \<and> fst (unsubscribe l s req) = fst (on_slot l j Close))"
proof (cases "if jis_object req then jstring (jfield ''container'' req) else None")
  case None
  then show ?thesis by (simp add: unsubscribe_def)
next
  case (Some c)
  show ?thesis
  proof (cases "map_of (sessions l) (session_key s c)")
    case None
    with Some show ?thesis by (simp add: unsubscribe_def)
  next
    case (Some j)
    with \<open>(if jis_object req then jstring (jfield ''container'' req) else None) = Some c\<close>
    have "fst (unsubscribe l s req) = fst (on_slot l j Close)" by (simp add: unsubscribe_def split_beta Let_def)
    with Some show ?thesis by blast
  qed
qed

lemma unsubscribe_own_slot:
  assumes "registry_ok l" and "names_ok l" and "CHR ''|'' \<notin> set s" and "unsubscribe l s req = (l1, out)"
    and "i < length (slots l)" and "owner (slots l ! i) \<noteq> s"
  shows "slots l1 ! i = slots l ! i"
proof -
  consider "l1 = l" | c j where "map_of (sessions l) (session_key s c) = Some j" "l1 = fst (on_slot l j Close)"
    using unsubscribe_effect [of l s req] assms(4) by (auto simp: fst_conv)
  then show ?thesis
  proof cases
    case 2
    then have "(session_key s c, j) \<in> set (sessions l)" by (simp add: map_of_SomeD)
    with assms(1) have j: "j < length (slots l)" and k: "session_key s c = slot_key (slots l ! j)"
      by (auto simp: registry_defs)
    from assms(2) j have "CHR ''|'' \<notin> set (owner (slots l ! j))" by (simp add: names_ok_def)
    with k assms(3) have "owner (slots l ! j) = s" by (metis session_key_inj slot_key_def)
    with assms(6) have "i \<noteq> j" by auto
    with on_slot_frame(5) [OF j, of Close l1 "snd (on_slot l j Close)" i] 2 show ?thesis by simp
  qed simp
qed

text \<open>
  C15: the live namespace is read-only.  Whatever a socket sends, and whoever it is, in any state
  the process reaches: no update is published and no alert is sent or noted, the engine
  subscription does not change, no other socket joins or leaves a room and no log session of
  another socket is touched.  A room request is answered with distinct valid names, at most 50,
  which are exactly the rooms this socket has joined or left by it; a resync is answered with
  the snapshot of the inventory.
\<close>

theorem live_namespace_read_only:
  assumes "server_run env lib t0 es now st past" and "CHR ''|'' \<notin> set s" and "on_message env lib w st s msg = (st1, out, ack)"
  shows "srv_engine st1 = srv_engine st \<and> srv_alerts st1 = srv_alerts st
    \<and> List.map_filter sent_update out = [] \<and> List.map_filter alert_done out = []
    \<and> (\<forall>t r. t \<noteq> s \<longrightarrow> ((t, r) \<in> srv_rooms st1 \<longleftrightarrow> (t, r) \<in> srv_rooms st))
    \<and> (\<forall>i < length (slots (srv_logs st)). owner (slots (srv_logs st) ! i) \<noteq> s
         \<longrightarrow> slots (srv_logs st1) ! i = slots (srv_logs st) ! i)
    \<and> (case msg of
         MsgRoomsSubscribe req \<Rightarrow> \<exists>ks. ack = Some (RoomsAck ks) \<and> distinct ks \<and> length ks \<le> 50 \<and> list_all SERVICE_NAME ks
           \<and> srv_rooms st1 = srv_rooms st \<union> {(s, serviceRoom k) | k. k \<in> set ks}
       | MsgRoomsUnsubscribe req \<Rightarrow> \<exists>ks. ack = Some (RoomsAck ks) \<and> distinct ks \<and> length ks \<le> 50 \<and> list_all SERVICE_NAME ks
           \<and> srv_rooms st1 = srv_rooms st - {(s, serviceRoom k) | k. k \<in> set ks}
       | MsgStateResync \<Rightarrow> st1 = st \<and> ack = map_option StateAck
           (getSnapshot env (lib_date lib) (rw_collation w) (rw_inspect w) (rw_listing w) (rw_now w))
       | _ \<Rightarrow> srv_rooms st1 = srv_rooms st)"
proof -
  have "logs_run (lib_is_date lib) logs_init (List.map_filter logs_part es) (srv_logs st) (List.map_filter logs_done_by past)"
    using server_components [OF assms(1)] by blast
  from registry_run [OF this] registry_init have reg: "names_ok (srv_logs st)" "registry_ok (srv_logs st)" by simp_all
  show ?thesis
  proof (cases msg)
    case (MsgRoomsSubscribe req)
    have "list_all SERVICE_NAME (sanitizeServices req)" by (simp add: list_all_iff sanitize_valid)
    with MsgRoomsSubscribe assms(3) sanitize_distinct [of req] sanitize_bound [of req] show ?thesis
      by (auto simp: onSubscribe_def Let_def)
  next
    case (MsgRoomsUnsubscribe req)
    have "list_all SERVICE_NAME (sanitizeServices req)" by (simp add: list_all_iff sanitize_valid)
    with MsgRoomsUnsubscribe assms(3) sanitize_distinct [of req] sanitize_bound [of req] show ?thesis
      by (auto simp: onUnsubscribe_def Let_def)
  next
    case MsgStateResync
    with assms(3) show ?thesis by (auto simp: onResync_def)
  next
    case (MsgLogsSubscribe req)
    with assms(3) show ?thesis
      by (auto simp: onLogsSubscribe_def with_logs_def subscribe_frame)
  next
    case (MsgLogsUnsubscribe req)
    have "slots (fst (unsubscribe (srv_logs st) s req)) ! i = slots (srv_logs st) ! i"
      if "i < length (slots (srv_logs st))" "owner (slots (srv_logs st) ! i) \<noteq> s" for i
      using unsubscribe_own_slot [OF reg(2,1) assms(2) _ that] by (metis prod.collapse)
    with MsgLogsUnsubscribe assms(3) show ?thesis
      by (auto simp: onLogsUnsubscribe_def with_logs_def)
  qed
qed

section \<open>Witness\<close>

lemma one_stream_server:
  "\<exists>out. server_run (\<lambda>_. None) sample_server_lib 0 (map FromLogs one_stream) 0 (server_init\<lparr>srv_logs := one_stream_state\<rparr>) out"
proof -
  have "server_exec (\<lambda>_. None) sample_server_lib 0 server_init (map FromLogs one_stream)
      = Some (0, server_init\<lparr>srv_logs := one_stream_state\<rparr>,
          map LogsDid [FindManaged ''a'', OpenLogs ''a'' 100, Reply ''s'' AckOk])"
    by (simp add: one_stream_def server_init_def one_stream_steps take_waiting_def remove_nth.simps)
  from server_exec_run [OF this server_start] show ?thesis by auto
qed

definition no_containers :: resync_world where
  "no_containers = \<lparr>rw_collation = (\<lambda>_ _. True), rw_inspect = (\<lambda>_. None), rw_listing = Some [], rw_now = 0\<rparr>"

text \<open>Another socket cannot stop the stream of the first.\<close>

theorem live_namespace_read_only_witness:
  "(\<exists>out. server_run (\<lambda>_. None) sample_server_lib 0 (map FromLogs one_stream) 0 (server_init\<lparr>srv_logs := one_stream_state\<rparr>) out)
    \<and> slots (srv_logs (fst (on_message (\<lambda>_. None) sample_server_lib no_containers (server_init\<lparr>srv_logs := one_stream_state\<rparr>)
        ''t'' (MsgLogsUnsubscribe (log_request ''a''))))) ! 0 = slots one_stream_state ! 0"
proof -
  obtain out where run: "server_run (\<lambda>_. None) sample_server_lib 0 (map FromLogs one_stream) 0
      (server_init\<lparr>srv_logs := one_stream_state\<rparr>) out" using one_stream_server by blast
  obtain st1 out1 ack where m: "on_message (\<lambda>_. None) sample_server_lib no_containers (server_init\<lparr>srv_logs := one_stream_state\<rparr>)
      ''t'' (MsgLogsUnsubscribe (log_request ''a'')) = (st1, out1, ack)" by (cases rule: prod_cases3) blast
  from live_namespace_read_only [OF run _ m] have "slots (srv_logs st1) ! 0 = slots one_stream_state ! 0"
    by (simp add: one_stream_state_def)
  with run m show ?thesis by auto
qed

end
