(* ===== verification/WebConnection.thy ===== *)
theory WebConnection
  imports WebLive LiveMessages Routes
begin

text \<open>
  The socket of the page and the session (apps/web/src/lib/live/live-provider.tsx inside
  auth-provider.tsx, as live-dashboard.tsx nests them): the effect of the provider opens a socket
  with the access token of the session and runs again, cleanup first, when the token changes.
  Socket.IO calls the handlers of a socket only until it is disconnected; reconnections of the
  same socket are further \<open>SocketConnect\<close> events of it.
\<close>

section \<open>The sockets of the provider\<close>

definition LIVE_NAMESPACE :: string where
  "LIVE_NAMESPACE = ''/live''"

record socket_provider =
  sp_token :: "string option" \<comment> \<open>the dependency of the last effect\<close>
  sp_sockets :: nat \<comment> \<open>sockets opened so far; the last one is the current one\<close>
  sp_connected :: bool
  sp_live :: live_state

datatype socket_effect =
  OpenSocket nat string "json option" \<comment> \<open>URL and \<open>auth.token\<close>\<close>
| CloseSocket nat
| SocketEmits nat live_emit

text \<open>\<open>accessToken ? { token: accessToken } : {}\<close>\<close>

definition auth_option :: "string option \<Rightarrow> json option" where
  "auth_option token = (if truthy token then map_option JStr token else None)"

definition open_socket :: "env \<Rightarrow> string option \<Rightarrow> socket_provider \<Rightarrow> socket_provider \<times> socket_effect list" where
  "open_socket env token st =
     (st\<lparr>sp_token := token, sp_sockets := sp_sockets st + 1, sp_connected := False\<rparr>,
      [OpenSocket (sp_sockets st) (wsBaseUrl env @ LIVE_NAMESPACE) (auth_option token)])"

definition provider_mount :: "env \<Rightarrow> string option \<Rightarrow> socket_provider \<times> socket_effect list" where
  "provider_mount env token =
     open_socket env token \<lparr>sp_token = None, sp_sockets = 0, sp_connected = False, sp_live = live_init\<rparr>"

text \<open>\<open>live.disconnect()\<close>: a connected socket still reports its \<open>disconnect\<close>, and awaited acks are
  rejected.\<close>

definition close_socket :: "(string \<Rightarrow> string \<Rightarrow> bool) \<Rightarrow> socket_provider \<Rightarrow> socket_provider \<times> socket_effect list" where
  "close_socket loc st =
     (st\<lparr>sp_connected := False,
         sp_live := (if sp_connected st then fst (live_step loc (sp_live st) SocketDisconnect) else sp_live st)\<rparr>,
      [CloseSocket (sp_sockets st - 1)])"

definition token_rendered ::
  "(string \<Rightarrow> string \<Rightarrow> bool) \<Rightarrow> env \<Rightarrow> string option \<Rightarrow> socket_provider \<Rightarrow> socket_provider \<times> socket_effect list" where
  "token_rendered loc env token st =
     (if token = sp_token st then (st, [])
      else let (st1, out1) = close_socket loc st; (st2, out2) = open_socket env token st1 in (st2, out1 @ out2))"

fun connects :: "bool \<Rightarrow> live_event \<Rightarrow> bool" where
  "connects c SocketConnect = True"
| "connects c SocketDisconnect = False"
| "connects c _ = c"

definition socket_event ::
  "(string \<Rightarrow> string \<Rightarrow> bool) \<Rightarrow> nat \<Rightarrow> live_event \<Rightarrow> socket_provider \<Rightarrow> socket_provider \<times> socket_effect list" where
  "socket_event loc i e st =
     (let (l, out) = live_step loc (sp_live st) e
      in (st\<lparr>sp_connected := connects (sp_connected st) e, sp_live := l\<rparr>, map (SocketEmits i) out))"

text \<open>Only the current socket has handlers that run; what comes over the wire needs a connection.\<close>

fun socket_enabled :: "socket_provider \<Rightarrow> nat \<Rightarrow> live_event \<Rightarrow> bool" where
  "socket_enabled st i SocketConnect = (Suc i = sp_sockets st \<and> \<not> sp_connected st)"
| "socket_enabled st i ReconnectAttempt = (Suc i = sp_sockets st \<and> \<not> sp_connected st)"
| "socket_enabled st i e = (Suc i = sp_sockets st \<and> sp_connected st \<and> live_enabled (sp_live st) e)"

section \<open>Session and socket together\<close>

record connected_page =
  cp_session :: web_session
  cp_provider :: socket_provider

datatype page_happening = SessionHappens web_event | SocketHappens nat live_event

datatype page_output = SessionDid web_effect | SocketDid socket_effect

definition connected_start :: "env \<Rightarrow> bool \<Rightarrow> string option \<Rightarrow> connected_page \<times> page_output list" where
  "connected_start env storage stored =
     (let (s, out) = mount storage (web_init stored); (p, out1) = provider_mount env (ws_access s)
      in (\<lparr>cp_session = s, cp_provider = p\<rparr>, map SessionDid out @ map SocketDid out1))"

fun connected_step ::
  "(json \<Rightarrow> string) \<Rightarrow> (string \<Rightarrow> string \<Rightarrow> bool) \<Rightarrow> env \<Rightarrow> bool \<Rightarrow> connected_page \<Rightarrow> page_happening
    \<Rightarrow> connected_page \<times> page_output list" where
  "connected_step str loc env storage st (SessionHappens e) =
     (let (s, out) = web_step str storage (cp_session st) e;
          (p, out1) = token_rendered loc env (ws_access s) (cp_provider st)
      in (\<lparr>cp_session = s, cp_provider = p\<rparr>, map SessionDid out @ map SocketDid out1))"
| "connected_step str loc env storage st (SocketHappens i e) =
     (let (p, out) = socket_event loc i e (cp_provider st) in (st\<lparr>cp_provider := p\<rparr>, map SocketDid out))"

fun connected_enabled :: "connected_page \<Rightarrow> page_happening \<Rightarrow> bool" where
  "connected_enabled st (SessionHappens e) = (web_enabled (cp_session st) e \<and> e \<noteq> Mount)"
| "connected_enabled st (SocketHappens i e) = socket_enabled (cp_provider st) i e"

inductive connected_run ::
  "(json \<Rightarrow> string) \<Rightarrow> (string \<Rightarrow> string \<Rightarrow> bool) \<Rightarrow> env \<Rightarrow> bool \<Rightarrow> string option
    \<Rightarrow> page_happening list \<Rightarrow> connected_page \<Rightarrow> page_output list \<Rightarrow> bool" for str loc env storage stored where
  connected_first: "connected_start env storage stored = (st, out)
    \<Longrightarrow> connected_run str loc env storage stored [] st out"
| connected_more: "\<lbrakk>connected_run str loc env storage stored es st out; connected_enabled st e;
     connected_step str loc env storage st e = (st1, out1)\<rbrakk>
    \<Longrightarrow> connected_run str loc env storage stored (es @ [e]) st1 (out @ out1)"

section \<open>One socket, of the session's user\<close>

text \<open>The sockets that are open after some effects, with the credentials each was opened with.\<close>

fun sockets_after :: "page_output list \<Rightarrow> (nat \<times> json option) list \<Rightarrow> (nat \<times> json option) list" where
  "sockets_after [] open_now = open_now"
| "sockets_after (SocketDid (OpenSocket i url a) # out) open_now = sockets_after out (open_now @ [(i, a)])"
| "sockets_after (SocketDid (CloseSocket i) # out) open_now = sockets_after out (filter (\<lambda>s. fst s \<noteq> i) open_now)"
| "sockets_after (e # out) open_now = sockets_after out open_now"

lemma sockets_after_append: "sockets_after (xs @ ys) s = sockets_after ys (sockets_after xs s)"
  by (induction xs s rule: sockets_after.induct) auto

lemma sockets_after_others [simp]:
  "sockets_after (map SessionDid out) s = s"
  "sockets_after (map SocketDid (map (SocketEmits i) es)) s = s"
  "sockets_after (map (SocketDid \<circ> SocketEmits i) es) s = s"
  by (induction out arbitrary: s, simp_all) (induction es arbitrary: s, simp_all)+

definition connection_ok :: "connected_page \<Rightarrow> page_output list \<Rightarrow> bool" where
  "connection_ok st out \<longleftrightarrow>
     sp_token (cp_provider st) = ws_access (cp_session st)
   \<and> 0 < sp_sockets (cp_provider st)
   \<and> sockets_after out [] = [(sp_sockets (cp_provider st) - 1, auth_option (ws_access (cp_session st)))]
   \<and> (lv_status (sp_live (cp_provider st)) = Live \<longleftrightarrow> sp_connected (cp_provider st))
   \<and> lv_resyncs (sp_live (cp_provider st)) \<le> (if sp_connected (cp_provider st) then 1 else 0)"

lemma connection_ok_run:
  "connected_run str loc env storage stored es st out \<Longrightarrow> connection_ok st out"
proof (induction rule: connected_run.induct)
  case (connected_first st out)
  then show ?case
    by (auto simp: connected_start_def provider_mount_def open_socket_def connection_ok_def live_init_def
        sockets_after_append split_beta Let_def)
next
  case (connected_more es st out e st1 out1)
  show ?case
  proof (cases e)
    case (SessionHappens x)
    with connected_more show ?thesis
      by (auto simp: token_rendered_def close_socket_def open_socket_def connection_ok_def sockets_after_append
          split_beta Let_def split: if_splits)
  next
    case (SocketHappens i x)
    with connected_more show ?thesis
      by (cases x) (auto simp: socket_event_def connection_ok_def sockets_after_append split_beta Let_def)
  qed
qed

text \<open>
  C14: one socket, and it is the session's.  However logins, renewals, logouts, answers and socket
  events interleave, the page has exactly one open socket; the gateway's handshake takes it for
  the very user the API takes the session's requests for; no event of an earlier socket is
  handled; and the page says "live" exactly while this socket is connected.
\<close>

theorem socket_follows_session:
  assumes "connected_run str loc env storage stored es st out"
  shows "\<exists>i a. sockets_after out [] = [(i, a)]
    \<and> afterInit jwt api_env a None = Inr (authenticate jwt api_env (ws_access (cp_session st)))
    \<and> (\<forall>j e. connected_enabled st (SocketHappens j e) \<longrightarrow> j = i)
    \<and> (lv_status (sp_live (cp_provider st)) = Live \<longleftrightarrow> sp_connected (cp_provider st))"
proof -
  note ok = connection_ok_run [OF assms]
  let ?t = "ws_access (cp_session st)"
  have user: "afterInit jwt api_env (auth_option ?t) None = Inr (authenticate jwt api_env ?t)"
    by (cases ?t) (auto simp: afterInit_def ws_handshake_def ws_token_def auth_option_def truthy_iff bearer_token_def authenticate_def)
  have current: "j = sp_sockets (cp_provider st) - 1" if "connected_enabled st (SocketHappens j e)" for j e
    using that by (cases e) auto
  show ?thesis
    using ok user current by (intro exI conjI) (auto simp: connection_ok_def)
qed

section \<open>Witness\<close>

definition token_answer :: http_outcome where
  "token_answer = Resp 200 (Some (JObj [(''accessToken'', JStr ''t''), (''refreshToken'', JStr ''r'')]))"

definition login_then_token :: "page_happening list" where
  "login_then_token = [SocketHappens 0 SocketConnect, SessionHappens (CallLogin ''e'' ''p''), SessionHappens (Answer 0 token_answer)]"

definition logged_in_page :: connected_page where
  "logged_in_page =
     \<lparr>cp_session = \<lparr>ws_user = ANONYMOUS, ws_access = Some ''t'', ws_ready = True, ws_ref = Some ''r'', ws_stored = Some ''r'',
        ws_calls = [MeFor LoggingIn]\<rparr>,
      cp_provider = \<lparr>sp_token = Some ''t'', sp_sockets = 2, sp_connected = False,
        sp_live = \<lparr>lv_services = [], lv_status = Reconnecting, lv_resyncs = 0\<rparr>\<rparr>\<rparr>"

lemma connected_next:
  assumes "\<exists>out. connected_run str loc env storage stored es st out" and "connected_enabled st e"
    and "fst (connected_step str loc env storage st e) = st1"
  shows "\<exists>out. connected_run str loc env storage stored (es @ [e]) st1 out"
proof -
  from assms(1) obtain out where "connected_run str loc env storage stored es st out" by blast
  from connected_more [OF this assms(2)] assms(3) show ?thesis by (metis prod.collapse)
qed

lemma login_then_token_run:
  "\<exists>out. connected_run str loc env True None login_then_token logged_in_page out"
proof -
  let ?run = "\<lambda>es st. \<exists>out. connected_run str loc env True None es st out"
  let ?s0 = "\<lparr>ws_user = ANONYMOUS, ws_access = None, ws_ready = True, ws_ref = None, ws_stored = None, ws_calls = []\<rparr>"
  let ?s2 = "\<lparr>ws_user = ANONYMOUS, ws_access = None, ws_ready = True, ws_ref = None, ws_stored = None,
    ws_calls = [TokensFor LoggingIn]\<rparr>"
  let ?p0 = "\<lparr>sp_token = None, sp_sockets = 1, sp_connected = False,
    sp_live = \<lparr>lv_services = [], lv_status = Connecting, lv_resyncs = 0\<rparr>\<rparr>"
  let ?p1 = "\<lparr>sp_token = None, sp_sockets = 1, sp_connected = True,
    sp_live = \<lparr>lv_services = [], lv_status = Live, lv_resyncs = 1\<rparr>\<rparr>"
  have "fst (connected_start env True None) = \<lparr>cp_session = ?s0, cp_provider = ?p0\<rparr>"
    by (simp add: connected_start_def mount_def loadRefreshToken_def web_init_def provider_mount_def open_socket_def live_init_def)
  then have "?run [] \<lparr>cp_session = ?s0, cp_provider = ?p0\<rparr>" by (metis connected_first prod.collapse)
  then have "?run ([] @ [SocketHappens 0 SocketConnect]) \<lparr>cp_session = ?s0, cp_provider = ?p1\<rparr>"
    by (rule connected_next) (simp_all add: socket_event_def)
  then have "?run (([] @ [SocketHappens 0 SocketConnect]) @ [SessionHappens (CallLogin ''e'' ''p'')])
      \<lparr>cp_session = ?s2, cp_provider = ?p1\<rparr>"
    by (rule connected_next) (simp_all add: token_rendered_def)
  then have "?run ((([] @ [SocketHappens 0 SocketConnect]) @ [SessionHappens (CallLogin ''e'' ''p'')])
      @ [SessionHappens (Answer 0 token_answer)]) logged_in_page"
    by (rule connected_next)
       (simp_all add: token_rendered_def token_answer_def tokens_answer_def auth_answer_def resp_ok_def
        json_or_empty_def body_throws_def isTwoFactorChallenge_def applySession_def saveRefreshToken_def pair_of_def
        take_call_def remove_nth.simps close_socket_def open_socket_def logged_in_page_def)
  then show ?thesis by (simp add: login_then_token_def)
qed

theorem socket_follows_session_witness:
  "\<exists>out i a. connected_run (\<lambda>_. []) (\<lambda>_ _. True) (\<lambda>_. None) True None login_then_token logged_in_page out
    \<and> sockets_after out [] = [(i, a)]
    \<and> afterInit demo_lib demo_env a None = Inr (authenticate demo_lib demo_env (Some ''t''))"
proof -
  obtain out where run: "connected_run (\<lambda>_. []) (\<lambda>_ _. True) (\<lambda>_. None) True None login_then_token logged_in_page out"
    using login_then_token_run by blast
  from socket_follows_session [OF run, of demo_lib demo_env] run show ?thesis
    by (auto simp: logged_in_page_def)
qed

end
