(* ===== verification/EndToEnd.thy ===== *)
theory EndToEnd
  imports WebPageRuns Routes LiveServer
begin

text \<open>
  From a click to the engine and from the engine to the grid.  First the page of theory WebPage in
  the browser, the web server and the routes of theory Routes, and the API of theory RestApi, for
  the one action of the program that changes something outside it; then the API process of
  theory LiveServer with the live provider of theory WebLive.
\<close>

section \<open>A click, a restart, a row\<close>

definition docker_restarts :: "rest_effect list \<Rightarrow> string list" where
  "docker_restarts out = List.map_filter (\<lambda>e. case e of ActionDid (DockerRestart n) \<Rightarrow> Some n | _ \<Rightarrow> None) out"

lemma request_of_click:
  assumes "page_enabled lib (q :: rat page_queries) p e" and "page_step lib p e = (p1, out1)" and "RequestRestart c t \<in> set out1"
  shows "pg_selected p = Some c \<and> c \<noteq> [] \<and> pg_token p = Some t \<and> Operator \<le> user_role (pg_user p)"
proof -
  obtain p' o' where e: "event_step lib p e = (p', o')" by fastforce
  have "(c, t) \<in> set (List.map_filter restart_out o')"
    using mem_map_filter [of restart_out "RequestRestart c t" "(c, t)" out1] assms(3) page_step_parts(7) [OF e assms(2)] by simp
  from restart_sent_iff [OF e this] obtain tm where at: "e = UserDoes ClickRestart tm"
    and b: "c = the (pg_selected p)" "truthy (pg_token p)" "t = the (pg_token p)" by blast
  from assms(1) have "panel_mounted p" "panel_visible RestartButton (pg_user p)" by (simp_all add: at restart_offered)
  with b show ?thesis by (auto simp: panel_mounted_def truthy_iff panel_visible_def hasRole_iff)
qed

lemma request_handled:
  assumes "guard_route (w_jwt w) (w_env w) header RestartAction = Inr user" and "w_db_ok w"
    and "rest_handle w st header (PostRestart c) = (st1, eff, res)"
  shows "res \<noteq> Inl Unauthorized \<and> res \<noteq> Inl Forbidden
    \<and> (if docker_restarts eff = [] then st1 = st
       else docker_restarts eff = [c] \<and> rt_audit st1 = rt_audit st
         @ [\<lparr>entry = audit_row user c (if w_docker_ok w then ''ok'' else ''error''), entered = w_now w\<rparr>])"
proof -
  let ?lookup = "findManagedByName (w_env w) (w_date w) (w_inspect w) (w_listing w) c"
  obtain a out r where e: "restart_endpoint (w_env w) (rt_actions st) c user ?lookup
      (w_checked w) (w_recorded w) (w_docker_ok w) (w_db_ok w) = (a, out, r)" by (metis prod_cases3)
  with assms(1,3) have st1: "st1 = st\<lparr>rt_actions := a, rt_audit := rt_audit st @ audit_store (w_now w) out\<rparr>"
    and eff: "eff = map ActionDid out" and res: "res = map_sum id RestartAnswer r" by (auto simp: rest_handle_def)
  have "r \<noteq> Inl Unauthorized \<and> r \<noteq> Inl Forbidden"
    using e by (auto simp: restart_endpoint_def split: if_splits option.splits prod.splits)
  then have "res \<noteq> Inl Unauthorized \<and> res \<noteq> Inl Forbidden" by (cases r) (auto simp: res)
  moreover from e have "if docker_restarts eff = [] then st1 = st
      else docker_restarts eff = [c] \<and> rt_audit st1 = rt_audit st
         @ [\<lparr>entry = audit_row user c (if w_docker_ok w then ''ok'' else ''error''), entered = w_now w\<rparr>]"
  proof (cases rule: restart_endpoint_cases)
    case 1
    then show ?thesis by (simp add: eff st1 docker_restarts_def audit_store_def List.map_filter_simps)
  next
    case (2 m)
    with assms(2) show ?thesis by (simp add: eff st1 docker_restarts_def audit_store_def List.map_filter_simps)
  qed
  ultimately show ?thesis by blast
qed


section \<open>Witness\<close>

text \<open>An operator with a token the demo library accepts, one click away from a restart.\<close>

definition armed_page :: page where
  "armed_page = operator_page\<lparr>pg_button := button_init\<lparr>btn_status := Confirm\<rparr>,
     pg_session := (pg_session operator_page)\<lparr>ws_access := Some ''tok''\<rparr>\<rparr>"

lemma armed_click:
  "page_enabled sample_page_lib no_answers armed_page (UserDoes ClickRestart 5)"
  "RequestRestart ''web'' ''tok'' \<in> set (snd (page_step sample_page_lib armed_page (UserDoes ClickRestart 5)))"
  by (simp_all add: restart_offered armed_page_def operator_page_def admin_page_def panel_mounted_def panel_visible_def
      hasRole_iff page_step_def on_click_def split_beta Let_def)


section \<open>From the engine to the grid\<close>

text \<open>What the socket \<open>c\<close> receives, and requests for rooms that are its own.\<close>

definition received :: "string \<Rightarrow> server_effect list \<Rightarrow> service_update list" where
  "received c out = List.map_filter (\<lambda>e. case e of SendUpdate u ss \<Rightarrow> if c \<in> ss then Some u else None | _ \<Rightarrow> None) out"

fun requester :: "room_request \<Rightarrow> string" where
  "requester (RoomsSubscribe s req) = s"
| "requester (RoomsUnsubscribe s req) = s"
| "requester (Disconnected s) = s"

definition asks :: "string \<Rightarrow> server_event \<Rightarrow> bool" where
  "asks c e = (map_option requester (room_part e) = Some c)"

lemma received_append: "received c (xs @ ys) = received c xs @ received c ys"
  by (simp add: received_def map_filter_append)

lemma step_keeps_rooms:
  assumes "server_step env lib st e = (st1, out)" and "\<not> asks c e"
  shows "(c, r) \<in> srv_rooms st1 \<longleftrightarrow> (c, r) \<in> srv_rooms st"
proof (cases e)
  case (FromEngine g t)
  with assms(1) step_rooms [of env lib st g t st1 out] show ?thesis by simp
next
  case (FromClient q)
  with assms show ?thesis
    by (cases q) (auto simp: asks_def onSubscribe_def onUnsubscribe_def leave_all_def Let_def)
next
  case (HandleDisconnect s)
  with assms show ?thesis by (auto simp: asks_def handleDisconnect_def leave_all_def split_beta Let_def)
qed (use assms in \<open>auto simp: split_beta Let_def\<close>)

lemma step_received:
  assumes "server_step env lib st e = (st1, out)"
  shows "received c out = filter (\<lambda>u. (c, serviceRoom (upd_service u)) \<in> srv_rooms st) (List.map_filter sent_update out)"
proof (cases "\<exists>g t. e = FromEngine g t")
  case True
  then obtain g t where e: "e = FromEngine g t" by blast
  obtain g1 us where g: "engine_step env (lib_parse lib) (lib_date lib) (lib_int lib) (srv_engine st) g = (g1, us)" by fastforce
  with assms e have "out = snd (emit_updates t us (st\<lparr>srv_engine := g1\<rparr>))" by simp
  then have out: "out = map (\<lambda>u. SendUpdate u (publishUpdate True (srv_rooms st) u)) us" by (simp add: emit_updates_frame)
  show ?thesis
    unfolding out received_def by (induction us) (auto simp: List.map_filter_simps publishUpdate_def image_iff)
next
  case False
  then have none: "SendUpdate u ss \<notin> set out" for u ss using published_rooms [OF assms] by blast
  then show ?thesis
    unfolding received_def
    by (induction out) (auto simp: List.map_filter_simps split: server_effect.splits)
qed

lemma exec_received:
  assumes "server_exec env lib now st es = Some (now1, st1, out)" and "list_all (\<lambda>e. \<not> asks c e) es"
  shows "received c out = filter (\<lambda>u. (c, serviceRoom (upd_service u)) \<in> srv_rooms st) (List.map_filter sent_update out)"
  using assms
proof (induction es arbitrary: now st out)
  case Nil
  then show ?case by (simp add: received_def List.map_filter_simps)
next
  case (Cons e es)
  obtain s1 o1 where s1: "server_step env lib st e = (s1, o1)" by fastforce
  with Cons.prems(1) obtain o2 where ex: "server_exec env lib (server_clock now e) s1 es = Some (now1, st1, o2)"
    and out: "out = o1 @ o2" by (auto split: if_splits)
  from Cons.prems(2) step_keeps_rooms [OF s1, of c] have "(c, r) \<in> srv_rooms s1 \<longleftrightarrow> (c, r) \<in> srv_rooms st" for r by simp
  with Cons.IH [OF ex] Cons.prems(2) step_received [OF s1, of c] show ?case
    by (simp add: out received_append map_filter_append)
qed



end
