(* ===== verification/LogStreams.thy ===== *)
theory LogStreams
  imports LogsService WebLogs
begin

text \<open>
  Every stream of the log service (theory LogsService) is a run of the log-session machine
  (theory LogSession), fed with exactly the lines the Docker pipeline (theory LogLines) makes of the
  chunks of its own container; and from there to the terminal of the browser (theory WebLogs).
\<close>

section \<open>Every stream is a log session\<close>

text \<open>The effects of one session object in the effects of the service, and its chunks among the events.\<close>

fun of_slot :: "nat \<Rightarrow> logs_effect list \<Rightarrow> effect list" where
  "of_slot i [] = []"
| "of_slot i (OnSession j e # out) = (if j = i then e # of_slot i out else of_slot i out)"
| "of_slot i (_ # out) = of_slot i out"

fun chunk_of :: "nat \<Rightarrow> logs_event \<Rightarrow> (byte list \<times> (nat \<Rightarrow> utext)) option" where
  "chunk_of i (Data j chunk) = (if j = i then Some chunk else None)"
| "chunk_of i _ = None"

definition chunks_of :: "nat \<Rightarrow> logs_event list \<Rightarrow> (byte list \<times> (nat \<Rightarrow> utext)) list" where
  "chunks_of i es = List.map_filter (chunk_of i) es"

lemma of_slot_append [simp]: "of_slot i (xs @ ys) = of_slot i xs @ of_slot i ys"
  by (induction xs rule: of_slot.induct) auto

lemma of_slot_map [simp]: "of_slot i (map (OnSession j) es) = (if j = i then es else [])"
  by (induction es) auto

text \<open>\<open>ls i\<close>: the lines object \<open>i\<close> has been given so far.\<close>

definition simulates :: "(nat \<Rightarrow> log_line list) \<Rightarrow> logs_state \<Rightarrow> logs_effect list \<Rightarrow> bool" where
  "simulates ls st out \<longleftrightarrow>
     (\<forall>i < length (slots st). \<exists>es. session_trace (DEFAULT_SESSION_OPTIONS (cname (slots st ! i))) es
        (live (slots st ! i)) (of_slot i out) \<and> pushes es = ls i)
   \<and> (\<forall>i \<ge> length (slots st). of_slot i out = [] \<and> ls i = [])"

lemma simulates_slot:
  assumes "simulates ls st out" and "i < length (slots st)" and "event_enabled (live (slots st ! i)) e"
    and "on_slot st i e = (st1, o1)"
  shows "simulates (ls(i := ls i @ pushes [e])) st1 (out @ o1)"
proof -
  let ?opt = "DEFAULT_SESSION_OPTIONS (cname (slots st ! i))"
  obtain s o' where s: "session_step ?opt (live (slots st ! i)) e = (s, o')" by fastforce
  from assms(4) have o1: "o1 = map (OnSession i) o'" and st1: "slots st1 = (slots st)[i := (slots st ! i)\<lparr>live := s\<rparr>]"
    by (auto simp: on_slot_def s Let_def split: if_splits)
  from assms(1,2) obtain es where "session_trace ?opt es (live (slots st ! i)) (of_slot i out)" and ls: "pushes es = ls i"
    by (auto simp: simulates_def)
  from trace_step [OF this(1) assms(3) s] have "session_trace ?opt (es @ [e]) s (of_slot i (out @ o1))"
    by (simp add: o1)
  moreover have "pushes (es @ [e]) = ls i @ pushes [e]" by (simp only: pushes_append ls)
  ultimately have "\<exists>es. session_trace ?opt es s (of_slot i (out @ o1)) \<and> pushes es = ls i @ pushes [e]" by blast
  then show ?thesis
    using assms(1,2) unfolding simulates_def by (auto simp: st1 o1 nth_list_update simp del: pushes.simps)
qed

lemma simulates_quiet:
  assumes "simulates ls st out" and "i < length (slots st)" and "event_enabled (live (slots st ! i)) e"
    and "pushes [e] = []" and "on_slot st i e = (st1, o1)"
  shows "simulates ls st1 (out @ o1)"
  using simulates_slot [OF assms(1-3,5)] by (simp add: assms(4))

lemma simulates_slots:
  assumes "simulates ls st out" and "\<forall>i\<in>set is. i < length (slots st)"
  shows "simulates ls (fst (on_slots st is Close)) (out @ snd (on_slots st is Close))"
  using assms
proof (induction "is" arbitrary: st out)
  case (Cons i "is")
  obtain s1 o1 where 1: "on_slot st i Close = (s1, o1)" by fastforce
  have "simulates ls s1 (out @ o1)"
    using simulates_quiet [OF Cons.prems(1) _ _ _ 1] Cons.prems(2) by (simp add: event_enabled_def)
  moreover have "length (slots s1) = length (slots st)"
    using Cons.prems(2) on_slot_frame(1) [OF _ 1] by simp
  ultimately show ?case using Cons.IH [of s1 "out @ o1"] Cons.prems(2) by (simp add: 1 split_beta Let_def)
qed simp

lemma simulates_push:
  assumes "simulates ls st out" and "i < length (slots st)"
  shows "simulates (ls(i := ls i @ lns)) (fst (push_lines st i lns)) (out @ snd (push_lines st i lns))"
  using assms
proof (induction lns arbitrary: ls st out)
  case (Cons l lns)
  obtain s1 o1 where 1: "on_slot st i (Push l) = (s1, o1)" by fastforce
  have "simulates (ls(i := ls i @ [l])) s1 (out @ o1)"
    using simulates_slot [OF Cons.prems _ 1] by (simp add: event_enabled_def)
  from Cons.IH [OF this, unfolded fun_upd_upd fun_upd_same] Cons.prems(2) on_slot_frame(1) [OF Cons.prems(2) 1]
  have "simulates (ls(i := (ls i @ [l]) @ lns)) (fst (push_lines s1 i lns)) ((out @ o1) @ snd (push_lines s1 i lns))"
    by (simp only:)
  moreover have "push_lines st i (l # lns) = (fst (push_lines s1 i lns), o1 @ snd (push_lines s1 i lns))"
    by (simp add: 1 split_beta Let_def)
  ultimately show ?case by (simp only: fst_conv snd_conv append_assoc append.simps)
qed simp

lemma decoder_fields:
  "cname (xs[i := (xs ! i)\<lparr>decoder := d\<rparr>] ! j) = cname (xs ! j)"
  "live (xs[i := (xs ! i)\<lparr>decoder := d\<rparr>] ! j) = live (xs ! j)"
  by (simp_all add: decoder_nth)

lemma simulates_decoder:
  "simulates ls (s\<lparr>slots := (slots s)[i := (slots s ! i)\<lparr>decoder := d\<rparr>]\<rparr>) out = simulates ls s out"
  by (simp add: simulates_def decoder_fields)

lemma simulates_frame:
  "slots st1 = slots st \<Longrightarrow> (\<And>i. of_slot i o1 = []) \<Longrightarrow> simulates ls st1 (out @ o1) = simulates ls st out"
  by (simp add: simulates_def)

lemma subscribe_silent [simp]: "of_slot i (snd (subscribe st s req)) = []"
  by (simp add: subscribe_def split: option.splits prod.splits)

lemma simulates_looked_up:
  assumes "simulates ls st out"
  shows "simulates ls (fst (subscribe_looked_up st s c t res)) (out @ snd (subscribe_looked_up st s c t res))"
proof (cases res)
  case Managed
  have "session_trace (DEFAULT_SESSION_OPTIONS c) [] new_session []" by (rule trace_new)
  then have "\<exists>es. session_trace (DEFAULT_SESSION_OPTIONS c) es new_session [] \<and> pushes es = []"
    by (intro exI [of _ "[]"]) simp
  then show ?thesis
    using assms by (auto simp: Managed subscribe_looked_up_def simulates_def Let_def nth_append less_Suc_eq)
qed (use assms in \<open>simp_all add: subscribe_looked_up_def simulates_def\<close>)

text \<open>The lines an event of the service hands to a session object.\<close>

fun with_lines :: "(utext \<Rightarrow> bool) \<Rightarrow> (nat \<Rightarrow> log_line list) \<Rightarrow> logs_state \<Rightarrow> logs_event \<Rightarrow> nat \<Rightarrow> log_line list" where
  "with_lines d ls st (Data i chunk) = ls(i := ls i @ snd (stream_push d (decoder (slots st ! i)) chunk))"
| "with_lines d ls st _ = ls"

lemma simulates_step:
  assumes "simulates ls st out" and "registry_ok st" and "names_ok st" and "logs_enabled st e"
  shows "simulates (with_lines d ls st e) (fst (logs_step d st e)) (out @ snd (logs_step d st e))"
proof -
  have slot: "simulates ls (fst (on_slot s i e')) (out @ snd (on_slot s i e'))"
    if "slots s = slots st" "i < length (slots st)" "event_enabled (live (slots st ! i)) e'" "pushes [e'] = []" for s i e'
  proof -
    have "simulates ls s out" using assms(1) that(1) by (simp add: simulates_def)
    with simulates_quiet [of ls s out i e'] that show ?thesis by (simp add: prod_eq_iff)
  qed
  have reply: "simulates ls s (o' @ [Reply x r]) = simulates ls s o'" for s o' x r by (simp add: simulates_def)
  note idx = registry_indices [OF assms(2)]
  show ?thesis
  proof (cases e)
    case (Subscribe s req)
    with assms(1) simulates_frame [OF subscribe_frame(2) subscribe_silent, of ls st s req] show ?thesis
      by simp
  next
    case (LookedUp j res)
    have "simulates ls (take_waiting st j) out" using assms(1) by (simp add: simulates_def registry_view)
    from simulates_looked_up [OF this] assms(1) show ?thesis by (simp add: LookedUp split: waiting_sub.splits)
  next
    case (Opened j ok)
    with assms(4) obtain i where w: "waiting st ! j = AwaitStream i" "j < length (waiting st)"
      by (auto split: waiting_sub.splits)
    then have "AwaitStream i \<in> set (waiting st)" by (metis nth_mem)
    with assms(3) have "i < length (slots st)" by (simp add: names_ok_def)
    with slot [of "take_waiting st j" i "if ok then Attach else Close"] show ?thesis
      by (simp add: Opened w subscribe_opened_def split_beta Let_def reply registry_view event_enabled_def
          flip: append_assoc)
  next
    case (Data i chunk)
    with assms(4) have i: "i < length (slots st)" by (simp add: stream_open_def)
    let ?st = "st\<lparr>slots := (slots st)[i := (slots st ! i)\<lparr>decoder := fst (stream_push d (decoder (slots st ! i)) chunk)\<rparr>]\<rparr>"
    have "simulates ls ?st out" using assms(1) by (simp add: simulates_decoder)
    from simulates_push [OF this, of i] i show ?thesis
      by (simp add: Data stream_data_def split_beta Let_def)
  next
    case (Unsubscribe s req)
    with slot [of st _ Close] idx(3) assms(1) show ?thesis
      by (auto simp: unsubscribe_def split_beta Let_def reply event_enabled_def simulates_frame
          simp flip: append_assoc split: option.splits)
  next
    case (Disconnect s)
    with simulates_slots [OF assms(1) idx(2)] show ?thesis by (simp add: destroyForSocket_def)
  next
    case Shutdown
    with simulates_slots [OF assms(1) idx(1)] show ?thesis by (simp add: onModuleDestroy_def)
  qed (use assms(4) slot [of st] in \<open>auto simp: stream_open_def event_enabled_def\<close>)
qed

section \<open>The Docker pipeline of a stream\<close>

lemma stream_run_snoc:
  "stream_run d s (cs @ [c]) =
     (fst (stream_push d (fst (stream_run d s cs)) c), snd (stream_run d s cs) @ snd (stream_push d (fst (stream_run d s cs)) c))"
  by (induction cs arbitrary: s) (simp_all add: split_beta Let_def)

lemma on_slot_decoder: "length (slots (fst (on_slot st i e))) = length (slots st)
    \<and> decoder (slots (fst (on_slot st i e)) ! j) = decoder (slots st ! j)"
proof -
  have "decoder (xs[i := (xs ! i)\<lparr>live := l\<rparr>] ! j) = decoder (xs ! j)" for xs l
    by (cases "i < length xs") (simp_all add: nth_list_update list_update_beyond)
  then show ?thesis by (simp add: on_slot_def split_beta Let_def)
qed

lemma on_slots_decoder: "length (slots (fst (on_slots st is e))) = length (slots st)
    \<and> decoder (slots (fst (on_slots st is e)) ! j) = decoder (slots st ! j)"
  using on_slot_decoder by (induction "is" arbitrary: st) (simp_all add: split_beta Let_def)

lemma push_lines_decoder: "length (slots (fst (push_lines st i ls))) = length (slots st)
    \<and> decoder (slots (fst (push_lines st i ls)) ! j) = decoder (slots st ! j)"
  using on_slot_decoder by (induction ls arbitrary: st) (simp_all add: split_beta Let_def)

definition decoded :: "(utext \<Rightarrow> bool) \<Rightarrow> (nat \<Rightarrow> log_line list) \<Rightarrow> logs_event list \<Rightarrow> logs_state \<Rightarrow> bool" where
  "decoded d ls es st \<longleftrightarrow>
     (\<forall>i < length (slots st). stream_run d stream_init (chunks_of i es) = (decoder (slots st ! i), ls i))
   \<and> (\<forall>i \<ge> length (slots st). chunks_of i es = [])"

lemma chunks_snoc: "chunks_of i (es @ [e]) = chunks_of i es @ (case chunk_of i e of None \<Rightarrow> [] | Some c \<Rightarrow> [c])"
  by (simp add: chunks_of_def map_filter_append List.map_filter_simps split: option.splits)

text \<open>Only a chunk of its own stream changes a decoder; new objects start afresh.\<close>

lemma step_decoder:
  assumes "\<And>i chunk. e \<noteq> Data i chunk" and "decoded d ls es st" and "simulates ls st out"
  shows "decoded d ls (es @ [e]) (fst (logs_step d st e))"
proof -
  have chunks: "chunks_of i (es @ [e]) = chunks_of i es" for i
    using assms(1) by (cases e) (auto simp: chunks_snoc)
  have keep: "decoded d ls (es @ [e]) s" if "length (slots s) = length (slots st)"
      "\<And>j. decoder (slots s ! j) = decoder (slots st ! j)" for s
    using assms(2) that by (simp add: decoded_def chunks)
  have slot: "decoded d ls (es @ [e]) (fst (on_slot st i e'))" for i e'
    by (rule keep) (simp_all add: on_slot_decoder)
  show ?thesis
  proof (cases e)
    case (Subscribe s req)
    then show ?thesis by (intro keep) (simp_all add: subscribe_frame)
  next
    case (LookedUp j res)
    have "ls (length (slots st)) = []" using assms(3) by (simp add: simulates_def)
    then have new: "decoded d ls (es @ [e]) s" if "slots s = slots st @ [sl]" "decoder sl = stream_init" for s sl
      using assms(2) that by (auto simp: decoded_def chunks nth_append less_Suc_eq)
    show ?thesis
    proof (cases "waiting st ! j")
      case (AwaitLookup s c t)
      show ?thesis
      proof (cases res)
        case Managed
        then show ?thesis
          by (intro new) (simp add: LookedUp AwaitLookup subscribe_looked_up_def Let_def registry_view, simp)
      qed (use keep [of "take_waiting st j"] in \<open>simp_all add: LookedUp AwaitLookup subscribe_looked_up_def registry_view\<close>)
    qed (intro keep, simp_all add: LookedUp)
  next
    case (Opened j ok)
    then show ?thesis
      using on_slot_decoder by (intro keep) (simp_all add: subscribe_opened_def split_beta Let_def registry_view split: waiting_sub.splits)
  next
    case (Unsubscribe s req)
    then show ?thesis
      using on_slot_decoder by (intro keep) (simp_all add: unsubscribe_def split_beta Let_def split: option.splits)
  next
    case (Disconnect s)
    then show ?thesis using on_slots_decoder by (intro keep) (simp_all add: destroyForSocket_def)
  next
    case Shutdown
    then show ?thesis using on_slots_decoder by (intro keep) (simp_all add: onModuleDestroy_def)
  qed (use assms(1) slot in auto)
qed

lemma data_decoder:
  assumes "decoded d ls es st" and "i < length (slots st)"
  shows "decoded d (with_lines d ls st (Data i chunk)) (es @ [Data i chunk]) (fst (logs_step d st (Data i chunk)))"
proof -
  let ?st = "st\<lparr>slots := (slots st)[i := (slots st ! i)\<lparr>decoder := fst (stream_push d (decoder (slots st ! i)) chunk)\<rparr>]\<rparr>"
  have "fst (logs_step d st (Data i chunk)) = fst (push_lines ?st i (snd (stream_push d (decoder (slots st ! i)) chunk)))"
    by (simp add: stream_data_def split_beta Let_def)
  then have after: "length (slots (fst (logs_step d st (Data i chunk)))) = length (slots st)"
      "decoder (slots (fst (logs_step d st (Data i chunk))) ! j)
        = (if j = i then fst (stream_push d (decoder (slots st ! i)) chunk) else decoder (slots st ! j))" for j
    using push_lines_decoder [of ?st i] assms(2) by (simp_all add: decoder_nth)
  have "stream_run d stream_init (chunks_of j (es @ [Data i chunk]))
      = (decoder (slots (fst (logs_step d st (Data i chunk))) ! j), with_lines d ls st (Data i chunk) j)"
    if "j < length (slots st)" for j
    using assms(1) that by (auto simp: decoded_def chunks_snoc after stream_run_snoc simp del: logs_step.simps)
  moreover have "chunks_of j (es @ [Data i chunk]) = []" if "length (slots st) \<le> j" for j
    using assms that by (auto simp: decoded_def chunks_snoc)
  ultimately show ?thesis unfolding decoded_def after by blast
qed

section \<open>Runs\<close>

lemma streams_run:
  assumes "logs_run d st es st' out" and "names_ok st" and "registry_ok st"
    and "simulates ls st past" and "decoded d ls seen st"
  shows "\<exists>ls'. simulates ls' st' (past @ out) \<and> decoded d ls' (seen @ es) st'"
  using assms
proof (induction arbitrary: ls past seen rule: logs_run.induct)
  case (logs_more st e st1 out1 es st' out2)
  from simulates_step [OF logs_more.prems(3,2,1) logs_more.hyps(1), of d]
    names_ok_step [OF logs_more.prems(1,2) logs_more.hyps(1), of d]
    registry_ok_step [OF logs_more.prems(1,2) logs_more.hyps(1), of d]
  have nxt: "names_ok st1" "registry_ok st1" "simulates (with_lines d ls st e) st1 (past @ out1)"
    by (simp_all add: logs_more.hyps(2))
  have "decoded d (with_lines d ls st e) (seen @ [e]) st1"
  proof (cases "\<exists>i chunk. e = Data i chunk")
    case True
    then obtain i chunk where e: "e = Data i chunk" by blast
    with logs_more.hyps(1) have "i < length (slots st)" by (simp add: stream_open_def)
    from data_decoder [OF logs_more.prems(4) this, of chunk] show ?thesis
      by (simp only: e [symmetric] logs_more.hyps(2) fst_conv)
  next
    case False
    then have "with_lines d ls st e = ls" by (cases e) auto
    with step_decoder [OF _ logs_more.prems(4,3), of e] False logs_more.hyps(2) show ?thesis by auto
  qed
  from logs_more.IH [OF nxt this] show ?case by simp
qed auto

lemma streams_of_service:
  assumes "logs_run d logs_init es st out" and "i < length (slots st)"
  shows "\<exists>es'. session_trace (DEFAULT_SESSION_OPTIONS (cname (slots st ! i))) es' (live (slots st ! i)) (of_slot i out)
    \<and> pushes es' = snd (stream_run d stream_init (chunks_of i es))"
proof -
  have "simulates (\<lambda>_. []) logs_init []" "decoded d (\<lambda>_. []) [] logs_init"
    by (simp_all add: simulates_def decoded_def logs_init_def chunks_of_def List.map_filter_simps)
  from streams_run [OF assms(1) registry_init(1,2) this] obtain ls where
    ls: "simulates ls st out" "decoded d ls es st" by auto
  with assms(2) show ?thesis by (auto simp: simulates_def decoded_def)
qed

text \<open>
  C20: every stream of the service is a run of the log-session machine, with exactly the
  effects the service had through it, and the lines pushed into it are exactly those the Docker
  pipeline makes of the chunks of its own container.  So what LogFlow states of one session (no
  silent loss, one batch in flight, bounded queue, one notification) holds of every stream of
  every client, however their events interleave.
\<close>

theorem service_streams_are_sessions:
  assumes "logs_run d logs_init es st out" and "i < length (slots st)"
  shows "\<exists>es'. session_trace (DEFAULT_SESSION_OPTIONS (cname (slots st ! i))) es' (live (slots st ! i)) (of_slot i out)
    \<and> pushes es' = snd (stream_run d stream_init (chunks_of i es))"
  using streams_of_service [OF assms] .

theorem service_streams_are_sessions_witness:
  "\<exists>es'. session_trace (DEFAULT_SESSION_OPTIONS ''a'') es' (new_session\<lparr>has_source := True\<rparr>) [] \<and> pushes es' = []"
  using service_streams_are_sessions [OF one_stream_run(1), of 0 "\<lambda>_. True"]
  by (simp add: one_stream_state_def one_stream_def chunks_of_def List.map_filter_simps)

section \<open>From the container to the terminal\<close>

lemma consume_subseq: "consume bs ps = Some r \<Longrightarrow> subseq (concat (map batch_lines bs)) ps"
proof (induction bs arbitrary: ps)
  case (Cons b bs)
  let ?rest = "drop (batch_dropped b) ps"
  from Cons.prems have t: "take (length (batch_lines b)) ?rest = batch_lines b"
    and c: "consume bs (drop (length (batch_lines b)) ?rest) = Some r"
    by (auto simp: Let_def split: if_splits)
  have "?rest = batch_lines b @ drop (length (batch_lines b)) ?rest"
    by (metis t append_take_drop_id)
  with Cons.IH [OF c] have "subseq (batch_lines b @ concat (map batch_lines bs)) ?rest"
    by (metis list_emb_append_mono subseq_order.order_refl)
  moreover have "subseq ?rest ps" by (rule suffix_imp_subseq [OF suffix_drop])
  ultimately show ?case by (auto intro: subseq_order.trans)
qed simp


text \<open>One record on stderr, its frame cut inside the header, on the stream of a browser.\<close>

definition one_record :: "logs_event list" where
  "one_record = one_stream @ [Data 0 ([2, 0, 0], \<lambda>_. []),
     Data 0 ([0, 0, 0, 0, 8, 50, 48, 50, 52, 32, 111, 107, 10], \<lambda>_. [])]"

lemma one_record_chunks: "chunks_of 0 one_record =
    [([2, 0, 0], \<lambda>_. []), ([0, 0, 0, 0, 8, 50, 48, 50, 52, 32, 111, 107, 10], \<lambda>_. [])]"
  by (simp add: chunks_of_def one_record_def one_stream_def List.map_filter_simps)

lemma one_record_ok: "list_all (record_ok (\<lambda>t. t = [50, 48, 50, 52])) [(Stderr, [50, 48, 50, 52], [111, 107])]"
  "concat (map fst (chunks_of 0 one_record))
    = concat (map encode_frame (map record_frame [(Stderr, [50, 48, 50, 52], [111, 107])]))"
  by (simp_all add: one_record_chunks record_ok_def record_frame_def encode_frame_def encode_size_def
      utf8_whole_ascii utf8_decode_ascii)

lemma one_record_line: "record_line (Stderr, [50, 48, 50, 52], [111, 107])
    = \<lparr>line_ts = [50, 48, 50, 52], line_source = Stderr, ltext = [111, 107]\<rparr>"
  by (simp add: record_line_def utf8_decode_ascii)

text \<open>The first chunk is kept whole, the second completes the line.\<close>

lemma one_record_pushes:
  "stream_push (\<lambda>t. t = [50, 48, 50, 52]) stream_init ([2, 0, 0], \<lambda>_. []) = (stream_init\<lparr>frame_buf := [2, 0, 0]\<rparr>, [])"
  "snd (stream_push (\<lambda>t. t = [50, 48, 50, 52]) (stream_init\<lparr>frame_buf := [2, 0, 0]\<rparr>)
      ([0, 0, 0, 0, 8, 50, 48, 50, 52, 32, 111, 107, 10], \<lambda>_. []))
    = [\<lparr>line_ts = [50, 48, 50, 52], line_source = Stderr, ltext = [111, 107]\<rparr>]"
proof -
  show 1: "stream_push (\<lambda>t. t = [50, 48, 50, 52]) stream_init ([2, 0, 0], \<lambda>_. []) = (stream_init\<lparr>frame_buf := [2, 0, 0]\<rparr>, [])"
    by (simp add: stream_push_def stream_init_def frame_push_eq frame_loop_stop no_frame_def payload_octets_def)
  have "snd (stream_run (\<lambda>t. t = [50, 48, 50, 52]) stream_init (chunks_of 0 one_record))
    = map record_line [(Stderr, [50, 48, 50, 52], [111, 107])]"
    by (rule log_stream_end_to_end) (use one_record_ok in \<open>simp_all add: list_all_iff\<close>)
  then show "snd (stream_push (\<lambda>t. t = [50, 48, 50, 52]) (stream_init\<lparr>frame_buf := [2, 0, 0]\<rparr>)
      ([0, 0, 0, 0, 8, 50, 48, 50, 52, 32, 111, 107, 10], \<lambda>_. []))
    = [\<lparr>line_ts = [50, 48, 50, 52], line_source = Stderr, ltext = [111, 107]\<rparr>]"
    by (simp add: one_record_chunks 1 split_beta Let_def one_record_line)
qed

definition one_record_batch :: logs_batch where
  "one_record_batch = \<lparr>batch_container = ''a'',
     batch_lines = [\<lparr>line_ts = [50, 48, 50, 52], line_source = Stderr, ltext = [111, 107]\<rparr>], batch_dropped = 0\<rparr>"

lemma one_record_run:
  "\<exists>st. logs_run (\<lambda>t. t = [50, 48, 50, 52]) logs_init one_record st
     [FindManaged ''a'', OpenLogs ''a'' 100, Reply ''s'' AckOk, OnSession 0 (EmitBatch one_record_batch)]
     \<and> map cname (slots st) = [''a''] \<and> queue (live (slots st ! 0)) = [] \<and> dropped (live (slots st ! 0)) = 0
     \<and> \<not> closed (live (slots st ! 0))"
  by (simp add: one_record_def one_stream_def logs_run_Cons one_stream_steps take_waiting_def remove_nth.simps)
    (simp add: one_stream_state_def stream_data_def stream_open_def new_session_def one_record_pushes split_beta
     on_slot_def session_push_def push_enqueue_def session_ops Let_def one_record_batch_def DEFAULT_SESSION_OPTIONS_def)


end
