(* ===== verification/MetricsFlow.thy ===== *)
theory MetricsFlow
  imports Routes WebCharts
begin

text \<open>
  From Prometheus to the chart of the browser: the five minute rollups of metrics.service.ts, run
  one after another, the history a panel of metrics-panel.tsx asks for through web server and
  routes, its answer as JSON, and the rows of the chart.
\<close>

section \<open>The answer as JSON\<close>

text \<open>\<open>JSON.stringify\<close> writes a number that is not finite as null.\<close>

definition number_json :: "jsnum \<Rightarrow> json" where
  "number_json v = (case v of Fin q \<Rightarrow> JNum q | _ \<Rightarrow> JNull)"

definition point_json :: "rat \<times> jsnum \<Rightarrow> json" where
  "point_json = (\<lambda>(t, v). JObj [(''t'', JNum t), (''v'', number_json v)])"

definition series_json :: "string \<times> string \<times> (rat \<times> jsnum) list \<Rightarrow> json" where
  "series_json = (\<lambda>(c, m, ps). JObj [(''container'', JStr c), (''metric'', JStr m), (''points'', JArr (map point_json ps))])"

text \<open>The HTTP answer to a request for a chart; no other answer is one.\<close>

fun chart_reply :: "http_error + rest_answer \<Rightarrow> http_outcome" where
  "chart_reply (Inl e) = Resp (error_status e) (Some (JObj [(''statusCode'', JNum (of_nat (error_status e)))]))"
| "chart_reply (Inr (LiveAnswer a)) = Resp 200 (Some (series_json a))"
| "chart_reply (Inr (HistoryAnswer (c, m, ps))) =
     Resp 200 (Some (series_json (c, m, map (\<lambda>(t, v). (of_int t, Fin v)) ps)))"
| "chart_reply (Inr _) = NetFail"

text \<open>\<open>fetch\<close> of the browser, answered by the web server in front of the API.\<close>

definition fetch_chart ::
  "env \<Rightarrow> (json option \<Rightarrow> setting_patch option) \<Rightarrow> rest_world \<Rightarrow> rest_tables \<Rightarrow> api_request \<Rightarrow> http_outcome" where
  "fetch_chart env patch w st rq =
     (case serve env patch w st (http_of (''GET'', rq)) of None \<Rightarrow> Resp 404 None | Some (_, _, a) \<Rightarrow> chart_reply a)"

section \<open>The query of the panel\<close>

fun kind_name :: "metric_kind \<Rightarrow> string" where
  "kind_name CPU = ''CPU''"
| "kind_name MEMORY = ''MEMORY''"
| "kind_name NETWORK_RX = ''NETWORK_RX''"
| "kind_name NETWORK_TX = ''NETWORK_TX''"

text \<open>The points of a body that has the shape the client takes it to have.\<close>

definition point_of :: "json \<Rightarrow> json metric_point option" where
  "point_of j = (case (jfield ''t'' j, jfield ''v'' j) of
       (Some (JNum t), Some v) \<Rightarrow> Some \<lparr>pt_t = t, pt_v = v\<rparr>
     | _ \<Rightarrow> None)"

definition points_of :: "json option \<Rightarrow> json metric_point list option" where
  "points_of b = (case b of Some (JArr js) \<Rightarrow> those (map point_of js) | _ \<Rightarrow> None)"

definition panel_rows ::
  "(api_request \<Rightarrow> http_outcome) \<Rightarrow> string \<Rightarrow> metric_tab \<Rightarrow> metric_range \<Rightarrow> json chart_row list option" where
  "panel_rows http c tab rng =
     chart_query (\<lambda>k. Option.bind (fetchMetricSeries http c (kind_name k) rng) points_of) tab"

section \<open>Rollups one after another\<close>

text \<open>One run of \<open>rollupTick\<close>: what Prometheus answers, and the two clock readings.\<close>

record rollup_tick =
  tk_answers :: "string \<Rightarrow> int \<Rightarrow> http_error + vector_sample list"
  tk_at :: int
  tk_purged :: int

fun rollup_ticks :: "env \<Rightarrow> rollup_tick list \<Rightarrow> rollup_row list \<Rightarrow> rollup_row list" where
  "rollup_ticks env [] table = table"
| "rollup_ticks env (tk # tks) table =
     rollup_ticks env tks (rollupTick (tk_answers tk) env (tk_at tk) (tk_purged tk) table)"

text \<open>Specification.  The first finite sample with the name of a container.\<close>

fun sample_of :: "string \<Rightarrow> vector_sample list \<Rightarrow> rat option" where
  "sample_of c [] = None"
| "sample_of c (s # ss) =
     (if sample_name s = Some c then (case js_number (sample_value s) of Fin q \<Rightarrow> Some q | _ \<Rightarrow> sample_of c ss)
      else sample_of c ss)"

text \<open>What one rollup measures: nothing when the query of the metric or of one before it fails.\<close>

fun measurement ::
  "(string \<Rightarrow> int \<Rightarrow> http_error + vector_sample list) \<Rightarrow> env \<Rightarrow> int \<Rightarrow> string \<Rightarrow> metric_kind \<Rightarrow> metric_kind list \<Rightarrow> rat option" where
  "measurement prom env bend c k [] = None"
| "measurement prom env bend c k (k' # ks) =
     (case prom (rollupQuery env k') bend of
        Inl e \<Rightarrow> None
      | Inr samples \<Rightarrow> if k' = k then sample_of c samples else measurement prom env bend c k ks)"

text \<open>The bucket a rollup at a time fills, and the first measurement for a bucket.\<close>

definition bucket_of :: "int \<Rightarrow> int" where
  "bucket_of now = (now div 300000 - 1) * 300000"

fun measured :: "env \<Rightarrow> rollup_tick list \<Rightarrow> string \<Rightarrow> metric_kind \<Rightarrow> int \<Rightarrow> rat option" where
  "measured env [] c k b = None"
| "measured env (tk # tks) c k b =
     (case (if bucket_of (tk_at tk) = b
            then measurement (tk_answers tk) env (bucket_end (tk_at tk)) c k [CPU, MEMORY, NETWORK_RX, NETWORK_TX] else None) of
        Some v \<Rightarrow> Some v
      | None \<Rightarrow> measured env tks c k b)"

section \<open>What the table holds\<close>

definition stored :: "rollup_row list \<Rightarrow> string \<Rightarrow> metric_kind \<Rightarrow> int \<Rightarrow> rat option" where
  "stored table c k b = map_of (map (\<lambda>r. (rollup_key r, avgValue r)) table) (c, k, b)"

lemma stored_Nil [simp]: "stored [] c k b = None"
  by (simp add: stored_def)

lemma stored_Cons: "stored (r # rs) c k b = (if rollup_key r = (c, k, b) then Some (avgValue r) else stored rs c k b)"
  by (simp add: stored_def)

lemma stored_append: "stored (t @ u) c k b = (case stored t c k b of Some v \<Rightarrow> Some v | None \<Rightarrow> stored u c k b)"
  by (simp add: stored_def map_add_def split: option.splits)

lemma stored_None: "stored t c k b = None \<longleftrightarrow> (c, k, b) \<notin> rollup_key ` set t"
  by (induction t) (auto simp: stored_Cons)

lemma stored_createMany:
  "stored (fst (createMany t rs)) c k b = (case stored t c k b of Some v \<Rightarrow> Some v | None \<Rightarrow> stored rs c k b)"
proof (induction rs arbitrary: t)
  case (Cons r rs)
  show ?case
    using Cons.IH [of t] Cons.IH [of "t @ [r]"] stored_None [of t c k b]
    by (simp only: createMany_Cons split: if_split) (auto simp: stored_append stored_Cons split: option.splits)
qed (simp split: option.splits)

lemma stored_rows:
  assumes "c \<noteq> []"
  shows "stored (rollup_rows start k' ss) c k b = (if k' = k \<and> start = b then sample_of c ss else None)"
  using assms
  by (induction ss)
     (auto simp: rollup_rows_def List.map_filter_simps stored_Cons rollup_key_def truthy_iff split: jsnum.splits)

lemma stored_kinds:
  assumes "c \<noteq> []" and "distinct ks"
  shows "stored (fst (rollup_kinds prom env bend t ks)) c k b = (case stored t c k b of Some v \<Rightarrow> Some v
    | None \<Rightarrow> if (bend - BUCKET_SEC) * 1000 = b then measurement prom env bend c k ks else None)"
  using assms(2)
proof (induction ks arbitrary: t)
  case (Cons k' ks)
  have gone: "measurement prom env bend c k' ks = None" if "k' \<notin> set ks" for ks
    using that by (induction ks) (auto split: sum.splits)
  show ?case
  proof (cases "prom (rollupQuery env k') bend")
    case (Inr samples)
    let ?rows = "rollup_rows ((bend - BUCKET_SEC) * 1000) k' samples"
    from Cons.IH [of "fst (createMany t ?rows)"] Cons.prems gone [of ks] show ?thesis
      by (auto simp: Inr Let_def split_beta stored_createMany stored_rows [OF assms(1)] split: option.splits)
  qed (simp split: option.splits)
qed (simp split: option.splits)

lemma stored_purge: "now - RETENTION_MS \<le> b \<Longrightarrow> stored (purgeOldRollups now t) c k b = stored t c k b"
  by (induction t) (auto simp: purgeOldRollups_def stored_Cons rollup_key_def)

lemma bucket_of_end: "(bucket_end now - BUCKET_SEC) * 1000 = bucket_of now"
  by (simp add: bucket_end_def bucket_of_def BUCKET_SEC_def)

lemma stored_tick:
  assumes "c \<noteq> []" and "now2 - RETENTION_MS \<le> b"
  shows "stored (rollupTick prom env now now2 t) c k b = (case stored t c k b of Some v \<Rightarrow> Some v
    | None \<Rightarrow> if bucket_of now = b
        then measurement prom env (bucket_end now) c k [CPU, MEMORY, NETWORK_RX, NETWORK_TX] else None)"
proof -
  have "stored (rollupTick prom env now now2 t) c k b = stored (fst (runRollup prom env now t)) c k b"
    by (simp add: rollupTick_def stored_purge [OF assms(2)] split: prod.splits sum.splits)
  then show ?thesis
    by (simp add: runRollup_def METRIC_KINDS_def stored_kinds [OF assms(1)] flip: bucket_of_end
        del: rollup_kinds.simps measurement.simps)
qed

lemma stored_ticks:
  assumes "c \<noteq> []" and "\<forall>tk\<in>set tks. tk_purged tk - RETENTION_MS \<le> b"
  shows "stored (rollup_ticks env tks t) c k b =
    (case stored t c k b of Some v \<Rightarrow> Some v | None \<Rightarrow> measured env tks c k b)"
  using assms(2)
proof (induction tks arbitrary: t)
  case (Cons tk tks)
  then show ?case
    by (simp add: stored_tick [OF assms(1)] del: measurement.simps split: option.splits)
qed (simp split: option.splits)

lemma ticks_distinct: "distinct (map rollup_key t) \<Longrightarrow> distinct (map rollup_key (rollup_ticks env tks t))"
proof (induction tks arbitrary: t)
  case (Cons tk tks)
  have kinds: "distinct (map rollup_key (fst (rollup_kinds prom env bend u ks)))" if "distinct (map rollup_key u)"
    for prom bend u ks
    using that
  proof (induction ks arbitrary: u)
    case (Cons k ks)
    from Cons.IH [OF createMany_distinct [OF Cons.prems]] Cons.prems show ?case
      by (auto simp: Let_def split_beta split: sum.splits)
  qed simp
  have "distinct (map rollup_key (rollupTick (tk_answers tk) env (tk_at tk) (tk_purged tk) t))"
    using kinds [OF Cons.prems, of "tk_answers tk" "bucket_end (tk_at tk)" "map snd METRIC_KINDS"]
    by (auto simp: rollupTick_def runRollup_def purgeOldRollups_def distinct_map intro: inj_on_subset
        split: prod.splits sum.splits)
  from Cons.IH [OF this] show ?case by simp
qed simp

section \<open>What the browser gets of it\<close>

lemma points_of_json: "points_of (Some (JArr (map point_json ps))) = Some (map (\<lambda>(t, v). \<lparr>pt_t = t, pt_v = number_json v\<rparr>) ps)"
proof -
  have "those (map point_of (map point_json ps)) = Some (map (\<lambda>(t, v). \<lparr>pt_t = t, pt_v = number_json v\<rparr>) ps)"
    by (induction ps) (auto simp: point_of_def point_json_def)
  then show ?thesis by (simp add: points_of_def)
qed

lemma kind_name_of [simp]: "map_of METRIC_KINDS (kind_name k) = Some k"
  by (cases k) (simp_all add: METRIC_KINDS_def)

definition history_points :: "rollup_row list \<Rightarrow> string \<Rightarrow> metric_kind \<Rightarrow> int \<Rightarrow> int \<Rightarrow> json metric_point list" where
  "history_points table c k hours now = map (\<lambda>(t, v). \<lparr>pt_t = of_int t, pt_v = JNum v\<rparr>) (getHistory table c k hours now)"

lemma history_fetched:
  assumes "matches_name 127 c" and "rng \<noteq> OneHour"
  shows "Option.bind (fetchMetricSeries (fetch_chart env patch w st) c (kind_name k) rng) points_of
    = Some (history_points (rt_rollups st) c k (RANGE_HOURS rng) (w_now w))"
proof -
  let ?call = "ChartOf c (kind_name k) rng"
  have "history (rt_rollups st) (w_now w) (Some c) (Some (kind_name k)) (Some (show_int (RANGE_HOURS rng)))
      = Inr (c, kind_name k, getHistory (rt_rollups st) c k (RANGE_HOURS rng) (w_now w))"
    using chart_requests_are_served [OF assms(1) kind_name_of, of k rng] assms(2)
    by (simp add: metric_params_def param_def)
  moreover have "http_of (''GET'', snd (call_request ?call)) = http_of (call_request ?call)" by simp
  ultimately have "fetch_chart env patch w st (snd (call_request ?call)) =
      chart_reply (Inr (HistoryAnswer (c, kind_name k, getHistory (rt_rollups st) c k (RANGE_HOURS rng) (w_now w))))"
    using chart_served [of env patch w st c "kind_name k" rng] assms(2)
    by (simp add: fetch_chart_def rest_handle_def guard_route_def min_role_def canActivate_def Let_def del: call_request.simps)
  then show ?thesis
    using points_of_json [of "map (\<lambda>x. (of_int (fst x), Fin (snd x))) (getHistory (rt_rollups st) c k (RANGE_HOURS rng) (w_now w))"]
    by (simp add: clients_send series_json_def resp_ok_def history_points_def split_beta number_json_def comp_def)
qed

lemma history_rows:
  "set (getHistory table c k hours now) = {(b, v). now - hours * 3600000 \<le> b \<and>
      (\<exists>r\<in>set table. rollup_key r = (c, k, b) \<and> avgValue r = v)}"
  by (auto simp: getHistory_def rollup_key_def)

lemma stored_distinct:
  "distinct (map rollup_key t) \<Longrightarrow> stored t c k b = Some v \<longleftrightarrow> (\<exists>r\<in>set t. rollup_key r = (c, k, b) \<and> avgValue r = v)"
  by (induction t) (auto simp: stored_Cons image_iff)

lemma panel_series:
  assumes "matches_name 127 c" and "rng \<noteq> OneHour"
  shows "panel_rows (fetch_chart env patch w st) c tab rng = Some (mergeSeries (map (\<lambda>(k, l).
    (k, history_points (rt_rollups st) c k (RANGE_HOURS rng) (w_now w))) (tab_series tab)))"
  using assms by (cases tab) (simp_all add: panel_rows_def chart_query_def history_fetched)

text \<open>The points of the charts of one container: one for each row within the range.\<close>

lemma history_flat:
  "((t, k), v) \<in> set (flat_points (map (\<lambda>(k, l). (k, history_points table c k hours now)) ss)) \<longleftrightarrow>
     k \<in> fst ` set ss \<and> (\<exists>b q. (b, q) \<in> set (getHistory table c k hours now) \<and> t = of_int b \<and> v = JNum q)"
  by (force simp: flat_points_def history_points_def)

lemma value_at_unique:
  assumes "\<And>v u. ((t, k), v) \<in> set (flat_points series) \<Longrightarrow> ((t, k), u) \<in> set (flat_points series) \<Longrightarrow> v = u"
  shows "value_at series t k = Some v \<longleftrightarrow> ((t, k), v) \<in> set (flat_points series)"
proof
  assume "value_at series t k = Some v"
  then show "((t, k), v) \<in> set (flat_points series)" unfolding value_at_def by (auto dest: map_of_SomeD)
next
  assume v: "((t, k), v) \<in> set (flat_points series)"
  then obtain u where u: "map_of (rev (flat_points series)) (t, k) = Some u"
    by (metis set_rev weak_map_of_SomeI)
  then have "((t, k), u) \<in> set (flat_points series)" by (auto dest: map_of_SomeD)
  with assms [OF v this] u show "value_at series t k = Some v" by (simp add: value_at_def)
qed

lemma chart_time_value: "t \<in> chart_times series \<Longrightarrow> \<exists>k v. value_at series t k = Some v"
  unfolding chart_times_def value_at_def by (auto) (metis set_rev weak_map_of_SomeI)

lemma history_cells:
  assumes "distinct (map rollup_key table)"
  shows "value_at (map (\<lambda>(k, l). (k, history_points table c k hours now)) ss) t k = Some v \<longleftrightarrow>
    k \<in> fst ` set ss \<and> (\<exists>b q. stored table c k b = Some q \<and> now - hours * 3600000 \<le> b \<and> t = of_int b \<and> v = JNum q)"
proof -
  have "value_at (map (\<lambda>(k, l). (k, history_points table c k hours now)) ss) t k = Some v \<longleftrightarrow>
      ((t, k), v) \<in> set (flat_points (map (\<lambda>(k, l). (k, history_points table c k hours now)) ss))"
    by (rule value_at_unique) (auto simp: history_flat history_rows stored_distinct [OF assms, symmetric])
  then show ?thesis by (auto simp: history_flat history_rows stored_distinct [OF assms])
qed

text \<open>
  C6: the chart shows what was measured.  Whatever rollups the API has run, with whatever answers
  and failures of Prometheus, the history panel of a container, for a day or a week, for each tab,
  asked through web server and routes and read back from JSON, has at each time and metric
  of the tab exactly the first finite value Prometheus gave for this container in a rollup of the
  five minutes that start there, and nothing where there was none or outside the range; its rows
  are in order of time, one for each time with a value.
\<close>

theorem chart_shows_what_was_measured:
  assumes "matches_name 127 c" and "rng \<noteq> OneHour"
    and "rt_rollups st = rollup_ticks (w_env w) tks []" and "\<forall>tk\<in>set tks. tk_purged tk \<le> w_now w"
  shows "\<exists>rows. panel_rows (fetch_chart env patch w st) c tab rng = Some rows
    \<and> sorted_wrt (<) (map fst rows)
    \<and> (\<forall>t k v. cell rows t k = Some v \<longleftrightarrow> k \<in> fst ` set (tab_series tab)
        \<and> (\<exists>b q. measured (w_env w) tks c k b = Some q \<and> w_now w - RANGE_HOURS rng * 3600000 \<le> b
            \<and> t = of_int b \<and> v = JNum q))
    \<and> (\<forall>t\<in>set (map fst rows). \<exists>k v. cell rows t k = Some v)"
proof -
  let ?series = "map (\<lambda>(k, l). (k, history_points (rt_rollups st) c k (RANGE_HOURS rng) (w_now w))) (tab_series tab)"
  have kept: "\<forall>tk\<in>set tks. tk_purged tk - RETENTION_MS \<le> b" if "w_now w - RANGE_HOURS rng * 3600000 \<le> b" for b
    using assms(4) that by (cases rng) (force simp: RETENTION_MS_def)+
  have c: "c \<noteq> []" using assms(1) by auto
  have stored: "stored (rt_rollups st) c k b = measured (w_env w) tks c k b" if "w_now w - RANGE_HOURS rng * 3600000 \<le> b" for k b
    using stored_ticks [OF c kept [OF that], of "w_env w" "[]"] by (simp add: assms(3))
  have "distinct (map rollup_key (rt_rollups st))" unfolding assms(3) by (rule ticks_distinct) simp
  note hist = history_cells [OF this, of c "RANGE_HOURS rng" "w_now w" "tab_series tab"]
  have cells: "value_at ?series t k = Some v \<longleftrightarrow> k \<in> fst ` set (tab_series tab)
      \<and> (\<exists>b q. measured (w_env w) tks c k b = Some q \<and> w_now w - RANGE_HOURS rng * 3600000 \<le> b \<and> t = of_int b \<and> v = JNum q)" for t k v
    unfolding hist using stored by auto
  have "cell (mergeSeries ?series) = value_at ?series" "set (map fst (mergeSeries ?series)) = chart_times ?series"
      "sorted_wrt (<) (map fst (mergeSeries ?series))"
    using chart_rows_exact [of ?series] by simp_all
  note rows = this
  show ?thesis
  proof (rule exI, intro conjI ballI allI)
    show "panel_rows (fetch_chart env patch w st) c tab rng = Some (mergeSeries ?series)"
      by (rule panel_series [OF assms(1,2)])
    show "sorted_wrt (<) (map fst (mergeSeries ?series))" by (rule rows(3))
    show "cell (mergeSeries ?series) t k = Some v \<longleftrightarrow> k \<in> fst ` set (tab_series tab)
      \<and> (\<exists>b q. measured (w_env w) tks c k b = Some q \<and> w_now w - RANGE_HOURS rng * 3600000 \<le> b \<and> t = of_int b \<and> v = JNum q)"
      for t k v unfolding rows(1) by (rule cells)
    show "\<exists>k v. cell (mergeSeries ?series) t k = Some v" if "t \<in> set (map fst (mergeSeries ?series))" for t
      unfolding rows(1) by (rule chart_time_value) (use that in \<open>simp only: rows(2)\<close>)
  qed
qed

definition seven_tick :: rollup_tick where
  "seven_tick = \<lparr>tk_answers = \<lambda>q t. Inr [\<lparr>sample_name = Some ''web'', sample_value = show_nat 7\<rparr>],
     tk_at = 600000, tk_purged = 600100\<rparr>"

theorem chart_shows_what_was_measured_witness:
  "\<exists>rows. panel_rows (fetch_chart (\<lambda>_. None) (\<lambda>_. None) (demo_world\<lparr>w_now := 700000\<rparr>)
        (demo_tables\<lparr>rt_rollups := rollup_ticks demo_env [seven_tick] []\<rparr>)) ''web'' TabRam OneDay = Some rows
    \<and> cell rows 300000 MEMORY = Some (JNum 7) \<and> cell rows 300000 CPU = None"
proof -
  have seven: "measured demo_env [seven_tick] ''web'' MEMORY 300000 = Some 7"
    by (simp add: seven_tick_def bucket_of_def js_number_show_nat)
  have "matches_name 127 ''web''" by (simp add: ascii_alnum_def name_char_def)
  from chart_shows_what_was_measured [of "''web''" OneDay "demo_tables\<lparr>rt_rollups := rollup_ticks demo_env [seven_tick] []\<rparr>"
      "demo_world\<lparr>w_now := 700000\<rparr>" "[seven_tick]" "\<lambda>_. None" "\<lambda>_. None" TabRam, OF this]
  obtain rows where "panel_rows (fetch_chart (\<lambda>_. None) (\<lambda>_. None) (demo_world\<lparr>w_now := 700000\<rparr>)
        (demo_tables\<lparr>rt_rollups := rollup_ticks demo_env [seven_tick] []\<rparr>)) ''web'' TabRam OneDay = Some rows"
    and cells: "\<And>t k v. cell rows t k = Some v \<longleftrightarrow> k \<in> fst ` set (tab_series TabRam)
        \<and> (\<exists>b q. measured demo_env [seven_tick] ''web'' k b = Some q \<and> 700000 - RANGE_HOURS OneDay * 3600000 \<le> b
            \<and> t = of_int b \<and> v = JNum q)"
    by (auto simp: demo_world_def seven_tick_def simp del: measured.simps rollup_ticks.simps)
  moreover have "cell rows 300000 MEMORY = Some (JNum 7)"
    unfolding cells using seven by (intro conjI exI [of _ 300000] exI [of _ 7]) simp_all
  moreover have "cell rows 300000 CPU = None"
  proof -
    have "cell rows 300000 CPU \<noteq> Some v" for v using cells [of 300000 CPU v] by simp
    then show ?thesis by (metis not_None_eq)
  qed
  ultimately show ?thesis by blast
qed

end
