(* ===== verification/WebRenewal.thy ===== *)
theory WebRenewal
  imports WebAuth
begin

text \<open>
  The renewal timer of the session in time (the second effect of apps/web/src/lib/auth/
  auth-provider.tsx): an interval that starts when the access token changes and stops when there
  is none, around the machine of theory WebAuth.  The effect is
  taken to run with the change of the token it follows.  Times are milliseconds.
\<close>

section \<open>The interval\<close>

definition REFRESH_INTERVAL_MS :: int where
  "REFRESH_INTERVAL_MS = 12 * 60000"

text \<open>The effect with dependency \<open>accessToken\<close>: when the next tick is due.\<close>

definition interval_effect :: "int \<Rightarrow> string option \<Rightarrow> string option \<Rightarrow> int option \<Rightarrow> int option" where
  "interval_effect now old token due =
     (if token = old then due else if \<not> truthy token then None else Some (now + REFRESH_INTERVAL_MS))"

text \<open>A session with its interval; a tick that fires arms the next one.\<close>

record timed_session =
  td_session :: web_session
  td_due :: "int option"

definition timed_step ::
  "(json \<Rightarrow> string) \<Rightarrow> bool \<Rightarrow> int \<Rightarrow> timed_session \<Rightarrow> web_event \<Rightarrow> timed_session \<times> web_effect list" where
  "timed_step str storage now st e =
     (let (s, out) = web_step str storage (td_session st) e;
          due = (if e = RenewTick then Some (now + REFRESH_INTERVAL_MS) else td_due st)
      in (\<lparr>td_session = s, td_due = interval_effect now (ws_access (td_session st)) (ws_access s) due\<rparr>, out))"

fun timed_enabled :: "int \<Rightarrow> timed_session \<Rightarrow> web_event \<Rightarrow> bool" where
  "timed_enabled now st RenewTick = (case td_due st of None \<Rightarrow> False | Some d \<Rightarrow> d \<le> now)"
| "timed_enabled now st e = (e \<noteq> Mount \<and> web_enabled (td_session st) e)"

section \<open>Runs in time\<close>

text \<open>
  \<open>sent\<close> is when the last request for tokens was sent, \<open>born\<close> when the one was whose answer the
  session is made of: no token of it is older.  Time may pass to \<open>now\<close> while no tick and no
  answer to such a request is late by more than \<open>slack\<close>.
\<close>

definition prompt :: "int \<Rightarrow> timed_session \<Rightarrow> int \<Rightarrow> int \<Rightarrow> bool" where
  "prompt slack st sent now \<longleftrightarrow>
     (case td_due st of None \<Rightarrow> True | Some d \<Rightarrow> now \<le> d + slack)
   \<and> (list_ex (\<lambda>c. case c of TokensFor _ \<Rightarrow> True | _ \<Rightarrow> False) (ws_calls (td_session st)) \<longrightarrow> now \<le> sent + slack)"

fun asks_tokens :: "web_event \<Rightarrow> bool" where
  "asks_tokens (CallLogin _ _) = True"
| "asks_tokens (CallVerify _ _) = True"
| "asks_tokens RenewTick = True"
| "asks_tokens _ = False"

definition applied :: "web_effect list \<Rightarrow> bool" where
  "applied out = list_ex (\<lambda>e. case e of GetMe _ \<Rightarrow> True | _ \<Rightarrow> False) out"

inductive timed_run ::
  "(json \<Rightarrow> string) \<Rightarrow> bool \<Rightarrow> int \<Rightarrow> string option \<Rightarrow> (int \<times> web_event) list \<Rightarrow> int \<Rightarrow> timed_session \<Rightarrow> int \<Rightarrow> int \<Rightarrow> bool"
  for str storage slack stored where
  timed_start: "mount storage (web_init stored) = (s, out)
    \<Longrightarrow> timed_run str storage slack stored [] t \<lparr>td_session = s, td_due = None\<rparr> t t"
| timed_more: "\<lbrakk>timed_run str storage slack stored es t0 st sent born; t0 \<le> t; prompt slack st sent t;
     timed_enabled t st e; sequential (td_session st) e; timed_step str storage t st e = (st1, out)\<rbrakk>
    \<Longrightarrow> timed_run str storage slack stored (es @ [(t, e)]) t st1
          (if asks_tokens e then t else sent) (if applied out then sent else born)"

section \<open>The session stays young\<close>

lemma tokens_answered:
  assumes "ws_calls st ! i = TokensFor who" and "sequential st (Answer i http)"
  obtains
    (pair) pair where "web_step str storage st (Answer i http) = applySession storage who pair (take_call i st)"
      "truthy (pair_access pair)" "truthy (pair_refresh pair)"
  | (failed) r where "web_step str storage st (Answer i http) = chain_failed storage who r (take_call i st)"
  | (code) ch where "who = LoggingIn" "web_step str storage st (Answer i http) = (take_call i st, [CallerDone LoggingIn ch])"
proof (cases "auth_answer str http")
  case (ApiOk body)
  then obtain s b where http: "http = Resp s b" "resp_ok s" "body = json_or_empty b"
    by (auto simp: auth_answer_def Let_def split: http_outcome.splits if_splits)
  consider "body_throws who body" | "\<not> body_throws who body" "who = LoggingIn \<and> isTwoFactorChallenge body"
    | "\<not> body_throws who body" "\<not> (who = LoggingIn \<and> isTwoFactorChallenge body)" by blast
  then show ?thesis
  proof cases
    case 1
    then show ?thesis by (intro failed [of ApiThrows]) (simp add: assms(1) tokens_answer_def ApiOk)
  next
    case 2
    then show ?thesis by (intro code) (simp_all add: assms(1) tokens_answer_def ApiOk)
  next
    case 3
    with assms http have "truthy (pair_access (pair_of body))" "truthy (pair_refresh (pair_of body))"
      by (auto simp: tokens_ok_def no_challenge_def)
    with 3 show ?thesis by (intro pair [of "pair_of body"]) (auto simp: assms(1) tokens_answer_def ApiOk)
  qed
qed (auto intro: failed simp: assms(1) tokens_answer_def)

text \<open>With a session a tick is due in time, or its request is under way.\<close>

definition young :: "bool \<Rightarrow> int \<Rightarrow> timed_session \<Rightarrow> int \<Rightarrow> int \<Rightarrow> bool" where
  "young storage slack st sent born \<longleftrightarrow>
     session_ok storage (td_session st) \<and> ws_ref (td_session st) \<noteq> Some [] \<and> ws_access (td_session st) \<noteq> Some []
   \<and> (ws_access (td_session st) \<noteq> None \<longrightarrow> born \<le> sent \<and> (\<exists>d. td_due st = Some d
        \<and> (if TokensFor Renewing \<in> set (in_flight_calls (td_session st))
           then d = sent + REFRESH_INTERVAL_MS \<and> sent \<le> born + REFRESH_INTERVAL_MS + 2 * slack
           else d \<le> born + REFRESH_INTERVAL_MS + slack)))"

lemma young_age:
  assumes "young storage slack st sent born" and "prompt slack st sent t" and "ws_access (td_session st) \<noteq> None" and "0 \<le> slack"
  shows "t \<le> born + REFRESH_INTERVAL_MS + 3 * slack"
proof -
  have "list_ex (\<lambda>c. case c of TokensFor _ \<Rightarrow> True | _ \<Rightarrow> False) (ws_calls (td_session st))"
    if "TokensFor Renewing \<in> set (in_flight_calls (td_session st))"
    using that by (auto simp: in_flight_calls_def list_ex_iff intro!: bexI [of _ "TokensFor Renewing"])
  with assms show ?thesis by (auto simp: young_def prompt_def split: if_splits)
qed

text \<open>What a step keeps when it leaves token and pending renewals alone.\<close>

lemma young_frame:
  assumes "young storage slack st sent born" and "session_ok storage s"
    and "ws_ref s = ws_ref (td_session st)" and "ws_access s = ws_access (td_session st)"
    and "TokensFor Renewing \<in> set (in_flight_calls s) \<longleftrightarrow> TokensFor Renewing \<in> set (in_flight_calls (td_session st))"
  shows "young storage slack \<lparr>td_session = s, td_due = td_due st\<rparr> sent born"
  using assms by (simp add: young_def)

lemma young_cleared: "session_ok storage s \<Longrightarrow> ws_access s = None \<Longrightarrow> young storage slack \<lparr>td_session = s, td_due = d\<rparr> sent born"
  by (simp add: young_def session_ok_def)

lemma not_applied:
  "\<not> applied (snd (chain_failed storage who r s))" "\<not> applied (snd (me_answer storage who http s))"
  "\<not> applied (snd (web_logout storage s))" "\<not> applied (snd (renew_tick s))"
  by (cases who; simp add: applied_def session_ops me_answer_def web_logout_def renew_tick_def split: option.splits)+

lemma young_failed:
  assumes "young storage slack st sent born" and "i < length (ws_calls (td_session st))"
    and "ws_calls (td_session st) ! i = TokensFor who \<or> ws_calls (td_session st) ! i = MeFor who"
    and "session_ok storage (fst (chain_failed storage who r (take_call i (td_session st))))"
  shows "young storage slack \<lparr>td_session = fst (chain_failed storage who r (take_call i (td_session st))),
     td_due = interval_effect t (ws_access (td_session st))
       (ws_access (fst (chain_failed storage who r (take_call i (td_session st))))) (td_due st)\<rparr> sent born"
proof (cases "who = Restoring \<or> who = Renewing")
  case True
  then have "ws_access (fst (chain_failed storage who r (take_call i (td_session st)))) = None"
    by (auto simp: chain_failed_def clearSession_def)
  with assms(4) show ?thesis by (rule young_cleared)
next
  case False
  then have same: "fst (chain_failed storage who r (take_call i (td_session st))) = take_call i (td_session st)"
    by (cases who) (auto simp: chain_failed_def)
  have "session_ok storage (td_session st)" using assms(1) by (simp add: young_def)
  from flight_answered [OF this assms(2)] assms(3) False
  have "in_flight_calls (take_call i (td_session st)) = []" "TokensFor Renewing \<notin> set (in_flight_calls (td_session st))"
    by auto
  with assms(4) young_frame [OF assms(1), of "take_call i (td_session st)"] show ?thesis
    by (simp add: same interval_effect_def)
qed

lemma young_step:
  assumes y: "young storage slack st sent born" and pr: "prompt slack st sent t" and "sent \<le> t" and "0 \<le> slack"
    and en: "timed_enabled t st e" and seq: "sequential (td_session st) e" and step: "timed_step str storage t st e = (st1, out)"
  shows "young storage slack st1 (if asks_tokens e then t else sent) (if applied out then sent else born)"
proof -
  let ?s = "td_session st"
  have ok: "session_ok storage ?s" using y by (simp add: young_def)
  have e: "e \<noteq> Mount" using en by (cases e) auto
  have "ws_access ?s \<noteq> Some []" using y by (simp add: young_def)
  then have en': "e \<noteq> RenewTick \<Longrightarrow> web_enabled ?s e" using en by (cases e) simp_all
  obtain s1 where s1: "web_step str storage ?s e = (s1, out)"
    and st1: "st1 = \<lparr>td_session = s1, td_due = interval_effect t (ws_access ?s) (ws_access s1)
       (if e = RenewTick then Some (t + REFRESH_INTERVAL_MS) else td_due st)\<rparr>"
    using step by (auto simp: timed_step_def split_beta Let_def)
  show ?thesis
  proof (cases e)
    case RenewTick
    then have idle: "in_flight_calls ?s = []" using seq by simp
    obtain d where d: "td_due st = Some d" "t \<le> d + slack"
      using en pr by (auto simp: RenewTick prompt_def split: option.splits)
    have s1': "s1 = fst (renew_tick ?s)" and out: "out = snd (renew_tick ?s)" using s1 by (simp_all add: RenewTick)
    have acc: "ws_access s1 = ws_access ?s" "ws_ref s1 = ws_ref ?s" by (simp_all add: s1' renew_tick_def call_refresh_def)
    show ?thesis
    proof (cases "ws_access ?s")
      case None
      then have "ws_ref ?s = None" using ok by (simp add: session_ok_def)
      with y None show ?thesis by (simp add: young_def st1 acc s1' renew_tick_def)
    next
      case (Some a)
      then have "truthy (ws_ref ?s)" using y by (cases "ws_ref ?s") (auto simp: young_def session_ok_def)
      then have fl: "in_flight_calls s1 = [TokensFor Renewing]"
        using idle by (simp add: s1' renew_tick_def call_refresh_def in_flight_calls_def)
      have "session_ok storage s1"
        using session_ok_step [OF ok _ e seq, of str] Some y s1 by (auto simp: RenewTick young_def truthy_iff)
      with y Some d idle assms(3) show ?thesis
        by (auto simp: young_def st1 acc fl RenewTick interval_effect_def out not_applied)
    qed
  next
    case (Answer i http)
    with en have i: "i < length (ws_calls ?s)" by simp
    have ok1: "session_ok storage s1"
      using session_ok_step [OF ok en' e seq, of str] s1 by (simp add: Answer)
    show ?thesis
    proof (cases "ws_calls ?s ! i")
      case (TokensFor who)
      note fl = flight_answered [OF ok i, unfolded TokensFor, simplified]
      have "TokensFor who \<in> set (ws_calls ?s)" using i TokensFor by (metis nth_mem)
      then have late: "t \<le> sent + slack" using pr by (force simp: prompt_def list_ex_iff)
      from TokensFor seq [unfolded Answer] show ?thesis
      proof (cases rule: tokens_answered [where str = str and storage = storage])
        case (pair p)
        let ?b = "td_due st"
        have "applySession storage who p (take_call i ?s) = (s1, out)"
          using s1 pair(1) by (simp add: Answer del: web_step.simps)
        then have s1': "s1 = fst (applySession storage who p (take_call i ?s))" and out: "applied out"
          by (auto simp: applied_def applySession_def Let_def)
        have "in_flight_calls s1 = in_flight_calls (take_call i ?s) @ [MeFor who]"
          by (simp add: s1' session_ops in_flight_calls_def)
        with fl have fl1: "TokensFor Renewing \<notin> set (in_flight_calls s1)" by simp
        have acc: "ws_access s1 = pair_access p" "ws_ref s1 = pair_refresh p" by (simp_all add: s1' session_ops)
        from y late fl have "pair_access p = ws_access ?s \<Longrightarrow> \<exists>d. td_due st = Some d \<and> d \<le> sent + REFRESH_INTERVAL_MS + slack"
          using pair(2) \<open>0 \<le> slack\<close> by (auto simp: young_def truthy_iff split: if_splits)
        with late ok1 fl1 pair(2,3) out show ?thesis
          by (auto simp: young_def st1 Answer acc interval_effect_def truthy_iff)
      next
        case (failed r)
        then have c: "chain_failed storage who r (take_call i ?s) = (s1, out)"
          using s1 by (simp add: Answer del: web_step.simps)
        from young_failed [OF y i, of who r t] TokensFor ok1 not_applied(1) [of storage who r "take_call i ?s"] show ?thesis
          by (simp add: c st1 Answer)
      next
        case (code ch)
        with s1 fl young_frame [OF y ok1] show ?thesis
          by (auto simp: st1 Answer applied_def interval_effect_def simp del: web_step.simps)
      qed
    next
      case (MeFor who)
      note fl = flight_answered [OF ok i, unfolded MeFor, simplified]
      show ?thesis
      proof (cases "fetchMe http")
        case None
        then have c: "chain_failed storage who ApiThrows (take_call i ?s) = (s1, out)"
          using s1 MeFor by (simp add: Answer me_answer_def)
        from young_failed [OF y i, of who ApiThrows t] MeFor ok1 not_applied(1) [of storage who ApiThrows "take_call i ?s"]
        show ?thesis by (simp add: c st1 Answer)
      next
        case (Some u)
        have same: "ws_access s1 = ws_access ?s" "ws_ref s1 = ws_ref ?s" "in_flight_calls s1 = []" "\<not> applied out"
          using s1 fl by (cases who; auto simp: Answer MeFor me_answer_def Some Let_def in_flight_calls_def applied_def)+
        with fl young_frame [OF y ok1] show ?thesis by (simp add: st1 Answer interval_effect_def)
      qed
    next
      case Revoking
      with i have "in_flight_calls (take_call i ?s) = in_flight_calls ?s" by (metis flight_take append_Nil)
      with s1 Revoking young_frame [OF y ok1] show ?thesis
        by (auto simp: st1 Answer interval_effect_def applied_def)
    qed
  next
    case CallLogout
    have ok1: "session_ok storage s1" using session_ok_step [OF ok en' e seq, of str] s1 by (simp add: CallLogout)
    have "ws_access s1 = None" using s1 by (auto simp: CallLogout web_logout_def session_ops split: if_splits)
    with young_cleared [OF ok1] show ?thesis by (simp add: st1)
  next
    case (CallLogin u pw)
    have ok1: "session_ok storage s1" using session_ok_step [OF ok en' e seq, of str] s1 by (simp add: CallLogin)
    with s1 y seq assms(3) show ?thesis
      by (auto simp: young_def st1 CallLogin interval_effect_def applied_def flight_snoc)
  next
    case (CallVerify ch code)
    have ok1: "session_ok storage s1" using session_ok_step [OF ok en' e seq, of str] s1 by (simp add: CallVerify)
    with s1 y seq assms(3) show ?thesis
      by (auto simp: young_def st1 CallVerify interval_effect_def applied_def flight_snoc)
  qed (use e in simp)
qed

lemma young_run:
  assumes "timed_run str storage slack stored es t st sent born" and "stored \<noteq> Some []" and "0 \<le> slack"
  shows "young storage slack st sent born \<and> sent \<le> t"
  using assms(1)
proof (induction rule: timed_run.induct)
  case (timed_start s out t)
  then have "ws_access s = None \<and> ws_ref s = None \<and> session_ok storage s"
    using assms(2) by (cases stored) (auto simp: mount_def web_init_def session_ok_def session_ops loadRefreshToken_def
      in_flight_calls_def truthy_iff split: if_splits)
  then show ?case by (simp add: young_def)
next
  case (timed_more es t0 st sent born t e st1 out)
  then have "sent \<le> t" by simp
  with young_step [of storage slack st sent born t e str st1 out] timed_more assms(3) show ?case by simp
qed

text \<open>
  C34: a session in use does not expire.  When calls do not overtake each other and neither a tick
  of the timer nor an answer to a request for tokens is a minute late, then at every
  moment the access token of the session comes from a request sent less than 15 minutes ago: with
  the 15 minutes cci-auth-service gives a token it is always still valid.
\<close>

theorem session_outlives_its_tokens:
  assumes "timed_run str storage slack stored es t0 st sent born" and "stored \<noteq> Some []"
    and "0 \<le> slack" and "slack < 60000"
    and "t0 \<le> t" and "prompt slack st sent t" and "ws_access (td_session st) \<noteq> None"
  shows "t - born < 15 * 60000"
  using young_age [OF young_run [OF assms(1-3), THEN conjunct1] assms(6,7,3)] assms(4)
  by (simp add: REFRESH_INTERVAL_MS_def)

section \<open>Witness\<close>

definition renewing_session :: timed_session where
  "renewing_session = \<lparr>td_session = \<lparr>ws_user = \<lparr>sub = Some ''u1'', email = None, user_role = Admin\<rparr>,
       ws_access = Some ''a'', ws_ready = True, ws_ref = Some ''r'', ws_stored = Some ''r'', ws_calls = [TokensFor Renewing]\<rparr>,
     td_due = Some 1441500\<rparr>"

text \<open>A login whose answer takes a second, and the first tick, a little late.\<close>

lemma renewing_run:
  "timed_run (\<lambda>_. []) True 30000 None [(0, CallLogin ''e'' ''p''), (1000, Answer 0 sample_tokens), (2000, Answer 0 sample_me),
     (721500, RenewTick)] 721500 renewing_session 721500 0"
proof -
  note d = body_throws_def mount_def web_init_def loadRefreshToken_def in_flight_calls_def tokens_answer_def auth_answer_def
    sample_tokens_def sample_me_def resp_ok_def me_answer_def fetchMe_def user_of_def pair_of_def session_ops
    take_call_def remove_nth.simps tokens_ok_def no_challenge_def isTwoFactorChallenge_def timed_step_def interval_effect_def
    prompt_def renew_tick_def renewing_session_def REFRESH_INTERVAL_MS_def
  let ?run = "timed_run (\<lambda>_. []) True 30000 None"
  let ?S = "\<lambda>u a r cs. \<lparr>ws_user = u, ws_access = a, ws_ready = True, ws_ref = r, ws_stored = r, ws_calls = cs\<rparr>"
  have 0: "?run [] 0 \<lparr>td_session = ?S ANONYMOUS None None [], td_due = None\<rparr> 0 0"
    by (rule timed_start [where out = "[]"]) (simp add: d)
  have 1: "?run ([] @ [(0, CallLogin ''e'' ''p'')]) 0 \<lparr>td_session = ?S ANONYMOUS None None [TokensFor LoggingIn], td_due = None\<rparr> 0 0"
    using timed_more [OF 0, of 0 "CallLogin ''e'' ''p''"] by (simp add: d applied_def)
  have 2: "?run (([] @ [(0, CallLogin ''e'' ''p'')]) @ [(1000, Answer 0 sample_tokens)]) 1000
      \<lparr>td_session = ?S ANONYMOUS (Some ''a'') (Some ''r'') [MeFor LoggingIn], td_due = Some 721000\<rparr> 0 0"
    using timed_more [OF 1, of 1000 "Answer 0 sample_tokens"] by (simp add: d applied_def)
  have 3: "?run ((([] @ [(0, CallLogin ''e'' ''p'')]) @ [(1000, Answer 0 sample_tokens)]) @ [(2000, Answer 0 sample_me)]) 2000
      \<lparr>td_session = ?S \<lparr>sub = Some ''u1'', email = None, user_role = Admin\<rparr> (Some ''a'') (Some ''r'') [], td_due = Some 721000\<rparr> 0 0"
    using timed_more [OF 2, of 2000 "Answer 0 sample_me"] by (simp add: d applied_def)
  show ?thesis
    using timed_more [OF 3, of 721500 RenewTick] by (simp add: d applied_def)
qed

theorem session_outlives_its_tokens_witness:
  "\<exists>es. timed_run (\<lambda>_. []) True 30000 None es 721500 renewing_session 721500 0
    \<and> prompt 30000 renewing_session 721500 740000 \<and> ws_access (td_session renewing_session) \<noteq> None
    \<and> 740000 - 0 < (15 * 60000 :: int)"
proof -
  have now: "prompt 30000 renewing_session 721500 740000" "ws_access (td_session renewing_session) \<noteq> None"
    by (simp_all add: prompt_def renewing_session_def)
  from session_outlives_its_tokens [OF renewing_run, of 740000] now have "740000 - 0 < (15 * 60000 :: int)" by simp
  with renewing_run now show ?thesis by blast
qed

end
