(* ===== verification/Spec2Isabelle.thy ===== *)
theory Spec2Isabelle
  imports LogsService Alerts Actions AuthBff AuditTrail Containers Gateway NotifyBot Taskforge Metrics
    LiveServer RestApi Replicas WebLogs WebLive WebPanels WebCharts WebTexts Routes LiveMessages WebConnection
    EndToEnd LogStreams MetricsFlow WebRenewal
begin

text \<open>
  core-dashboard is a live control panel of a compose stack.  The API (apps/api, NestJS) watches the
  Docker engine, publishes container updates in rooms of a Socket.IO gateway, streams container logs
  with back-pressure, turns crashes into Telegram alerts, restarts containers for authorised users,
  serves metric series from Prometheus and from its own rollups, and forwards to three other
  services (cci-auth-service, taskforge, ops-notify-bot).  The web client (apps/web, Next.js) shows
  all this.  packages/shared holds the contracts of both.  This development models the logic of both
  applications and proves what makes it correct.


  How the parts interact, and the theory of each.

  Foundations.  Prelude: strings, arrays and the step-run of a machine.  Incremental: the locale of
  a consumer of chunks, interpreted by every stream parser.  Cooldown: the locale of a per-key
  cool-down, interpreted by restarts and alerts.  Http: JSON values, HTTP outcomes and errors.
  JsNumber: Number(s) and String(n), the validation of numeric query parameters.  Utf8: decoding of
  a Buffer.  Shared: packages/shared/src (auth.ts, events.ts, alerts.ts).

  Logs.  DockerFrames and LogLines: logs/docker-frames.ts, from the bytes of the engine to
  timestamped lines.  LogSession and LogFlow: logs/log-session.ts as a machine and its laws (no
  silent loss, one batch in flight, bounded queue, drain).  LogsService: logs/logs.service.ts, the
  registry of sessions per socket.  WebLogs: lib/live/logs-buffer.ts and use-container-logs.ts, the
  browser's side, composed with the session of the server.  LogStreams: every stream of the registry
  is a run of the session machine fed with the lines of its own container; from there to the
  terminal of the browser.

  Containers and updates.  Containers: containers/containers.service.ts, the inventory, the
  subscription to engine events with its retry, and the update published for an event.  Gateway:
  gateway/live.gateway.ts, rooms and broadcasts.  WebState and WebLive: lib/live/state.ts and
  live-provider.tsx, composed with the gateway.  Alerts: alerts/alerts.service.ts.

  Users and actions.  Auth: auth/token.service.ts, jwks.provider.ts, auth.guard.ts,
  roles.decorator.ts, ws-auth.middleware.ts.  AuthBff: auth.controller.ts, auth-proxy.service.ts.
  Actions: actions/actions.service.ts.  AuditTrail: the restart request through guard, inventory,
  action and audit row (actions.controller.ts), the audit log (audit/) and the security log
  (security-audit/).

  The process as a whole.  LiveServer: engine subscription, gateway, alerts and log streams as one
  machine (the listeners of onUpdate, handleDisconnect), projected to its components.  RestApi:
  every controller behind the global guard on one set of tables, with the handlers that only
  delegate (jobs, taskforge-status, health, /auth/me).  LiveMessages: the message handlers of the
  gateway with their answers, as steps of LiveServer.  Replicas: the start of a process (main.ts,
  gateway/redis-io.adapter.ts, containers/docker.client.ts) and several processes on one Redis.

  Other services.  NotifyBot: the client, the poller, the feed and the settings of alerts/.
  Taskforge: jobs/, taskforge-status/ and health/.  Metrics: metrics/ and retention/.  MetricsFlow:
  the rollups one after another, and from them through routes, JSON and REST client to the rows of
  the chart.

  Browser.  WebApi: the REST clients of apps/web/src/lib, composed with the controllers they call.
  WebAuth: lib/auth and the login dialog; WebRenewal: its renewal timer, in time.  Routes: the
  rewrite of the web server (next.config.ts) and the routes of all controllers (their decorators,
  app.module.ts), which take the requests of WebApi and WebAuth to RestApi.  WebConnection: the
  sockets live-provider.tsx opens as the token of the session changes.  EndToEnd: a click in the
  page, through web server, routes and API, to the engine and the audit log, and an engine event
  through API process and socket to the grid of the page.  WebPanels: the restart button, the panels
  and their visibility, paging, the alert summaries and i18n.  WebCharts: the chart of a container
  and lib/metrics/format.ts.  WebNodes: what a component renders, as a tree of elements with texts
  and handlers.  WebViews: the tree of every component of apps/web/src/components.  WebPage: the
  whole page (live-dashboard.tsx) as one machine, in which the user does what the tree offers; its
  laws are in WebPageLaws and WebPageRuns.  WebTexts: the message files and the texts the tree asks
  for.


  How code becomes definitions.  An operation of a class is a function of the same name on a record
  of its fields; what it does to its collaborators is a list of effects in order.  An await cuts an
  operation: what follows is an event of the component's machine (an ack, a timer, the answer of a
  lookup), which may come in any order the platform allows, and a run is a sequence of events.  An
  exception is a value of a sum or option type.  A timer of the platform fires at its due time or
  later, never before.  Clock readings are arguments.


  What the groups of lemmas show.  Logs: the pipeline yields the container's lines for every cutting
  of the stream; each line pushed is emitted in order or counted as dropped, on the server, and
  shown or counted, in the browser, whatever other clients do; streams are closed with their socket;
  the limit of streams per socket holds for subscriptions one after another, and fails for
  overlapping ones.  Updates: the subscription recovers, the update agrees with the snapshot, and
  the page shows the latest delivered state of its services.  Alerts: each has a cause, they are
  spaced, a quick restart is not reported as down, a crash is.  Actions: a restart reaches Docker
  only for a verified operator and a managed, unprotected container, within the budget, and leaves
  one audit row.  Metrics: rollups are idempotent, ranges bounded, and the chart shows the first
  measurement of each five minutes.  Browser: its session is coherent while calls do not overtake
  each other (and a logout is undone when they do) and renewed before its token expires, its
  requests are served as asked, the page offers what the guard admits, every text it asks for
  exists, and a restart leaves it only confirmed (though perhaps for another container).  Processes:
  the components behave inside the API process and inside the page as they do alone, requests and
  messages change nothing without a verified role, and updates cross processes when Redis connects
  them.  Between the two: every request of the browser reaches the handler it means, the session's
  calls reach cci-auth-service, and page, socket and API agree on who the user is.


  Bounds and recursion.  The limits are the code's: 3 streams per socket, queues of 2000 lines
  paused at 1000 and resumed at 200, batches of 100, buffers of 1000 lines in the browser, 50 rooms
  per request, pages of at most 200, 10 restarts in 5 minutes.  There is no fuel: loops are
  structural, or recursive functions with a measure (the frame loop consumes its buffer, the pager
  approaches the total).  Counters and times are unbounded integers, sums of rationals exact; where
  a double rounds, rounding is a function of the model (theory JsNumber).


  Parameters, standing for code outside the repository: jsonwebtoken and jwks-rsa (a record of
  functions in theory Auth), fetch (the outcome of a request), the Docker engine (listing, inspect,
  event stream, the answer to a restart), Prometheus (answers to queries), Prisma (tables are
  lists), the collation of the browser (assumed to be a total preorder), Date.parse and the local
  time.  After an error or its end an event stream is taken to emit nothing more.


  Routing is taken to be exact: NestJS would also take a trailing slash or other letter case.


  Not modelled: the declarative wiring of NestJS modules (*.module.ts), the Prisma client's
  connection, logging, static class names and the drawing of charts, React Query's cache (its
  results are arguments of the tree), the pages and configuration of Next.js.
\<close>

end
